theory Spec2Isabelle
  imports Main "HOL-Library.AList"
begin

section \<open>The action execution and undo engine of Code.gs\<close>

text \<open>
  The development follows \<^verbatim>\<open>Sheetmind/frontend/deploy/Code.gs\<close>: the column index codec,
  the handlers behind \<^verbatim>\<open>executeSheetAction\<close>, the plan executor \<^verbatim>\<open>executeStepPlan\<close>,
  the undo operation \<^verbatim>\<open>undoSheetActions\<close> and the payload guard of \<^verbatim>\<open>_readSheetData\<close>.
  Source names are kept; a leading underscore, which an Isabelle name cannot carry, is dropped
  (\<^verbatim>\<open>_colLetter\<close> is \<open>colLetter\<close>).
\<close>

subsection \<open>Characters and numbers as text\<close>

definition isUpperAZ :: "char \<Rightarrow> bool" where
  "isUpperAZ ch = (65 \<le> (of_char ch :: nat) \<and> (of_char ch :: nat) \<le> 90)"

definition isDigit :: "char \<Rightarrow> bool" where
  "isDigit ch = (48 \<le> (of_char ch :: nat) \<and> (of_char ch :: nat) \<le> 57)"

text \<open>
  JavaScript's conversion of an integer to text (string concatenation with a number), for the
  integers that print in plain decimal notation.
\<close>

function showNat :: "nat \<Rightarrow> string" where
  "showNat n =
     (if n < 10 then [char_of (48 + n)]
      else showNat (n div 10) @ [char_of (48 + n mod 10)])"
  by pat_completeness auto
termination
  by (relation "measure (\<lambda>n. n)") auto

declare showNat.simps [simp del]

definition showInt :: "int \<Rightarrow> string" where
  "showInt i = (if i < 0 then CHR ''-'' # showNat (nat (- i)) else showNat (nat i))"

text \<open>\<^verbatim>\<open>parseInt\<close> on a string of decimal digits.\<close>

definition parseInt :: "string \<Rightarrow> nat" where
  "parseInt ds = foldl (\<lambda>acc ch. acc * 10 + (of_char ch - 48)) 0 ds"

subsection \<open>Column index codec\<close>

text \<open>
  \<^verbatim>\<open>_colLetter\<close>: the \<^verbatim>\<open>while (c > 0)\<close> loop, then the function with its module-level cache
  \<^verbatim>\<open>_colCache\<close>. A cache entry is used when it is truthy, that is, a non-empty string.
\<close>

function colLetterLoop :: "int \<Rightarrow> string \<Rightarrow> string" where
  "colLetterLoop c letter =
     (if c > 0
      then colLetterLoop ((c - 1) div 26) (char_of (65 + (c - 1) mod 26) # letter)
      else letter)"
  by pat_completeness auto
termination
  by (relation "measure (\<lambda>(c, letter). nat c)") auto

declare colLetterLoop.simps [simp del]

type_synonym colCache = "int \<rightharpoonup> string"

definition colLetter :: "int \<Rightarrow> colCache \<Rightarrow> string \<times> colCache" where
  "colLetter col cache =
     (case cache col of
        Some s \<Rightarrow>
          if s \<noteq> [] then (s, cache)
          else (colLetterLoop col [], cache(col \<mapsto> colLetterLoop col []))
      | None \<Rightarrow> (colLetterLoop col [], cache(col \<mapsto> colLetterLoop col [])))"

text \<open>The cache after the calls \<^verbatim>\<open>_colLetter(c)\<close> for the \<open>c\<close> of a list, in order, from the
  empty cache the script starts with.\<close>

definition cacheAfter :: "int list \<Rightarrow> colCache" where
  "cacheAfter cs = foldl (\<lambda>cache c. snd (colLetter c cache)) Map.empty cs"

text \<open>\<^verbatim>\<open>_letterToColumn\<close>: the \<^verbatim>\<open>for\<close> loop over the characters.\<close>

definition letterToColumn :: "string \<Rightarrow> int" where
  "letterToColumn letter = foldl (\<lambda>col ch. col * 26 + (of_char ch - 64)) 0 letter"

subsection \<open>The document: sheets, ranges and the host's calls\<close>

text \<open>
  The script runs inside a spreadsheet host. Of the host the source holds only the calls, so
  the part of the host that the handlers depend on is written out here:
  \<^item> a sheet is a name and a grid of cell contents, one list per row, \<open>[]\<close> for an empty
    cell; rows and columns are numbered from 1 and the number of rows of the grid is the
    length of the list;
  \<^item> a workbook is the ordered list of its sheets, the name of the active sheet, the active
    selection, and the list of the mutating calls the script has issued so far, in order;
  \<^item> a thrown JavaScript exception is a value \<open>Error message\<close>.
  Cell contents are kept as text: the host's evaluation of formulas is not part of the model.
\<close>

datatype error = Error (message: string)

type_synonym 'a outcome = "error + 'a"

type_synonym grid = "string list list"

record sheet =
  sname :: string
  grid :: grid

datatype rect = Rect (rrow: nat) (rcol: nat) (nrows: nat) (ncols: nat)

datatype hostcall =
    Call_flush
  | Call_insertSheet string
  | Call_deleteSheet string
  | Call_clearSheet string
  | Call_setName string string
  | Call_copySheet string string
  | Call_setFormula string rect string
  | Call_setValues string rect grid
  | Call_copyTo string rect rect
  | Call_deleteRows string int int
  | Call_clearRange string rect
  | Call_effect string string

record workbook =
  sheets :: "sheet list"
  active :: string
  activeRange :: "rect option"
  calls :: "hostcall list"

text \<open>The payload of an action, typed as the handlers' parameters are documented; a text field
  that is absent is the empty string, which JavaScript treats as absent (falsy) too. The field
  \<^verbatim>\<open>range\<close> is \<open>rangeStr\<close>, the field \<^verbatim>\<open>values\<close> is \<open>valuesArr\<close> and the fields of a
  condition are \<open>condColumn\<close>, \<open>condEmpty\<close> and \<open>condValue\<close>; \<open>payload\<close> holds the fields that
  only the host's formatting, chart, filter and validation calls read.\<close>

record condition =
  condColumn :: string
  condEmpty :: bool
  condValue :: "string option"

record action =
  action :: string
  sheet :: string
  name :: string
  cell :: string
  formula :: string
  fillDown :: bool
  rangeStr :: string
  valuesArr :: grid
  sourceCell :: string
  lastRow :: int
  rows :: "int list option"
  condition :: "condition option"
  dataSheet :: string
  labelColumn :: string
  sourceSheet :: string
  destSheet :: string
  oldName :: string
  newName :: string
  source :: string
  payload :: "(string \<times> string) list"

text \<open>
  What the host decides and the source does not show is a parameter of the model:
  \<^item> \<open>getRangeA1 sh s\<close>: \<^verbatim>\<open>sheet.getRange(s)\<close> for a range string, which raises or gives a
    rectangle;
  \<^item> \<open>getA1Notation\<close>: the text the host prints for a rectangle;
  \<^item> \<open>adjust di dj f\<close>: the content a copied cell receives \<open>di\<close> rows and \<open>dj\<close> columns away
    from its source (the host shifts relative references);
  \<^item> \<open>copyName names n\<close>: the name the host gives to a copy of sheet \<open>n\<close>;
  \<^item> \<open>effect kind a shs sh\<close>: what the host calls of a formatting, chart, filter, validation,
    search or read handler do once the handler has its sheet: they raise or return the
    handler's message, and leave the sheet with some grid.
\<close>

record host =
  getRangeA1 :: "sheet \<Rightarrow> string \<Rightarrow> rect outcome"
  getA1Notation :: "rect \<Rightarrow> string"
  adjust :: "nat \<Rightarrow> nat \<Rightarrow> string \<Rightarrow> string"
  copyName :: "string list \<Rightarrow> string \<Rightarrow> string"
  effect :: "string \<Rightarrow> action \<Rightarrow> sheet list \<Rightarrow> sheet \<Rightarrow> string outcome \<times> grid"

definition hostException :: error where
  "hostException = Error ''Exception''"

definition quoted :: "string \<Rightarrow> string" where
  "quoted s = [CHR 0x27] @ s @ [CHR 0x27]"

subsubsection \<open>Sheets of a workbook\<close>

definition getSheetByName :: "workbook \<Rightarrow> string \<Rightarrow> sheet option" where
  "getSheetByName wb n = find (\<lambda>sh. sname sh = n) (sheets wb)"

definition getActiveSheet :: "workbook \<Rightarrow> sheet option" where
  "getActiveSheet wb =
     (case find (\<lambda>sh. sname sh = active wb) (sheets wb) of
        Some sh \<Rightarrow> Some sh
      | None \<Rightarrow> (case sheets wb of [] \<Rightarrow> None | sh # _ \<Rightarrow> Some sh))"

fun updateFirst :: "string \<Rightarrow> (sheet \<Rightarrow> sheet) \<Rightarrow> sheet list \<Rightarrow> sheet list" where
  "updateFirst n f [] = []"
| "updateFirst n f (sh # shs) =
     (if sname sh = n then f sh # shs else sh # updateFirst n f shs)"

fun removeFirst :: "string \<Rightarrow> sheet list \<Rightarrow> sheet list" where
  "removeFirst n [] = []"
| "removeFirst n (sh # shs) = (if sname sh = n then shs else sh # removeFirst n shs)"

definition issue :: "hostcall \<Rightarrow> workbook \<Rightarrow> workbook" where
  "issue c wb = wb\<lparr>calls := calls wb @ [c]\<rparr>"

definition onGrid :: "string \<Rightarrow> (grid \<Rightarrow> grid) \<Rightarrow> workbook \<Rightarrow> workbook" where
  "onGrid n f wb = wb\<lparr>sheets := updateFirst n (\<lambda>sh. sh\<lparr>grid := f (grid sh)\<rparr>) (sheets wb)\<rparr>"

definition flush :: "workbook \<Rightarrow> workbook" where
  "flush wb = issue Call_flush wb"

text \<open>A sheet the host inserts has 1000 rows of 26 empty cells and becomes the active sheet.\<close>

definition blankGrid :: grid where
  "blankGrid = replicate 1000 (replicate 26 [])"

definition insertSheet :: "string \<Rightarrow> workbook \<Rightarrow> workbook" where
  "insertSheet n wb =
     issue (Call_insertSheet n)
       (wb\<lparr>sheets := sheets wb @ [\<lparr>sname = n, grid = blankGrid\<rparr>], active := n\<rparr>)"

text \<open>\<^verbatim>\<open>ss.deleteSheet(sheet)\<close> is modelled without a refusal of its own: whatever keeps the last
  sheet in place is then the script's doing.\<close>

definition deleteSheetHost :: "string \<Rightarrow> workbook \<Rightarrow> workbook" where
  "deleteSheetHost n wb = issue (Call_deleteSheet n) (wb\<lparr>sheets := removeFirst n (sheets wb)\<rparr>)"

definition clearSheet :: "string \<Rightarrow> workbook \<Rightarrow> workbook" where
  "clearSheet n wb = issue (Call_clearSheet n) (onGrid n (map (map (\<lambda>v. []))) wb)"

text \<open>\<^verbatim>\<open>sheet.setName\<close> raises when another sheet carries the name already.\<close>

definition setName :: "string \<Rightarrow> string \<Rightarrow> workbook \<Rightarrow> workbook outcome" where
  "setName n n' wb =
     (if n' \<noteq> n \<and> n' \<in> set (map sname (sheets wb)) then Inl hostException
      else Inr (issue (Call_setName n n')
             (wb\<lparr>sheets := updateFirst n (\<lambda>sh. sh\<lparr>sname := n'\<rparr>) (sheets wb),
                 active := (if active wb = n then n' else active wb)\<rparr>)))"

definition copySheetHost :: "host \<Rightarrow> sheet \<Rightarrow> workbook \<Rightarrow> string \<times> workbook" where
  "copySheetHost H sh wb =
     (let n' = copyName H (map sname (sheets wb)) (sname sh)
      in (n', issue (Call_copySheet (sname sh) n')
                (wb\<lparr>sheets := sheets wb @ [sh\<lparr>sname := n'\<rparr>]\<rparr>)))"

subsubsection \<open>Cells of a grid\<close>

definition cellAt :: "grid \<Rightarrow> nat \<Rightarrow> nat \<Rightarrow> string" where
  "cellAt g r c =
     (if 1 \<le> r \<and> r \<le> length g \<and> 1 \<le> c \<and> c \<le> length (g ! (r - 1))
      then g ! (r - 1) ! (c - 1) else [])"

definition padTo :: "nat \<Rightarrow> 'a \<Rightarrow> 'a list \<Rightarrow> 'a list" where
  "padTo n x xs = xs @ replicate (n - length xs) x"

text \<open>Writing a cell beyond the grid extends the grid.\<close>

definition setCell :: "nat \<Rightarrow> nat \<Rightarrow> string \<Rightarrow> grid \<Rightarrow> grid" where
  "setCell r c v g =
     (if r = 0 \<or> c = 0 then g
      else (let g' = padTo r [] g
            in g'[r - 1 := (padTo c [] (g' ! (r - 1)))[c - 1 := v]]))"

definition rectCells :: "rect \<Rightarrow> (nat \<times> nat) list" where
  "rectCells rc =
     concat (map (\<lambda>i. map (\<lambda>j. (i, j)) [rcol rc ..< rcol rc + ncols rc])
                 [rrow rc ..< rrow rc + nrows rc])"

definition shifted :: "host \<Rightarrow> nat \<Rightarrow> nat \<Rightarrow> string \<Rightarrow> string" where
  "shifted H di dj f = (if di = 0 \<and> dj = 0 then f else adjust H di dj f)"

text \<open>Every cell of the rectangle receives the content, shifted by its offset from the
  rectangle's first cell: \<^verbatim>\<open>range.setFormula\<close>, and \<^verbatim>\<open>copyTo\<close> from a single cell.\<close>

definition writeRect :: "host \<Rightarrow> rect \<Rightarrow> string \<Rightarrow> grid \<Rightarrow> grid" where
  "writeRect H rc f g =
     fold (\<lambda>(i, j). setCell i j (shifted H (i - rrow rc) (j - rcol rc) f)) (rectCells rc) g"

definition clearRect :: "rect \<Rightarrow> grid \<Rightarrow> grid" where
  "clearRect rc g = fold (\<lambda>(i, j). setCell i j []) (rectCells rc) g"

definition getValues :: "grid \<Rightarrow> rect \<Rightarrow> grid" where
  "getValues g rc =
     map (\<lambda>i. map (\<lambda>j. cellAt g i j) [rcol rc ..< rcol rc + ncols rc])
         [rrow rc ..< rrow rc + nrows rc]"

definition rowBlank :: "string list \<Rightarrow> bool" where
  "rowBlank row = list_all (\<lambda>v. v = []) row"

definition getLastRow :: "grid \<Rightarrow> nat" where
  "getLastRow g = length g - length (takeWhile rowBlank (rev g))"

definition lastFilled :: "string list \<Rightarrow> nat" where
  "lastFilled row = length row - length (takeWhile (\<lambda>v. v = []) (rev row))"

definition getLastColumn :: "grid \<Rightarrow> nat" where
  "getLastColumn g = foldr (\<lambda>row m. max (lastFilled row) m) g 0"

text \<open>\<^verbatim>\<open>sheet.getDataRange()\<close>: from cell A1 to the last row and column with content, one cell
  at least.\<close>

definition getDataRange :: "grid \<Rightarrow> rect" where
  "getDataRange g = Rect 1 1 (max 1 (getLastRow g)) (max 1 (getLastColumn g))"

text \<open>\<^verbatim>\<open>sheet.getRange(row, column, numRows, numColumns)\<close> raises unless all four are at least 1.\<close>

definition getRange4 :: "int \<Rightarrow> int \<Rightarrow> int \<Rightarrow> int \<Rightarrow> rect outcome" where
  "getRange4 r c n m =
     (if 1 \<le> r \<and> 1 \<le> c \<and> 1 \<le> n \<and> 1 \<le> m then Inr (Rect (nat r) (nat c) (nat n) (nat m))
      else Inl hostException)"

text \<open>\<^verbatim>\<open>sheet.deleteRows(rowPosition, howMany)\<close> raises when the rows are not rows of the grid
  or are all of them; otherwise the rows leave the grid and the rows below move up.\<close>

definition deleteRowsHost :: "string \<Rightarrow> int \<Rightarrow> int \<Rightarrow> workbook \<Rightarrow> workbook outcome" where
  "deleteRowsHost n pos cnt wb =
     (case getSheetByName wb n of
        None \<Rightarrow> Inl hostException
      | Some sh \<Rightarrow>
          if 1 \<le> pos \<and> 1 \<le> cnt \<and> pos + cnt - 1 \<le> int (length (grid sh))
             \<and> cnt < int (length (grid sh))
          then Inr (issue (Call_deleteRows n pos cnt)
                 (onGrid n (\<lambda>g. take (nat pos - 1) g @ drop (nat pos - 1 + nat cnt) g) wb))
          else Inl hostException)"

subsection \<open>Text patterns of the handlers\<close>

text \<open>Whitespace as the pattern \<^verbatim>\<open>\s\<close> takes it, among the characters a byte can hold, and
  \<^verbatim>\<open>toUpperCase\<close> on the letters a to z.\<close>

definition isSpace :: "char \<Rightarrow> bool" where
  "isSpace ch = ((of_char ch :: nat) \<in> {9, 10, 11, 12, 13, 32, 160})"

definition toUpperCase :: "string \<Rightarrow> string" where
  "toUpperCase s =
     map (\<lambda>ch. if 97 \<le> (of_char ch :: nat) \<and> (of_char ch :: nat) \<le> 122
                then char_of ((of_char ch :: nat) - 32) else ch) s"

text \<open>The pattern \<^verbatim>\<open>/^=\s*(UNIQUE|FILTER|SORT|SORTN|SEQUENCE|ARRAYFORMULA|SPLIT|TRANSPOSE|FLATTEN)\s*\(/i\<close>
  of \<^verbatim>\<open>setFormula\<close>.\<close>

definition autoSpillNames :: "string list" where
  "autoSpillNames =
     [''UNIQUE'', ''FILTER'', ''SORT'', ''SORTN'', ''SEQUENCE'', ''ARRAYFORMULA'', ''SPLIT'',
      ''TRANSPOSE'', ''FLATTEN'']"

definition opensCall :: "string \<Rightarrow> string \<Rightarrow> bool" where
  "opensCall nm body =
     (toUpperCase (take (length nm) body) = nm \<and>
      (case dropWhile isSpace (drop (length nm) body) of
         [] \<Rightarrow> False
       | ch # rest \<Rightarrow> ch = CHR ''(''))"

definition autoSpillFormulas :: "string \<Rightarrow> bool" where
  "autoSpillFormulas f =
     (case f of
        [] \<Rightarrow> False
      | ch # rest \<Rightarrow>
          ch = CHR ''='' \<and> list_ex (\<lambda>nm. opensCall nm (dropWhile isSpace rest)) autoSpillNames)"

text \<open>The pattern \<^verbatim>\<open>/^([A-Z]+)(\d+)$/\<close> of \<^verbatim>\<open>setFormula\<close> and \<^verbatim>\<open>autoFillDown\<close>: the two
  groups of a match.\<close>

definition cellMatch :: "string \<Rightarrow> (string \<times> string) option" where
  "cellMatch s =
     (let letters = takeWhile isUpperAZ s; digits = dropWhile isUpperAZ s
      in if letters \<noteq> [] \<and> digits \<noteq> [] \<and> list_all isDigit digits
         then Some (letters, digits) else None)"

subsection \<open>Handlers\<close>

subsubsection \<open>Handlers whose host calls are a parameter\<close>

definition applyEffect ::
  "host \<Rightarrow> string \<Rightarrow> action \<Rightarrow> sheet \<Rightarrow> workbook \<Rightarrow> string outcome \<times> workbook" where
  "applyEffect H kind a sh wb =
     (case effect H kind a (sheets wb) sh of
        (res, g) \<Rightarrow> (res, issue (Call_effect kind (sname sh)) (onGrid (sname sh) (\<lambda>g0. g) wb)))"

text \<open>\<^verbatim>\<open>_getSheet\<close>: the active sheet for an absent name, otherwise the named sheet, and an
  exception when there is none.\<close>

definition getSheet :: "workbook \<Rightarrow> string \<Rightarrow> sheet outcome" where
  "getSheet wb sheetName =
     (if sheetName = [] then
        (case getActiveSheet wb of None \<Rightarrow> Inl hostException | Some sh \<Rightarrow> Inr sh)
      else
        (case getSheetByName wb sheetName of
           None \<Rightarrow> Inl (Error (''Sheet not found: '' @ sheetName))
         | Some sh \<Rightarrow> Inr sh))"

text \<open>The handlers that work on \<^verbatim>\<open>SpreadsheetApp.getActiveSheet()\<close>.\<close>

definition onActiveSheet ::
  "host \<Rightarrow> string \<Rightarrow> action \<Rightarrow> workbook \<Rightarrow> string outcome \<times> workbook" where
  "onActiveSheet H kind a wb =
     (case getActiveSheet wb of
        None \<Rightarrow> (Inl hostException, wb)
      | Some sh \<Rightarrow> applyEffect H kind a sh wb)"

definition applyFilter :: "host \<Rightarrow> action \<Rightarrow> workbook \<Rightarrow> string outcome \<times> workbook" where
  "applyFilter H a wb = onActiveSheet H ''filter'' a wb"

definition applySort :: "host \<Rightarrow> action \<Rightarrow> workbook \<Rightarrow> string outcome \<times> workbook" where
  "applySort H a wb = onActiveSheet H ''sort'' a wb"

definition applyHighlight :: "host \<Rightarrow> action \<Rightarrow> workbook \<Rightarrow> string outcome \<times> workbook" where
  "applyHighlight H a wb = onActiveSheet H ''highlight'' a wb"

definition setCellValue :: "host \<Rightarrow> action \<Rightarrow> workbook \<Rightarrow> string outcome \<times> workbook" where
  "setCellValue H a wb = onActiveSheet H ''setValue'' a wb"

definition insertColumn :: "host \<Rightarrow> action \<Rightarrow> workbook \<Rightarrow> string outcome \<times> workbook" where
  "insertColumn H a wb = onActiveSheet H ''insertColumn'' a wb"

definition createChart :: "host \<Rightarrow> action \<Rightarrow> workbook \<Rightarrow> string outcome \<times> workbook" where
  "createChart H a wb = onActiveSheet H ''chart'' a wb"

text \<open>The handlers that start with
  \<^verbatim>\<open>sheetName ? ss.getSheetByName(sheetName) : ss.getActiveSheet()\<close> and return a message when
  there is no sheet.\<close>

definition namedOrActive ::
  "host \<Rightarrow> string \<Rightarrow> string \<Rightarrow> action \<Rightarrow> workbook \<Rightarrow> string outcome \<times> workbook" where
  "namedOrActive H kind sheetName a wb =
     (case (if sheetName \<noteq> [] then getSheetByName wb sheetName else getActiveSheet wb) of
        None \<Rightarrow> (Inr (''Sheet not found: '' @ sheetName), wb)
      | Some sh \<Rightarrow> applyEffect H kind a sh wb)"

definition createChartOnSheet ::
  "host \<Rightarrow> string \<Rightarrow> action \<Rightarrow> workbook \<Rightarrow> string outcome \<times> workbook" where
  "createChartOnSheet H sheetName a wb = namedOrActive H ''createChartOnSheet'' sheetName a wb"

definition createChartFromColumns ::
  "host \<Rightarrow> string \<Rightarrow> action \<Rightarrow> workbook \<Rightarrow> string outcome \<times> workbook" where
  "createChartFromColumns H dataSheetName a wb =
     namedOrActive H ''createChartFromColumns'' dataSheetName a wb"

definition deleteChartsOnSheet ::
  "host \<Rightarrow> string \<Rightarrow> action \<Rightarrow> workbook \<Rightarrow> string outcome \<times> workbook" where
  "deleteChartsOnSheet H sheetName a wb = namedOrActive H ''deleteCharts'' sheetName a wb"

text \<open>The handlers that start with \<^verbatim>\<open>_getSheet(sheetName)\<close>.\<close>

definition viaGetSheet ::
  "host \<Rightarrow> string \<Rightarrow> string \<Rightarrow> action \<Rightarrow> workbook \<Rightarrow> string outcome \<times> workbook" where
  "viaGetSheet H kind sheetName a wb =
     (case getSheet wb sheetName of
        Inl e \<Rightarrow> (Inl e, wb)
      | Inr sh \<Rightarrow> applyEffect H kind a sh wb)"

definition applyNumberFormat ::
  "host \<Rightarrow> string \<Rightarrow> action \<Rightarrow> workbook \<Rightarrow> string outcome \<times> workbook" where
  "applyNumberFormat H sheetName a wb = viaGetSheet H ''numberFormat'' sheetName a wb"

definition setBorders ::
  "host \<Rightarrow> string \<Rightarrow> action \<Rightarrow> workbook \<Rightarrow> string outcome \<times> workbook" where
  "setBorders H sheetName a wb = viaGetSheet H ''setBorders'' sheetName a wb"

definition freeze ::
  "host \<Rightarrow> string \<Rightarrow> action \<Rightarrow> workbook \<Rightarrow> string outcome \<times> workbook" where
  "freeze H sheetName a wb = viaGetSheet H ''freeze'' sheetName a wb"

definition autoResizeColumns ::
  "host \<Rightarrow> string \<Rightarrow> action \<Rightarrow> workbook \<Rightarrow> string outcome \<times> workbook" where
  "autoResizeColumns H sheetName a wb = viaGetSheet H ''autoResize'' sheetName a wb"

definition deleteColumns ::
  "host \<Rightarrow> string \<Rightarrow> action \<Rightarrow> workbook \<Rightarrow> string outcome \<times> workbook" where
  "deleteColumns H sheetName a wb = viaGetSheet H ''deleteColumns'' sheetName a wb"

definition mergeCells ::
  "host \<Rightarrow> string \<Rightarrow> action \<Rightarrow> workbook \<Rightarrow> string outcome \<times> workbook" where
  "mergeCells H sheetName a wb = viaGetSheet H ''mergeCells'' sheetName a wb"

definition clearRange ::
  "host \<Rightarrow> string \<Rightarrow> action \<Rightarrow> workbook \<Rightarrow> string outcome \<times> workbook" where
  "clearRange H sheetName a wb = viaGetSheet H ''clearRange'' sheetName a wb"

definition conditionalFormat ::
  "host \<Rightarrow> string \<Rightarrow> action \<Rightarrow> workbook \<Rightarrow> string outcome \<times> workbook" where
  "conditionalFormat H sheetName a wb = viaGetSheet H ''conditionalFormat'' sheetName a wb"

definition setDataValidation ::
  "host \<Rightarrow> string \<Rightarrow> action \<Rightarrow> workbook \<Rightarrow> string outcome \<times> workbook" where
  "setDataValidation H sheetName a wb = viaGetSheet H ''dataValidation'' sheetName a wb"

definition findReplace ::
  "host \<Rightarrow> string \<Rightarrow> action \<Rightarrow> workbook \<Rightarrow> string outcome \<times> workbook" where
  "findReplace H sheetName a wb = viaGetSheet H ''findReplace'' sheetName a wb"

text \<open>The handlers that look the sheet up with \<^verbatim>\<open>ss.getSheetByName\<close> and return a message when
  there is none.\<close>

definition formatRange ::
  "host \<Rightarrow> string \<Rightarrow> action \<Rightarrow> workbook \<Rightarrow> string outcome \<times> workbook" where
  "formatRange H sheetName a wb =
     (case getSheetByName wb sheetName of
        None \<Rightarrow> (Inr (''Sheet '' @ quoted sheetName @ '' not found''), wb)
      | Some sh \<Rightarrow> applyEffect H ''formatRange'' a sh wb)"

text \<open>\<^verbatim>\<open>JSON.stringify\<close> of a string.\<close>

definition hexDigit :: "nat \<Rightarrow> char" where
  "hexDigit d = (if d < 10 then char_of (48 + d) else char_of (87 + d))"

definition jsonChar :: "char \<Rightarrow> string" where
  "jsonChar ch =
     (let k = (of_char ch :: nat)
      in if k = 34 then [CHR 0x5C, CHR 0x22]
         else if k = 92 then [CHR 0x5C, CHR 0x5C]
         else if k = 8 then [CHR 0x5C, CHR ''b'']
         else if k = 12 then [CHR 0x5C, CHR ''f'']
         else if k = 10 then [CHR 0x5C, CHR ''n'']
         else if k = 13 then [CHR 0x5C, CHR ''r'']
         else if k = 9 then [CHR 0x5C, CHR ''t'']
         else if k < 32 then [CHR 0x5C, CHR ''u'', CHR ''0'', CHR ''0'', hexDigit (k div 16),
                              hexDigit (k mod 16)]
         else [ch])"

definition jsonString :: "string \<Rightarrow> string" where
  "jsonString s = [CHR 0x22] @ concat (map jsonChar s) @ [CHR 0x22]"

text \<open>\<^verbatim>\<open>readRange\<close> under \<^verbatim>\<open>JSON.stringify\<close>, as the dispatcher calls it.\<close>

definition readRange ::
  "host \<Rightarrow> string \<Rightarrow> action \<Rightarrow> workbook \<Rightarrow> string outcome \<times> workbook" where
  "readRange H sheetName a wb =
     (case getSheetByName wb sheetName of
        None \<Rightarrow>
          (Inr (''{'' @ jsonString ''error'' @ '':''
                  @ jsonString (''Sheet '' @ quoted sheetName @ '' not found'')
                  @ '','' @ jsonString ''values'' @ '':[]}''), wb)
      | Some sh \<Rightarrow> (fst (effect H ''readRange'' a (sheets wb) sh), wb))"

definition copyRange ::
  "host \<Rightarrow> string \<Rightarrow> string \<Rightarrow> action \<Rightarrow> workbook \<Rightarrow> string outcome \<times> workbook" where
  "copyRange H sourceSheetName destSheetName a wb =
     (case getSheetByName wb sourceSheetName of
        None \<Rightarrow> (Inr (''Source sheet not found: '' @ sourceSheetName), wb)
      | Some srcSheet \<Rightarrow>
          (case getSheetByName wb destSheetName of
             None \<Rightarrow> (Inr (''Destination sheet not found: '' @ destSheetName), wb)
           | Some destSh \<Rightarrow> applyEffect H ''copyRange'' a destSh wb))"

subsubsection \<open>Handlers that are written out\<close>

definition createSheet :: "string \<Rightarrow> workbook \<Rightarrow> string outcome \<times> workbook" where
  "createSheet nm wb =
     (case getSheetByName wb nm of
        Some existing \<Rightarrow> (Inr (''Cleared existing sheet '' @ quoted nm), clearSheet nm wb)
      | None \<Rightarrow> (Inr (''Created sheet '' @ quoted nm), insertSheet nm wb))"

definition rangeSetFormula :: "host \<Rightarrow> string \<Rightarrow> rect \<Rightarrow> string \<Rightarrow> workbook \<Rightarrow> workbook" where
  "rangeSetFormula H n rc f wb = issue (Call_setFormula n rc f) (onGrid n (writeRect H rc f) wb)"

text \<open>\<^verbatim>\<open>sourceRange.copyTo(destRange)\<close> from a single cell; in both callers the destination
  starts at the source cell.\<close>

definition copyTo :: "host \<Rightarrow> string \<Rightarrow> rect \<Rightarrow> rect \<Rightarrow> workbook \<Rightarrow> workbook" where
  "copyTo H n src dst wb =
     issue (Call_copyTo n src dst)
       (onGrid n (\<lambda>g. writeRect H dst (cellAt g (rrow src) (rcol src)) g) wb)"

definition sheetLastRow :: "workbook \<Rightarrow> string \<Rightarrow> nat" where
  "sheetLastRow wb n = (case getSheetByName wb n of None \<Rightarrow> 0 | Some sh \<Rightarrow> getLastRow (grid sh))"

definition setFormula ::
  "host \<Rightarrow> string \<Rightarrow> string \<Rightarrow> string \<Rightarrow> bool \<Rightarrow> workbook \<Rightarrow> string outcome \<times> workbook" where
  "setFormula H sheetName cellRef f fill wb =
     (case getSheetByName wb sheetName of
        None \<Rightarrow> (Inr (''Sheet '' @ quoted sheetName @ '' not found''), wb)
      | Some sh \<Rightarrow>
          (case getRangeA1 H sh cellRef of
             Inl e \<Rightarrow> (Inl e, wb)
           | Inr rng \<Rightarrow>
               (let wb1 = rangeSetFormula H sheetName rng f wb;
                    isAutoSpill = autoSpillFormulas f
                in if fill \<and> \<not> isAutoSpill then
                     (let wb2 = flush wb1
                      in case cellMatch cellRef of
                           Some (colLetters, digits) \<Rightarrow>
                             (let startRow = int (parseInt digits);
                                  colIndex = letterToColumn colLetters;
                                  refCol = (if colIndex > 1 then colIndex - 1 else colIndex + 1);
                                  lastDataRow = int (sheetLastRow wb2 sheetName)
                              in if lastDataRow > startRow then
                                   (let numRows = lastDataRow - startRow
                                    in case getRange4 startRow colIndex 1 1 of
                                         Inl e \<Rightarrow> (Inl e, wb2)
                                       | Inr sourceRange \<Rightarrow>
                                           (case getRange4 startRow colIndex (numRows + 1) 1 of
                                              Inl e \<Rightarrow> (Inl e, wb2)
                                            | Inr destRange \<Rightarrow>
                                                (Inr (''Set formula in '' @ sheetName @ ''!'' @ cellRef
                                                        @ '' (filled down)''),
                                                 copyTo H sheetName sourceRange destRange wb2)))
                                 else (Inr (''Set formula in '' @ sheetName @ ''!'' @ cellRef
                                              @ '' (filled down)''), wb2))
                         | None \<Rightarrow>
                             (Inr (''Set formula in '' @ sheetName @ ''!'' @ cellRef
                                     @ '' (filled down)''), wb2))
                   else if fill \<and> isAutoSpill then
                     (Inr (''Set formula in '' @ sheetName @ ''!'' @ cellRef
                             @ '' (auto-spill, fillDown skipped)''), wb1)
                   else (Inr (''Set formula in '' @ sheetName @ ''!'' @ cellRef), wb1))))"

text \<open>\<^verbatim>\<open>range.setValues(values)\<close> raises unless the array has the shape of the range.\<close>

definition writeValues :: "rect \<Rightarrow> grid \<Rightarrow> grid \<Rightarrow> grid" where
  "writeValues rc vs g =
     fold (\<lambda>(i, row). fold (\<lambda>(j, v). setCell (rrow rc + i) (rcol rc + j) v) (enumerate 0 row))
          (enumerate 0 vs) g"

definition rangeSetValues :: "string \<Rightarrow> rect \<Rightarrow> grid \<Rightarrow> workbook \<Rightarrow> workbook outcome" where
  "rangeSetValues n rc vs wb =
     (if length vs = nrows rc \<and> list_all (\<lambda>row. length row = ncols rc) vs
      then Inr (issue (Call_setValues n rc vs) (onGrid n (writeValues rc vs) wb))
      else Inl hostException)"

definition setValues ::
  "host \<Rightarrow> string \<Rightarrow> string \<Rightarrow> grid \<Rightarrow> workbook \<Rightarrow> string outcome \<times> workbook" where
  "setValues H sheetName rangeRef vs wb =
     (case getSheetByName wb sheetName of
        None \<Rightarrow> (Inr (''Sheet '' @ quoted sheetName @ '' not found''), wb)
      | Some sh \<Rightarrow>
          (case getRangeA1 H sh rangeRef of
             Inl e \<Rightarrow> (Inl e, wb)
           | Inr rng \<Rightarrow>
               (case rangeSetValues sheetName rng vs wb of
                  Inl e \<Rightarrow> (Inl e, wb)
                | Inr wb' \<Rightarrow> (Inr (''Set values in '' @ sheetName @ ''!'' @ rangeRef), wb'))))"

definition autoFillDown ::
  "host \<Rightarrow> string \<Rightarrow> string \<Rightarrow> int \<Rightarrow> workbook \<Rightarrow> string outcome \<times> workbook" where
  "autoFillDown H sheetName srcCell lastR wb =
     (case getSheetByName wb sheetName of
        None \<Rightarrow> (Inr (''Sheet '' @ quoted sheetName @ '' not found''), wb)
      | Some sh \<Rightarrow>
          (case cellMatch srcCell of
             None \<Rightarrow> (Inr (''Invalid cell reference: '' @ srcCell), wb)
           | Some (colLetters, digits) \<Rightarrow>
               (let startRow = int (parseInt digits);
                    colIndex = letterToColumn colLetters
                in if lastR \<le> startRow then (Inr ''lastRow must be greater than source row'', wb)
                   else
                     (case getRange4 startRow colIndex 1 1 of
                        Inl e \<Rightarrow> (Inl e, wb)
                      | Inr sourceRange \<Rightarrow>
                          (case getRange4 startRow colIndex (lastR - startRow + 1) 1 of
                             Inl e \<Rightarrow> (Inl e, wb)
                           | Inr destRange \<Rightarrow>
                               (Inr (''Filled formula from '' @ srcCell @ '' down to row ''
                                       @ showInt lastR),
                                copyTo H sheetName sourceRange destRange wb))))))"

text \<open>\<^verbatim>\<open>_deleteRows\<close>. The scan of a condition runs \<^verbatim>\<open>r\<close> from the last index of the column
  values down to 1; the batching loop and its inner loop run on indices into the sorted array.\<close>

definition shouldDelete :: "condition \<Rightarrow> string \<Rightarrow> bool" where
  "shouldDelete cnd cellVal =
     (if condEmpty cnd then cellVal = []
      else (case condValue cnd of Some v \<Rightarrow> cellVal = v | None \<Rightarrow> False))"

fun scanRows :: "condition \<Rightarrow> grid \<Rightarrow> nat \<Rightarrow> int list" where
  "scanRows cnd vals 0 = []"
| "scanRows cnd vals (Suc r) =
     (if shouldDelete cnd (vals ! Suc r ! 0) then [int (Suc r) + 1] else [])
       @ scanRows cnd vals r"

definition conditionRows :: "condition \<Rightarrow> sheet \<Rightarrow> int list outcome" where
  "conditionRows cnd sh =
     (let colIndex = letterToColumn (toUpperCase (condColumn cnd));
          lastR = getLastRow (grid sh)
      in case getRange4 1 colIndex (int lastR) 1 of
           Inl e \<Rightarrow> Inl e
         | Inr dataRange \<Rightarrow>
             (let vals = getValues (grid sh) dataRange
              in Inr (scanRows cnd vals (length vals - 1))))"

function runLength :: "int list \<Rightarrow> nat \<Rightarrow> int \<Rightarrow> nat \<Rightarrow> nat" where
  "runLength rs i start count =
     (if i + count < length rs \<and> rs ! (i + count) = start - int count
      then runLength rs i start (Suc count) else count)"
  by pat_completeness auto
termination
  by (relation "measure (\<lambda>(rs, i, start, count). length rs - (i + count))") auto

declare runLength.simps [simp del]

lemma runLength_ge: "count \<le> runLength rs i start count"
proof (induction rs i start count rule: runLength.induct)
  case (1 rs i start count)
  show ?case
  proof (cases "i + count < length rs \<and> rs ! (i + count) = start - int count")
    case True
    then have "runLength rs i start count = runLength rs i start (Suc count)"
      by (subst runLength.simps) simp
    with 1 True show ?thesis by simp
  next
    case False
    then show ?thesis by (subst runLength.simps) auto
  qed
qed

function deleteLoop ::
  "string \<Rightarrow> int list \<Rightarrow> nat \<Rightarrow> int \<Rightarrow> workbook \<Rightarrow> int outcome \<times> workbook" where
  "deleteLoop n rs i deleted wb =
     (if i < length rs then
        (case deleteRowsHost n (rs ! i - int (runLength rs i (rs ! i) 1) + 1)
                (int (runLength rs i (rs ! i) 1)) wb of
           Inl e \<Rightarrow> (Inl e, wb)
         | Inr wb' \<Rightarrow>
             deleteLoop n rs (i + runLength rs i (rs ! i) 1)
               (deleted + int (runLength rs i (rs ! i) 1)) wb')
      else (Inr deleted, wb))"
  by pat_completeness auto
termination
proof (relation "measure (\<lambda>(n, rs, i, deleted, wb). length rs - i)")
  show "wf (measure (\<lambda>(n, rs, i, deleted, wb). length rs - i))" by simp
next
  fix n :: string and rs :: "int list" and i :: nat and deleted :: int
    and wb x2 :: workbook
  assume "i < length rs"
  moreover have "1 \<le> runLength rs i (rs ! i) 1" by (rule runLength_ge)
  ultimately show "((n, rs, i + runLength rs i (rs ! i) 1,
                     deleted + int (runLength rs i (rs ! i) 1), x2), (n, rs, i, deleted, wb))
                   \<in> measure (\<lambda>(n, rs, i, deleted, wb). length rs - i)"
    by simp
qed

declare deleteLoop.simps [simp del]

text \<open>The rows to delete: the rows scanned for the condition when there is one, the rows
  given otherwise.\<close>

definition requestedRows ::
  "condition option \<Rightarrow> int list option \<Rightarrow> sheet \<Rightarrow> int list option outcome" where
  "requestedRows cnd rws sh =
     (case cnd of
        None \<Rightarrow> Inr rws
      | Some c \<Rightarrow> (case conditionRows c sh of Inl e \<Rightarrow> Inl e | Inr rs \<Rightarrow> Inr (Some rs)))"

definition deleteRows ::
  "string \<Rightarrow> int list option \<Rightarrow> condition option \<Rightarrow> workbook \<Rightarrow> string outcome \<times> workbook" where
  "deleteRows sheetName rws cnd wb =
     (case getSheet wb sheetName of
        Inl e \<Rightarrow> (Inl e, wb)
      | Inr sh \<Rightarrow>
          (case requestedRows cnd rws sh of
             Inl e \<Rightarrow> (Inl e, wb)
           | Inr None \<Rightarrow> (Inr ''No rows to delete'', wb)
           | Inr (Some rs) \<Rightarrow>
               if rs = [] then (Inr ''No rows to delete'', wb)
               else
                 (case deleteLoop (sname sh) (rev (sort rs)) 0 0 wb of
                    (Inl e, wb') \<Rightarrow> (Inl e, wb')
                  | (Inr deleted, wb') \<Rightarrow>
                      (Inr (''Deleted '' @ showInt deleted @ '' row(s) from '' @ sname sh), wb'))))"

definition renameSheet :: "string \<Rightarrow> string \<Rightarrow> workbook \<Rightarrow> string outcome \<times> workbook" where
  "renameSheet old new wb =
     (case getSheetByName wb old of
        None \<Rightarrow> (Inr (''Sheet not found: '' @ old), wb)
      | Some sh \<Rightarrow>
          (case setName old new wb of
             Inl e \<Rightarrow> (Inl e, wb)
           | Inr wb' \<Rightarrow>
               (Inr (''Renamed sheet '' @ quoted old @ '' to '' @ quoted new), wb')))"

definition copySheet :: "host \<Rightarrow> string \<Rightarrow> string \<Rightarrow> workbook \<Rightarrow> string outcome \<times> workbook" where
  "copySheet H sourceName new wb =
     (case getSheetByName wb sourceName of
        None \<Rightarrow> (Inr (''Sheet not found: '' @ sourceName), wb)
      | Some sh \<Rightarrow>
          (case copySheetHost H sh wb of
             (copyNm, wb1) \<Rightarrow>
               (case setName copyNm new wb1 of
                  Inl e \<Rightarrow> (Inl e, wb1)
                | Inr wb2 \<Rightarrow>
                    (Inr (''Copied sheet '' @ quoted sourceName @ '' as '' @ quoted new), wb2))))"

definition deleteSheet :: "string \<Rightarrow> workbook \<Rightarrow> string outcome \<times> workbook" where
  "deleteSheet nm wb =
     (case getSheetByName wb nm of
        None \<Rightarrow> (Inr (''Sheet not found: '' @ nm), wb)
      | Some sh \<Rightarrow>
          if length (sheets wb) \<le> 1 then (Inr ''Cannot delete the last sheet'', wb)
          else (Inr (''Deleted sheet '' @ quoted nm), deleteSheetHost nm wb))"

subsection \<open>Dispatcher, plan executor and undo\<close>

text \<open>\<^verbatim>\<open>executeSheetAction\<close>: the guard on an absent tag, then the \<^verbatim>\<open>switch\<close> in the order of
  its cases, then its \<^verbatim>\<open>default\<close>.\<close>

definition executeSheetAction ::
  "host \<Rightarrow> action \<Rightarrow> workbook \<Rightarrow> string outcome \<times> workbook" where
  "executeSheetAction H a wb =
     (if action a = [] then (Inr ''No action provided'', wb)
      else if action a = ''filter'' then applyFilter H a wb
      else if action a = ''sort'' then applySort H a wb
      else if action a = ''highlight'' then applyHighlight H a wb
      else if action a = ''setValue'' then setCellValue H a wb
      else if action a = ''insertColumn'' then insertColumn H a wb
      else if action a = ''chart'' then createChart H a wb
      else if action a = ''createChart'' then
        (let chartSheet = (if dataSheet a \<noteq> [] then dataSheet a else sheet a)
         in if rangeStr a \<noteq> [] \<and> labelColumn a = []
            then createChartOnSheet H chartSheet a wb
            else createChartFromColumns H chartSheet a wb)
      else if action a = ''createSheet'' then createSheet (name a) wb
      else if action a = ''setFormula'' then
        setFormula H (sheet a) (cell a) (formula a) (fillDown a) wb
      else if action a = ''setValues'' then setValues H (sheet a) (rangeStr a) (valuesArr a) wb
      else if action a = ''autoFillDown'' then
        autoFillDown H (sheet a) (sourceCell a) (lastRow a) wb
      else if action a = ''formatRange'' then formatRange H (sheet a) a wb
      else if action a = ''readRange'' then readRange H (sheet a) a wb
      else if action a = ''deleteCharts'' then deleteChartsOnSheet H (sheet a) a wb
      else if action a = ''numberFormat'' then applyNumberFormat H (sheet a) a wb
      else if action a = ''setBorders'' then setBorders H (sheet a) a wb
      else if action a = ''freeze'' then freeze H (sheet a) a wb
      else if action a = ''autoResize'' then autoResizeColumns H (sheet a) a wb
      else if action a = ''deleteRows'' then deleteRows (sheet a) (rows a) (condition a) wb
      else if action a = ''deleteColumns'' then deleteColumns H (sheet a) a wb
      else if action a = ''mergeCells'' then mergeCells H (sheet a) a wb
      else if action a = ''clearRange'' then clearRange H (sheet a) a wb
      else if action a = ''copyRange'' then copyRange H (sourceSheet a) (destSheet a) a wb
      else if action a = ''conditionalFormat'' then conditionalFormat H (sheet a) a wb
      else if action a = ''dataValidation'' then setDataValidation H (sheet a) a wb
      else if action a = ''renameSheet'' then renameSheet (oldName a) (newName a) wb
      else if action a = ''copySheet'' then copySheet H (source a) (newName a) wb
      else if action a = ''deleteSheet'' then deleteSheet (name a) wb
      else if action a = ''findReplace'' then findReplace H (sheet a) a wb
      else (Inr (''Unknown action: '' @ action a), wb))"

text \<open>The tags the \<^verbatim>\<open>switch\<close> has a \<^verbatim>\<open>case\<close> for.\<close>

definition recognizedActions :: "string list" where
  "recognizedActions =
     [''filter'', ''sort'', ''highlight'', ''setValue'', ''insertColumn'', ''chart'',
      ''createChart'', ''createSheet'', ''setFormula'', ''setValues'', ''autoFillDown'',
      ''formatRange'', ''readRange'', ''deleteCharts'', ''numberFormat'', ''setBorders'',
      ''freeze'', ''autoResize'', ''deleteRows'', ''deleteColumns'', ''mergeCells'',
      ''clearRange'', ''copyRange'', ''conditionalFormat'', ''dataValidation'', ''renameSheet'',
      ''copySheet'', ''deleteSheet'', ''findReplace'']"

text \<open>A step of a plan: its number, if it carries one, and its action object, if it carries
  one. A step without an action object is itself handed to the dispatcher, where it has no
  tag.\<close>

record planStep =
  step :: "int option"
  stepAction :: "action option"

record stepResult =
  resultStep :: int
  status :: string
  result :: string

definition untagged :: action where
  "untagged =
     \<lparr>action = [], sheet = [], name = [], cell = [], formula = [], fillDown = False,
      rangeStr = [], valuesArr = [], sourceCell = [], lastRow = 0, rows = None,
      condition = None, dataSheet = [], labelColumn = [], sourceSheet = [], destSheet = [],
      oldName = [], newName = [], source = [], payload = []\<rparr>"

definition stepNumber :: "planStep \<Rightarrow> nat \<Rightarrow> int" where
  "stepNumber st i = (case step st of Some k \<Rightarrow> if k \<noteq> 0 then k else int i + 1 | None \<Rightarrow> int i + 1)"

definition dispatchStep :: "host \<Rightarrow> planStep \<Rightarrow> workbook \<Rightarrow> string outcome \<times> workbook" where
  "dispatchStep H st wb =
     (case stepAction st of
        Some a \<Rightarrow> executeSheetAction H a wb
      | None \<Rightarrow> executeSheetAction H untagged wb)"

text \<open>The \<^verbatim>\<open>for\<close> loop of \<^verbatim>\<open>executeStepPlan\<close> from index \<open>i\<close> on, over the steps that remain.\<close>

fun stepLoop :: "host \<Rightarrow> nat \<Rightarrow> planStep list \<Rightarrow> workbook \<Rightarrow> stepResult list \<times> workbook" where
  "stepLoop H i [] wb = ([], wb)"
| "stepLoop H i (st # rest) wb =
     (case dispatchStep H st wb of
        (Inr res, wb') \<Rightarrow>
          (case stepLoop H (i + 1) rest (flush wb') of
             (results, wb'') \<Rightarrow>
               (\<lparr>resultStep = stepNumber st i, status = ''done'', result = res\<rparr> # results, wb''))
      | (Inl e, wb') \<Rightarrow>
          ([\<lparr>resultStep = stepNumber st i, status = ''error'',
             result = ''Error: '' @ message e\<rparr>], wb'))"

definition executeStepPlan :: "host \<Rightarrow> planStep list \<Rightarrow> workbook \<Rightarrow> stepResult list \<times> workbook" where
  "executeStepPlan H steps wb = stepLoop H 0 steps wb"

text \<open>\<^verbatim>\<open>undoSheetActions\<close>: the two loops, each adding to \<^verbatim>\<open>results\<close>, then the joined
  message. An entry of \<^verbatim>\<open>cellsToClear\<close> is the pair of its sheet and its range.\<close>

record undoInfo =
  sheetsToDelete :: "string list"
  cellsToClear :: "(string \<times> string) list"

fun deleteSheetsLoop :: "string list \<Rightarrow> string list \<Rightarrow> workbook \<Rightarrow> string list \<times> workbook" where
  "deleteSheetsLoop [] results wb = (results, wb)"
| "deleteSheetsLoop (n # ns) results wb =
     (case getSheetByName wb n of
        Some sh \<Rightarrow>
          if length (sheets wb) > 1
          then deleteSheetsLoop ns (results @ [''Deleted sheet '' @ quoted n])
                 (deleteSheetHost n wb)
          else deleteSheetsLoop ns (results @ [''Cannot delete '' @ quoted n @ '' (last sheet)''])
                 wb
      | None \<Rightarrow> deleteSheetsLoop ns results wb)"

definition rangeClear :: "string \<Rightarrow> rect \<Rightarrow> workbook \<Rightarrow> workbook" where
  "rangeClear n rc wb = issue (Call_clearRange n rc) (onGrid n (clearRect rc) wb)"

fun clearCellsLoop ::
  "host \<Rightarrow> (string \<times> string) list \<Rightarrow> string list \<Rightarrow> workbook \<Rightarrow> string list outcome \<times> workbook" where
  "clearCellsLoop H [] results wb = (Inr results, wb)"
| "clearCellsLoop H ((sheetName, rangeRef) # es) results wb =
     (case getSheetByName wb sheetName of
        Some targetSheet \<Rightarrow>
          (case getRangeA1 H targetSheet rangeRef of
             Inl e \<Rightarrow> (Inl e, wb)
           | Inr rng \<Rightarrow>
               clearCellsLoop H es (results @ [''Cleared '' @ sheetName @ ''!'' @ rangeRef])
                 (rangeClear sheetName rng wb))
      | None \<Rightarrow> clearCellsLoop H es results wb)"

fun join :: "string \<Rightarrow> string list \<Rightarrow> string" where
  "join sep [] = []"
| "join sep [x] = x"
| "join sep (x # y # ys) = x @ sep @ join sep (y # ys)"

definition undoSheetActions ::
  "host \<Rightarrow> undoInfo option \<Rightarrow> workbook \<Rightarrow> string outcome \<times> workbook" where
  "undoSheetActions H info wb =
     (case info of
        None \<Rightarrow> (Inr ''Nothing to undo'', wb)
      | Some u \<Rightarrow>
          (case deleteSheetsLoop (sheetsToDelete u) [] wb of
             (results1, wb1) \<Rightarrow>
               (case clearCellsLoop H (cellsToClear u) results1 wb1 of
                  (Inl e, wb2) \<Rightarrow> (Inl e, wb2)
                | (Inr results2, wb2) \<Rightarrow>
                    if results2 = [] then (Inr ''Nothing to undo'', wb2)
                    else (Inr (join ''; '' results2), wb2))))"

subsection \<open>Payload guard\<close>

definition MAX_ROWS :: nat where
  "MAX_ROWS = 2000"

definition MAX_CELLS :: nat where
  "MAX_CELLS = 50000"

record sheetData =
  sheetName :: string
  dataRange :: string
  cells :: "(string \<times> string) list"
  totalRows :: nat
  totalColumns :: nat
  truncated :: bool
  truncatedReason :: "string option"
  cellCount :: "nat option"
  selectedRange :: "string option"
  selectedValues :: grid

text \<open>The loop that fills \<^verbatim>\<open>colLetters\<close>, with the cache passed along.\<close>

fun colLettersLoop :: "nat \<Rightarrow> nat list \<Rightarrow> string list \<Rightarrow> colCache \<Rightarrow> string list \<times> colCache" where
  "colLettersLoop startCol [] acc cache = (acc, cache)"
| "colLettersLoop startCol (c # cs) acc cache =
     (case colLetter (int (startCol + c)) cache of
        (l, cache') \<Rightarrow> colLettersLoop startCol cs (acc @ [l]) cache')"

text \<open>The two nested loops that fill the object \<^verbatim>\<open>cells\<close>; an index beyond \<^verbatim>\<open>colLetters\<close>
  reads \<^verbatim>\<open>undefined\<close>.\<close>

definition letterAt :: "string list \<Rightarrow> nat \<Rightarrow> string" where
  "letterAt ls c = (if c < length ls then ls ! c else ''undefined'')"

definition cellsOfRow ::
  "string list \<Rightarrow> nat \<Rightarrow> string list \<Rightarrow> (string \<times> string) list \<Rightarrow> (string \<times> string) list" where
  "cellsOfRow ls rowNum row acc =
     fold (\<lambda>c acc. if row ! c = [] then acc
                    else AList.update (letterAt ls c @ showNat rowNum) (row ! c) acc)
          [0 ..< length row] acc"

definition cellsOfValues ::
  "string list \<Rightarrow> nat \<Rightarrow> grid \<Rightarrow> (string \<times> string) list" where
  "cellsOfValues ls startRow vals =
     fold (\<lambda>r acc. cellsOfRow ls (startRow + r) (vals ! r) acc) [0 ..< length vals] []"

definition readSheetData ::
  "host \<Rightarrow> sheet \<Rightarrow> workbook \<Rightarrow> colCache \<Rightarrow> sheetData \<times> colCache" where
  "readSheetData H sh wb cache =
     (let rangeOfData = getDataRange (grid sh);
          numRows = nrows rangeOfData;
          numCols = ncols rangeOfData;
          startRow = rrow rangeOfData;
          startCol = rcol rangeOfData;
          rowsToRead = min numRows MAX_ROWS;
          vals = getValues (grid sh) (Rect startRow startCol rowsToRead numCols)
      in case colLettersLoop startCol [0 ..< numCols] [] cache of
           (ls, cache') \<Rightarrow>
             (let cs = cellsOfValues ls startRow vals;
                  selRange = map_option (getA1Notation H) (activeRange wb);
                  selValues =
                    (case activeRange wb of
                       None \<Rightarrow> []
                     | Some rc \<Rightarrow>
                         (case getActiveSheet wb of
                            None \<Rightarrow> []
                          | Some ash \<Rightarrow> getValues (grid ash) rc));
                  cnt = length cs
              in if cnt > MAX_CELLS then
                   (\<lparr>sheetName = sname sh,
                     dataRange = getA1Notation H rangeOfData,
                     cells = [],
                     totalRows = numRows,
                     totalColumns = numCols,
                     truncated = True,
                     truncatedReason =
                       Some (''Sheet has '' @ showNat cnt @ '' cells (max '' @ showNat MAX_CELLS
                               @ ''). Please select a smaller range.''),
                     cellCount = Some cnt,
                     selectedRange = selRange,
                     selectedValues = selValues\<rparr>, cache')
                 else
                   (\<lparr>sheetName = sname sh,
                     dataRange = getA1Notation H rangeOfData,
                     cells = cs,
                     totalRows = numRows,
                     totalColumns = numCols,
                     truncated = (numRows > MAX_ROWS),
                     truncatedReason = None,
                     cellCount = None,
                     selectedRange = selRange,
                     selectedValues = selValues\<rparr>, cache')))"

definition getSheetData :: "host \<Rightarrow> workbook \<Rightarrow> colCache \<Rightarrow> (sheetData \<times> colCache) option" where
  "getSheetData H wb cache =
     (case getActiveSheet wb of
        None \<Rightarrow> None
      | Some sh \<Rightarrow> Some (readSheetData H sh wb cache))"

text \<open>The invariant of the cache: every entry is what the loop computes.\<close>

definition cacheOk :: "colCache \<Rightarrow> bool" where
  "cacheOk cache = (\<forall>k s. cache k = Some s \<longrightarrow> s = colLetterLoop k [])"

subsection \<open>Notions the properties are stated with\<close>

text \<open>The workbook after the given steps have been dispatched and flushed, one after the other,
  and whether the dispatch of step \<open>j\<close> (counted from 0) returns, at the workbook the steps
  before it leave.\<close>

fun afterSteps :: "host \<Rightarrow> planStep list \<Rightarrow> workbook \<Rightarrow> workbook" where
  "afterSteps H [] wb = wb"
| "afterSteps H (st # rest) wb = afterSteps H rest (flush (snd (dispatchStep H st wb)))"

definition succeedsAt :: "host \<Rightarrow> planStep list \<Rightarrow> workbook \<Rightarrow> nat \<Rightarrow> bool" where
  "succeedsAt H steps wb j =
     (\<not> isl (fst (dispatchStep H (steps ! j) (afterSteps H (take j steps) wb))))"

subsection \<open>A host, a workbook and a plan to compute with\<close>

text \<open>A host that resolves single-cell references, copies cell contents unchanged and whose
  remaining calls change nothing.\<close>

definition plainHost :: host where
  "plainHost =
     \<lparr>getRangeA1 = (\<lambda>sh s. case cellMatch s of
                               Some (ls, ds) \<Rightarrow> getRange4 (int (parseInt ds)) (letterToColumn ls) 1 1
                             | None \<Rightarrow> Inl hostException),
      getA1Notation = (\<lambda>rc. colLetterLoop (int (rcol rc)) [] @ showNat (rrow rc)),
      adjust = (\<lambda>di dj f. f),
      copyName = (\<lambda>ns n. ''Copy of '' @ n),
      effect = (\<lambda>kind a shs sh. (Inr kind, grid sh))\<rparr>"

definition dataBook :: workbook where
  "dataBook =
     \<lparr>sheets = [\<lparr>sname = ''Data'',
                 grid = [[''Region'', ''Sales''], [''North'', ''10''], [''South'', ''20'']]\<rparr>],
      active = ''Data'', activeRange = None, calls = []\<rparr>"

definition fiveSteps :: "planStep list" where
  "fiveSteps =
     [\<lparr>step = Some 1,
       stepAction = Some (untagged\<lparr>action := ''createSheet'', name := ''Summary''\<rparr>)\<rparr>,
      \<lparr>step = Some 2,
       stepAction = Some (untagged\<lparr>action := ''setValues'', sheet := ''Summary'',
                                  rangeStr := ''A1'', valuesArr := [[''Region'']]\<rparr>)\<rparr>,
      \<lparr>step = Some 3,
       stepAction = Some (untagged\<lparr>action := ''deleteRows'', sheet := ''Missing'',
                                  rows := Some [2]\<rparr>)\<rparr>,
      \<lparr>step = Some 4,
       stepAction = Some (untagged\<lparr>action := ''createSheet'', name := ''Other''\<rparr>)\<rparr>,
      \<lparr>step = Some 5,
       stepAction = Some (untagged\<lparr>action := ''deleteSheet'', name := ''Data''\<rparr>)\<rparr>]"

text \<open>The handlers that check the sheet lookup themselves, the handlers that look the sheet up
  through \<^verbatim>\<open>_getSheet\<close>, and what it is for the sheet an action aims at not to exist.\<close>

definition selfCheckingActions :: "string list" where
  "selfCheckingActions =
     [''setFormula'', ''setValues'', ''autoFillDown'', ''formatRange'', ''readRange'',
      ''deleteCharts'', ''createChart'', ''copyRange'', ''renameSheet'', ''copySheet'',
      ''deleteSheet'']"

definition getSheetActions :: "string list" where
  "getSheetActions =
     [''numberFormat'', ''setBorders'', ''freeze'', ''autoResize'', ''deleteRows'',
      ''deleteColumns'', ''mergeCells'', ''clearRange'', ''conditionalFormat'',
      ''dataValidation'', ''findReplace'']"

definition absent :: "workbook \<Rightarrow> string \<Rightarrow> bool" where
  "absent wb n = (n \<noteq> [] \<and> getSheetByName wb n = None)"

definition targetMissing :: "action \<Rightarrow> workbook \<Rightarrow> bool" where
  "targetMissing a wb =
     (if action a = ''createChart'' then
        absent wb (if dataSheet a \<noteq> [] then dataSheet a else sheet a)
      else if action a = ''copyRange'' then
        absent wb (sourceSheet a) \<or> absent wb (destSheet a)
      else if action a = ''renameSheet'' then absent wb (oldName a)
      else if action a = ''copySheet'' then absent wb (source a)
      else if action a = ''deleteSheet'' then absent wb (name a)
      else absent wb (sheet a))"

definition mentionsNotFound :: "string \<Rightarrow> bool" where
  "mentionsNotFound msg = (\<exists>pre post. msg = pre @ ''not found'' @ post)"

text \<open>Steps that aim at a sheet the workbook does not have, and a step to follow them.\<close>

definition missingFormulaStep :: planStep where
  "missingFormulaStep =
     \<lparr>step = None,
      stepAction = Some (untagged\<lparr>action := ''setFormula'', sheet := ''Missing'', cell := ''B2'',
                                 formula := ''=A2''\<rparr>)\<rparr>"

definition missingRowsStep :: planStep where
  "missingRowsStep =
     \<lparr>step = None,
      stepAction = Some (untagged\<lparr>action := ''deleteRows'', sheet := ''Missing'',
                                 rows := Some [2]\<rparr>)\<rparr>"

definition otherSheetStep :: planStep where
  "otherSheetStep =
     \<lparr>step = None, stepAction = Some (untagged\<lparr>action := ''createSheet'', name := ''Other''\<rparr>)\<rparr>"

text \<open>A workbook whose only sheet is named Summary, and an undo ledger that names it.\<close>

definition summaryBook :: workbook where
  "summaryBook =
     \<lparr>sheets = [\<lparr>sname = ''Summary'', grid = [[''Region'', ''Total''], [''North'', ''=SUM(B3:B9)'']]\<rparr>],
      active = ''Summary'', activeRange = None, calls = []\<rparr>"

definition summaryUndo :: undoInfo where
  "summaryUndo =
     \<lparr>sheetsToDelete = [''Gone'', ''Summary''],
      cellsToClear = [(''Summary'', ''A1''), (''Gone'', ''B2''), (''Summary'', ''B2'')]\<rparr>"

definition summaryRanges :: "string \<Rightarrow> rect" where
  "summaryRanges r = (if r = ''A1'' then Rect 1 1 1 1 else Rect 2 2 1 1)"

text \<open>Reading a list at a position counted from 1, with a default; membership of a cell in a
  rectangle.\<close>

definition peek :: "'a list \<Rightarrow> nat \<Rightarrow> 'a \<Rightarrow> 'a" where
  "peek xs k d = (if 1 \<le> k \<and> k \<le> length xs then xs ! (k - 1) else d)"

definition inRect :: "rect \<Rightarrow> nat \<Rightarrow> nat \<Rightarrow> bool" where
  "inRect rc r c =
     (rrow rc \<le> r \<and> r < rrow rc + nrows rc \<and> rcol rc \<le> c \<and> c < rcol rc + ncols rc)"

text \<open>The words of the specification for the extent of a fill-down: the column next to the
  formula cell, and the last populated row of a column.\<close>

definition adjacentColumn :: "int \<Rightarrow> int" where
  "adjacentColumn colIndex = (if colIndex > 1 then colIndex - 1 else colIndex + 1)"

definition lastPopulatedRow :: "grid \<Rightarrow> nat \<Rightarrow> nat" where
  "lastPopulatedRow g c = getLastRow (getValues g (Rect 1 c (length g) 1))"

text \<open>A sheet whose column A has a header and data in rows 2 to 11, and the same sheet with a
  remark in cell D20.\<close>

definition salesRows :: grid where
  "salesRows =
     [[''Region'', ''Total''], [''North''], [''South''], [''East''], [''West''], [''North''],
      [''South''], [''East''], [''West''], [''North''], [''South'']]"

definition salesBook :: workbook where
  "salesBook =
     \<lparr>sheets = [\<lparr>sname = ''Data'', grid = salesRows\<rparr>],
      active = ''Data'', activeRange = None, calls = []\<rparr>"

definition remarkRows :: grid where
  "remarkRows = salesRows @ [[], [], [], [], [], [], [], [], [[], [], [], ''checked'']]"

definition remarkBook :: workbook where
  "remarkBook =
     \<lparr>sheets = [\<lparr>sname = ''Data'', grid = remarkRows\<rparr>],
      active = ''Data'', activeRange = None, calls = []\<rparr>"

definition sumifFormula :: string where
  "sumifFormula = ''=SUMIF(Sheet1!A:A,A2,Sheet1!B:B)''"

definition uniqueFormula :: string where
  "uniqueFormula = ''=UNIQUE(A2:A100)''"

text \<open>Batches of a deletion, each the position and the number of rows of one host call. The
  rows of a batch, highest first; and batches that go down the sheet with at least one row
  kept between one batch and the next.\<close>

definition rowsOf :: "int \<times> int \<Rightarrow> int list" where
  "rowsOf b = rev [fst b .. fst b + snd b - 1]"

fun separated :: "(int \<times> int) list \<Rightarrow> bool" where
  "separated [] = True"
| "separated [(p, c)] = (1 \<le> c)"
| "separated ((p, c) # (p', c') # bs) = (1 \<le> c \<and> p' + c' < p \<and> separated ((p', c') # bs))"

text \<open>A sheet of twenty rows.\<close>

definition twentyRows :: grid where
  "twentyRows =
     [[''r1''], [''r2''], [''r3''], [''r4''], [''r5''], [''r6''], [''r7''], [''r8''], [''r9''],
      [''r10''], [''r11''], [''r12''], [''r13''], [''r14''], [''r15''], [''r16''], [''r17''],
      [''r18''], [''r19''], [''r20'']]"

definition twentyBook :: workbook where
  "twentyBook =
     \<lparr>sheets = [\<lparr>sname = ''Data'', grid = twentyRows\<rparr>],
      active = ''Data'', activeRange = None, calls = []\<rparr>"

text \<open>The array \<^verbatim>\<open>values\<close> that \<^verbatim>\<open>_readSheetData\<close> reads from a sheet, and the object \<^verbatim>\<open>cells\<close>
  as it stands after the two loops, before its keys are counted.\<close>

definition valuesRead :: "sheet \<Rightarrow> grid" where
  "valuesRead sh =
     getValues (grid sh)
       (Rect (rrow (getDataRange (grid sh))) (rcol (getDataRange (grid sh)))
             (min (nrows (getDataRange (grid sh))) MAX_ROWS) (ncols (getDataRange (grid sh))))"

definition cellsBuilt :: "sheet \<Rightarrow> colCache \<Rightarrow> (string \<times> string) list" where
  "cellsBuilt sh cache =
     cellsOfValues
       (fst (colLettersLoop (rcol (getDataRange (grid sh)))
               [0 ..< ncols (getDataRange (grid sh))] [] cache))
       (rrow (getDataRange (grid sh))) (valuesRead sh)"

text \<open>A sheet of 2000 rows of 26 filled cells.\<close>

definition wideSheet :: sheet where
  "wideSheet = \<lparr>sname = ''Wide'', grid = replicate 2000 (replicate 26 ''x'')\<rparr>"

definition wideBook :: workbook where
  "wideBook = \<lparr>sheets = [wideSheet], active = ''Wide'', activeRange = None, calls = []\<rparr>"

section \<open>Properties\<close>

subsection \<open>The codec\<close>

lemma letterToColumn_colLetterLoop:
  "0 \<le> c \<Longrightarrow>
   foldl (\<lambda>col ch. col * 26 + (of_char ch - 64)) 0 (colLetterLoop c acc)
     = foldl (\<lambda>col ch. col * 26 + (of_char ch - 64)) c acc"
proof (induction c acc rule: colLetterLoop.induct)
  case (1 c letter)
  show ?case
  proof (cases "c > 0")
    case True
    let ?m = "(c - 1) mod 26"
    let ?f = "\<lambda>col ch. col * 26 + (of_char ch - (64::int))"
    have m: "0 \<le> ?m" "?m < 26" by simp_all
    have ch: "of_char (char_of (65 + ?m) :: char) = 65 + ?m"
      using m by simp
    have dm: "(c - 1) div 26 * 26 + ?m = c - 1" by simp
    have "foldl ?f 0 (colLetterLoop c letter)
            = foldl ?f 0 (colLetterLoop ((c - 1) div 26) (char_of (65 + ?m) # letter))"
      using True by (subst colLetterLoop.simps) simp
    also have "\<dots> = foldl ?f ((c - 1) div 26) (char_of (65 + ?m) # letter)"
      using True by (intro "1.IH") simp_all
    also have "\<dots> = foldl ?f ((c - 1) div 26 * 26 + (65 + ?m - 64)) letter"
      by (simp only: foldl_Cons ch)
    also have "(c - 1) div 26 * 26 + (65 + ?m - 64) = c"
      using dm by linarith
    finally show ?thesis .
  next
    case False
    with "1.prems" have "c = 0" by simp
    then show ?thesis by (subst colLetterLoop.simps) simp
  qed
qed

lemma letterToColumn_loop_id: "0 \<le> n \<Longrightarrow> letterToColumn (colLetterLoop n []) = n"
  unfolding letterToColumn_def by (simp add: letterToColumn_colLetterLoop)

lemma colLetter_fst: "cacheOk cache \<Longrightarrow> fst (colLetter col cache) = colLetterLoop col []"
  by (auto simp: colLetter_def cacheOk_def split: option.splits)

lemma colLetter_snd_ok: "cacheOk cache \<Longrightarrow> cacheOk (snd (colLetter col cache))"
  by (auto simp: colLetter_def cacheOk_def split: option.splits)

lemma cacheOk_foldl:
  "cacheOk cache \<Longrightarrow> cacheOk (foldl (\<lambda>cache c. snd (colLetter c cache)) cache cs)"
  by (induction cs arbitrary: cache) (simp_all add: colLetter_snd_ok)

lemma cacheOk_cacheAfter: "cacheOk (cacheAfter cs)"
  unfolding cacheAfter_def by (rule cacheOk_foldl) (simp add: cacheOk_def)

lemma isUpperAZ_int: "isUpperAZ ch \<Longrightarrow> 65 \<le> (of_char ch :: int) \<and> (of_char ch :: int) \<le> 90"
proof -
  assume "isUpperAZ ch"
  then have "65 \<le> (of_char ch :: nat)" "(of_char ch :: nat) \<le> 90"
    by (simp_all add: isUpperAZ_def)
  then have "65 \<le> int (of_char ch)" "int (of_char ch) \<le> 90" by linarith+
  then show ?thesis by (simp add: of_nat_of_char)
qed

lemma colLetterLoop_snoc:
  assumes "0 \<le> d" "isUpperAZ ch"
  shows "colLetterLoop (d * 26 + (of_char ch - 64)) acc = colLetterLoop d (ch # acc)"
proof -
  let ?k = "of_char ch :: int"
  have k: "65 \<le> ?k" "?k \<le> 90"
    using isUpperAZ_int [OF assms(2)] by simp_all
  let ?c = "d * 26 + (?k - 64)"
  have pos: "?c > 0" using assms(1) k by simp
  have c1: "?c - 1 = (?k - 65) + d * 26" by simp
  have dv: "(?c - 1) div 26 = d" unfolding c1 using k by simp
  have md: "(?c - 1) mod 26 = ?k - 65" unfolding c1 using k by simp
  have "char_of (65 + (?k - 65)) = ch" by simp
  then show ?thesis
    using pos dv md by (subst colLetterLoop.simps) simp
qed

lemma letterFold_nonneg:
  "list_all isUpperAZ s \<Longrightarrow> 0 \<le> a \<Longrightarrow>
   0 \<le> foldl (\<lambda>col ch. col * 26 + (of_char ch - 64)) (a::int) s"
proof (induction s arbitrary: a)
  case Nil
  then show ?case by simp
next
  case (Cons ch s)
  from Cons.prems have "65 \<le> (of_char ch :: int)" using isUpperAZ_int by simp
  with Cons.prems have "0 \<le> a * 26 + (of_char ch - 64)" by simp
  with Cons show ?case by simp
qed

lemma colLetterLoop_letterToColumn:
  "list_all isUpperAZ s \<Longrightarrow> colLetterLoop (letterToColumn s) acc = s @ acc"
proof (induction s arbitrary: acc rule: rev_induct)
  case Nil
  show ?case unfolding letterToColumn_def by (subst colLetterLoop.simps) simp
next
  case (snoc ch s)
  then have up: "list_all isUpperAZ s" "isUpperAZ ch" by simp_all
  have nn: "0 \<le> letterToColumn s"
    unfolding letterToColumn_def using letterFold_nonneg [OF up(1), of 0] by simp
  have "letterToColumn (s @ [ch]) = letterToColumn s * 26 + (of_char ch - 64)"
    by (simp add: letterToColumn_def)
  then have "colLetterLoop (letterToColumn (s @ [ch])) acc
               = colLetterLoop (letterToColumn s) (ch # acc)"
    using colLetterLoop_snoc [OF nn up(2)] by simp
  also have "\<dots> = s @ ch # acc" using snoc.IH [OF up(1)] .
  finally show ?case by simp
qed

lemma letterToColumn_range:
  assumes "list_all isUpperAZ s" "s \<noteq> []" "length s \<le> 3"
  shows "1 \<le> letterToColumn s \<and> letterToColumn s \<le> 18278"
proof -
  have "length s \<noteq> 0" using assms(2) by simp
  then have "length s = 1 \<or> length s = 2 \<or> length s = 3"
    using assms(3) by arith
  then consider a where "s = [a]" | a b where "s = [a, b]" | a b c where "s = [a, b, c]"
    by (auto simp: length_Suc_conv numeral_2_eq_2 numeral_3_eq_3)
  then show ?thesis
  proof cases
    case 1
    with assms(1) isUpperAZ_int [of a] show ?thesis by (simp add: letterToColumn_def)
  next
    case 2
    with assms(1) isUpperAZ_int [of a] isUpperAZ_int [of b] show ?thesis
      by (simp add: letterToColumn_def)
  next
    case 3
    with assms(1) isUpperAZ_int [of a] isUpperAZ_int [of b] isUpperAZ_int [of c] show ?thesis
      by (simp add: letterToColumn_def)
  qed
qed

text \<open>
  Claim C8. For every integer \<open>n\<close> from 1 to 18278, \<^verbatim>\<open>_letterToColumn(_colLetter(n))\<close> is \<open>n\<close>,
  whatever calls have filled the cache before, and the cached answer is the one the loop
  computes. In the other direction, every text of one to three letters A to Z is a column from
  1 to 18278 and \<^verbatim>\<open>_colLetter\<close> gives the text back: the two functions are inverse to each
  other between the columns 1 to 18278 and the letters A to ZZZ.
\<close>

theorem colLetter_letterToColumn_inverse:
  "(1 \<le> n \<and> n \<le> 18278 \<longrightarrow>
      letterToColumn (fst (colLetter n (cacheAfter cs))) = n
      \<and> fst (colLetter n (cacheAfter cs)) = colLetterLoop n [])
   \<and> (list_all isUpperAZ s \<and> s \<noteq> [] \<and> length s \<le> 3 \<longrightarrow>
      fst (colLetter (letterToColumn s) (cacheAfter cs)) = s
      \<and> 1 \<le> letterToColumn s \<and> letterToColumn s \<le> 18278)"
proof (intro conjI impI)
  assume n: "1 \<le> n \<and> n \<le> 18278"
  show "fst (colLetter n (cacheAfter cs)) = colLetterLoop n []"
    by (rule colLetter_fst [OF cacheOk_cacheAfter])
  then show "letterToColumn (fst (colLetter n (cacheAfter cs))) = n"
    using n by (simp add: letterToColumn_loop_id)
next
  assume s: "list_all isUpperAZ s \<and> s \<noteq> [] \<and> length s \<le> 3"
  have "fst (colLetter (letterToColumn s) (cacheAfter cs)) = colLetterLoop (letterToColumn s) []"
    by (rule colLetter_fst [OF cacheOk_cacheAfter])
  also have "\<dots> = s" using s colLetterLoop_letterToColumn [of s "[]"] by simp
  finally show "fst (colLetter (letterToColumn s) (cacheAfter cs)) = s" .
  show "1 \<le> letterToColumn s" "letterToColumn s \<le> 18278"
    using s letterToColumn_range [of s] by simp_all
qed

theorem colLetter_letterToColumn_inverse_witness:
  "letterToColumn (fst (colLetter 18278 (cacheAfter [1, 18278, 27]))) = 18278
   \<and> fst (colLetter 18278 (cacheAfter [1, 18278, 27])) = colLetterLoop 18278 []
   \<and> list_all isUpperAZ ''ZZZ''
   \<and> fst (colLetter (letterToColumn ''ZZZ'') (cacheAfter [1, 18278, 27])) = ''ZZZ''
   \<and> 1 \<le> letterToColumn ''ZZZ'' \<and> letterToColumn ''ZZZ'' \<le> 18278"
proof -
  have up: "list_all isUpperAZ ''ZZZ''" by (simp add: isUpperAZ_def)
  have n: "(1::int) \<le> 18278 \<and> (18278::int) \<le> 18278" by simp
  have len: "''ZZZ'' \<noteq> [] \<and> length ''ZZZ'' \<le> 3" by simp
  from colLetter_letterToColumn_inverse [of 18278 "[1, 18278, 27]" "''ZZZ''"] up n len
  show ?thesis by blast
qed

subsection \<open>The plan executor\<close>

lemma succeedsAt_Cons_Suc:
  "succeedsAt H (st # rest) wb (Suc j) = succeedsAt H rest (flush (snd (dispatchStep H st wb))) j"
  by (simp add: succeedsAt_def)

lemma succeedsAt_Cons_0:
  "succeedsAt H (st # rest) wb 0 = (\<not> isl (fst (dispatchStep H st wb)))"
  by (simp add: succeedsAt_def)

lemma stepLoop_all_done:
  "(\<forall>j < length steps. succeedsAt H steps wb j) \<Longrightarrow>
   length (fst (stepLoop H k steps wb)) = length steps
   \<and> (\<forall>j < length steps. status (fst (stepLoop H k steps wb) ! j) = ''done'')
   \<and> snd (stepLoop H k steps wb) = afterSteps H steps wb"
proof (induction steps arbitrary: k wb)
  case Nil
  then show ?case by simp
next
  case (Cons st rest)
  from Cons.prems have ok0: "\<not> isl (fst (dispatchStep H st wb))"
    using succeedsAt_Cons_0 [of H st rest wb] by auto
  then obtain res wb' where d: "dispatchStep H st wb = (Inr res, wb')"
    by (cases "dispatchStep H st wb"; cases "fst (dispatchStep H st wb)") auto
  have rest_ok: "\<forall>j < length rest. succeedsAt H rest (flush wb') j"
  proof (intro allI impI)
    fix j assume "j < length rest"
    then have "succeedsAt H (st # rest) wb (Suc j)" using Cons.prems by auto
    then show "succeedsAt H rest (flush wb') j" using d by (simp add: succeedsAt_Cons_Suc)
  qed
  obtain rs wb'' where r: "stepLoop H (Suc k) rest (flush wb') = (rs, wb'')"
    by (cases "stepLoop H (Suc k) rest (flush wb')") auto
  note IH = Cons.IH [OF rest_ok, of "Suc k", unfolded r fst_conv snd_conv]
  have loop: "stepLoop H k (st # rest) wb
     = (\<lparr>resultStep = stepNumber st k, status = ''done'', result = res\<rparr> # rs, wb'')"
    using d r by simp
  show ?case
  proof (intro conjI allI impI)
    show "length (fst (stepLoop H k (st # rest) wb)) = length (st # rest)"
      using IH r loop by simp
    show "snd (stepLoop H k (st # rest) wb) = afterSteps H (st # rest) wb"
      using IH r loop d by simp
    fix j assume "j < length (st # rest)"
    then show "status (fst (stepLoop H k (st # rest) wb) ! j) = ''done''"
      using IH r loop by (cases j) auto
  qed
qed

lemma stepLoop_halts:
  "i < length steps \<Longrightarrow> (\<forall>j < i. succeedsAt H steps wb j) \<Longrightarrow> \<not> succeedsAt H steps wb i \<Longrightarrow>
   length (fst (stepLoop H k steps wb)) = Suc i
   \<and> (\<forall>j < i. status (fst (stepLoop H k steps wb) ! j) = ''done'')
   \<and> status (fst (stepLoop H k steps wb) ! i) = ''error''
   \<and> snd (stepLoop H k steps wb) = snd (dispatchStep H (steps ! i) (afterSteps H (take i steps) wb))
   \<and> stepLoop H k steps wb = stepLoop H k (take (Suc i) steps) wb"
proof (induction steps arbitrary: i k wb)
  case Nil
  then show ?case by simp
next
  case (Cons st rest)
  show ?case
  proof (cases i)
    case 0
    with Cons.prems have "isl (fst (dispatchStep H st wb))"
      by (simp add: succeedsAt_Cons_0)
    then obtain e wb' where d: "dispatchStep H st wb = (Inl e, wb')"
      by (cases "dispatchStep H st wb"; cases "fst (dispatchStep H st wb)") auto
    then show ?thesis using 0 by simp
  next
    case (Suc i')
    from Cons.prems Suc have "succeedsAt H (st # rest) wb 0" by blast
    then have ok0: "\<not> isl (fst (dispatchStep H st wb))" by (simp add: succeedsAt_Cons_0)
    then obtain res wb' where d: "dispatchStep H st wb = (Inr res, wb')"
      by (cases "dispatchStep H st wb"; cases "fst (dispatchStep H st wb)") auto
    have i': "i' < length rest" using Cons.prems(1) Suc by simp
    have pre: "\<forall>j < i'. succeedsAt H rest (flush wb') j"
    proof (intro allI impI)
      fix j assume "j < i'"
      then have "succeedsAt H (st # rest) wb (Suc j)" using Cons.prems(2) Suc by auto
      then show "succeedsAt H rest (flush wb') j" using d by (simp add: succeedsAt_Cons_Suc)
    qed
    have fail: "\<not> succeedsAt H rest (flush wb') i'"
      using Cons.prems(3) Suc d by (simp add: succeedsAt_Cons_Suc)
    obtain rs wb'' where r: "stepLoop H (Suc k) rest (flush wb') = (rs, wb'')"
      by (cases "stepLoop H (Suc k) rest (flush wb')") auto
    note IH = Cons.IH [OF i' pre fail, of "Suc k", unfolded r fst_conv snd_conv]
    have loop: "stepLoop H k (st # rest) wb
       = (\<lparr>resultStep = stepNumber st k, status = ''done'', result = res\<rparr> # rs, wb'')"
      using d r by simp
    show ?thesis
    proof (intro conjI allI impI)
      show "length (fst (stepLoop H k (st # rest) wb)) = Suc i"
        using IH r loop Suc by simp
      show "status (fst (stepLoop H k (st # rest) wb) ! i) = ''error''"
        using IH r loop Suc by simp
      show "snd (stepLoop H k (st # rest) wb)
              = snd (dispatchStep H ((st # rest) ! i) (afterSteps H (take i (st # rest)) wb))"
        using IH r loop Suc d by simp
      from IH have "(rs, wb'') = stepLoop H (Suc k) (take (Suc i') rest) (flush wb')"
        by blast
      then have "stepLoop H (Suc k) (take (Suc i') rest) (flush wb') = (rs, wb'')"
        by (rule sym)
      then show "stepLoop H k (st # rest) wb = stepLoop H k (take (Suc i) (st # rest)) wb"
        using loop Suc d by simp
      fix j assume "j < i"
      then show "status (fst (stepLoop H k (st # rest) wb) ! j) = ''done''"
        using IH r loop Suc by (cases j) auto
    qed
  qed
qed

text \<open>
  Claim C1. Steps are counted from 0 here, so step \<open>i\<close> of the theorem is step \<open>i + 1\<close> of the
  plan. If the dispatch of step \<open>i\<close> raises and the dispatches before it return, the report
  of \<^verbatim>\<open>executeStepPlan\<close> has \<open>i + 1\<close> entries, the first \<open>i\<close> with status done and the last
  with status error; no later step is dispatched, since the outcome is that of the plan cut
  after step \<open>i\<close>; and nothing is rolled back, since the workbook returned is the one the
  failing dispatch leaves on top of the effects of the steps before it. If every dispatch
  returns, the report has one entry per step, all with status done.
\<close>

theorem executeStepPlan_halts_at_first_failure:
  "(i < length steps \<and> (\<forall>j < i. succeedsAt H steps wb j) \<and> \<not> succeedsAt H steps wb i \<longrightarrow>
      length (fst (executeStepPlan H steps wb)) = Suc i
      \<and> (\<forall>j < i. status (fst (executeStepPlan H steps wb) ! j) = ''done'')
      \<and> status (fst (executeStepPlan H steps wb) ! i) = ''error''
      \<and> snd (executeStepPlan H steps wb)
            = snd (dispatchStep H (steps ! i) (afterSteps H (take i steps) wb))
      \<and> executeStepPlan H steps wb = executeStepPlan H (take (Suc i) steps) wb)
   \<and> ((\<forall>j < length steps. succeedsAt H steps wb j) \<longrightarrow>
      length (fst (executeStepPlan H steps wb)) = length steps
      \<and> (\<forall>j < length steps. status (fst (executeStepPlan H steps wb) ! j) = ''done'')
      \<and> snd (executeStepPlan H steps wb) = afterSteps H steps wb)"
  unfolding executeStepPlan_def
  using stepLoop_halts [of i steps H wb 0] stepLoop_all_done [of steps H wb 0]
  by blast

lemmas plan_eval =
  executeStepPlan_def fiveSteps_def dispatchStep_def executeSheetAction_def untagged_def
  createSheet_def dataBook_def getSheetByName_def insertSheet_def issue_def quoted_def
  setValues_def plainHost_def cellMatch_def isUpperAZ_def isDigit_def parseInt_def
  letterToColumn_def getRange4_def rangeSetValues_def onGrid_def writeValues_def
  enumerate_eq_zip setCell_def padTo_def flush_def deleteRows_def getSheet_def succeedsAt_def

theorem executeStepPlan_halts_at_first_failure_witness:
  "length (fst (executeStepPlan plainHost fiveSteps dataBook)) = 3
   \<and> status (fst (executeStepPlan plainHost fiveSteps dataBook) ! 0) = ''done''
   \<and> status (fst (executeStepPlan plainHost fiveSteps dataBook) ! 1) = ''done''
   \<and> status (fst (executeStepPlan plainHost fiveSteps dataBook) ! 2) = ''error''
   \<and> executeStepPlan plainHost fiveSteps dataBook
        = executeStepPlan plainHost (take 3 fiveSteps) dataBook
   \<and> length (fst (executeStepPlan plainHost (take 2 fiveSteps) dataBook)) = 2
   \<and> status (fst (executeStepPlan plainHost (take 2 fiveSteps) dataBook) ! 0) = ''done''
   \<and> status (fst (executeStepPlan plainHost (take 2 fiveSteps) dataBook) ! 1) = ''done''"
proof -
  have s0: "succeedsAt plainHost fiveSteps dataBook 0" by (simp add: plan_eval)
  have s1: "succeedsAt plainHost fiveSteps dataBook 1" by (simp add: plan_eval)
  have s2: "\<not> succeedsAt plainHost fiveSteps dataBook 2" by (simp add: plan_eval)
  have before: "\<forall>j < 2. succeedsAt plainHost fiveSteps dataBook j"
    using s0 s1 by (auto simp: numeral_2_eq_2 less_Suc_eq)
  have len: "(2::nat) < length fiveSteps" by (simp add: fiveSteps_def)
  have t0: "succeedsAt plainHost (take 2 fiveSteps) dataBook 0" by (simp add: plan_eval)
  have t1: "succeedsAt plainHost (take 2 fiveSteps) dataBook 1" by (simp add: plan_eval)
  have all2: "\<forall>j < length (take 2 fiveSteps). succeedsAt plainHost (take 2 fiveSteps) dataBook j"
    using t0 t1 by (auto simp: fiveSteps_def numeral_2_eq_2 less_Suc_eq)
  have l2: "length (take 2 fiveSteps) = 2" by (simp add: fiveSteps_def)
  have n3: "Suc 2 = 3" by simp
  from executeStepPlan_halts_at_first_failure [of 2 fiveSteps plainHost dataBook] len before s2
  have A: "length (fst (executeStepPlan plainHost fiveSteps dataBook)) = Suc 2
      \<and> (\<forall>j < 2. status (fst (executeStepPlan plainHost fiveSteps dataBook) ! j) = ''done'')
      \<and> status (fst (executeStepPlan plainHost fiveSteps dataBook) ! 2) = ''error''
      \<and> executeStepPlan plainHost fiveSteps dataBook
           = executeStepPlan plainHost (take (Suc 2) fiveSteps) dataBook"
    by blast
  from executeStepPlan_halts_at_first_failure [of 0 "take 2 fiveSteps" plainHost dataBook] all2
  have B: "length (fst (executeStepPlan plainHost (take 2 fiveSteps) dataBook))
             = length (take 2 fiveSteps)
      \<and> (\<forall>j < length (take 2 fiveSteps).
            status (fst (executeStepPlan plainHost (take 2 fiveSteps) dataBook) ! j) = ''done'')"
    by blast
  have lt: "(0::nat) < 2" "(1::nat) < 2" by simp_all
  show ?thesis using A B lt unfolding l2 n3 by blast
qed

subsection \<open>The dispatcher on tags it has no case for\<close>

lemma unknown_tag:
  "action a \<notin> set recognizedActions \<Longrightarrow>
   executeSheetAction H a wb =
     (Inr (if action a = [] then ''No action provided'' else ''Unknown action: '' @ action a), wb)"
  unfolding executeSheetAction_def recognizedActions_def by simp

lemma unknown_tag_step:
  "action a \<notin> set recognizedActions \<Longrightarrow> stepAction st = Some a \<Longrightarrow>
   stepLoop H i (st # rest) wb =
     (\<lparr>resultStep = stepNumber st i, status = ''done'',
       result = (if action a = [] then ''No action provided''
                 else ''Unknown action: '' @ action a)\<rparr>
        # fst (stepLoop H (i + 1) rest (flush wb)),
      snd (stepLoop H (i + 1) rest (flush wb)))"
  by (simp add: dispatchStep_def unknown_tag split: prod.splits)

text \<open>
  Claim C7, as the code has it. For an action whose tag is none of the recognized ones,
  \<^verbatim>\<open>executeSheetAction\<close> runs no handler and leaves the workbook as it is, and it says so: it
  returns the text \<^verbatim>\<open>Unknown action: \<close> followed by the tag, or \<^verbatim>\<open>No action provided\<close> when
  the tag is absent. The text is an ordinary result, not an exception, so the plan executor
  records the step with status done and goes on with the next step.
\<close>

theorem executeSheetAction_unknown_tag:
  "action a \<notin> set recognizedActions \<longrightarrow>
     executeSheetAction H a wb =
       (Inr (if action a = [] then ''No action provided'' else ''Unknown action: '' @ action a),
        wb)
     \<and> (stepAction st = Some a \<longrightarrow>
          stepLoop H i (st # rest) wb =
            (\<lparr>resultStep = stepNumber st i, status = ''done'',
              result = (if action a = [] then ''No action provided''
                        else ''Unknown action: '' @ action a)\<rparr>
               # fst (stepLoop H (i + 1) rest (flush wb)),
             snd (stepLoop H (i + 1) rest (flush wb))))"
  using unknown_tag [of a H wb] unknown_tag_step [of a st H i rest wb] by blast

theorem executeSheetAction_unknown_tag_witness:
  "action (untagged\<lparr>action := ''explode''\<rparr>) \<notin> set recognizedActions
   \<and> executeSheetAction plainHost (untagged\<lparr>action := ''explode''\<rparr>) dataBook
        = (Inr ''Unknown action: explode'', dataBook)"
proof -
  have h: "action (untagged\<lparr>action := ''explode''\<rparr>) \<notin> set recognizedActions"
    by (simp add: recognizedActions_def)
  from executeSheetAction_unknown_tag [of "untagged\<lparr>action := ''explode''\<rparr>" plainHost dataBook] h
  show ?thesis by simp
qed

text \<open>
  Claim C7 as stated fails: the tag \<^verbatim>\<open>explode\<close> is not recognized, yet its dispatch is not an
  error, and a plan made of this one step reports it as done.
\<close>

theorem unknown_tag_is_no_error_counterexample:
  "action (untagged\<lparr>action := ''explode''\<rparr>) \<notin> set recognizedActions
   \<and> \<not> isl (fst (executeSheetAction plainHost (untagged\<lparr>action := ''explode''\<rparr>) dataBook))
   \<and> map status (fst (executeStepPlan plainHost
        [\<lparr>step = None, stepAction = Some (untagged\<lparr>action := ''explode''\<rparr>)\<rparr>] dataBook))
      = [''done'']"
  by (simp add: plan_eval recognizedActions_def)

subsection \<open>A sheet that does not exist\<close>

lemma mentions_append: "mentionsNotFound m \<Longrightarrow> mentionsNotFound (p @ m @ q)"
  unfolding mentionsNotFound_def
proof -
  assume "\<exists>pre post. m = pre @ ''not found'' @ post"
  then obtain pre post where "m = pre @ ''not found'' @ post" by blast
  then have "p @ m @ q = (p @ pre) @ ''not found'' @ (post @ q)" by simp
  then show "\<exists>pre post. p @ m @ q = pre @ ''not found'' @ post" by blast
qed

lemma mentions_lit: "mentionsNotFound ''not found''"
  unfolding mentionsNotFound_def by (rule exI [of _ "[]"], rule exI [of _ "[]"]) simp

lemma mentions_pre: "mentionsNotFound (p @ ''not found'' @ q)"
  using mentions_append [OF mentions_lit] by simp

lemma m1: "mentionsNotFound (''Sheet '' @ quoted n @ '' not found'')"
  using mentions_pre [of "''Sheet '' @ quoted n @ '' ''" "[]"] by simp

lemma m2: "mentionsNotFound (''Sheet not found: '' @ n)"
  using mentions_pre [of "''Sheet ''" "'': '' @ n"] by simp

lemma m3: "mentionsNotFound (''Source sheet not found: '' @ n)"
  using mentions_pre [of "''Source sheet ''" "'': '' @ n"] by simp

lemma m4: "mentionsNotFound (''Destination sheet not found: '' @ n)"
  using mentions_pre [of "''Destination sheet ''" "'': '' @ n"] by simp

lemma jsonString_append_lit:
  "jsonString (s @ '' not found'') = [CHR 0x22] @ concat (map jsonChar s) @ '' not found'' @ [CHR 0x22]"
  by (simp add: jsonString_def jsonChar_def)

lemma m5: "mentionsNotFound (''{'' @ jsonString ''error'' @ '':''
                  @ jsonString (''Sheet '' @ quoted n @ '' not found'')
                  @ '','' @ jsonString ''values'' @ '':[]}'')"
proof -
  have "jsonString (''Sheet '' @ quoted n @ '' not found'')
     = ([CHR 0x22] @ concat (map jsonChar (''Sheet '' @ quoted n)) @ '' '') @ ''not found'' @ [CHR 0x22]"
    using jsonString_append_lit [of "''Sheet '' @ quoted n"] by simp
  then show ?thesis
    using mentions_pre [of "''{'' @ jsonString ''error'' @ '':'' @ [CHR 0x22] @ concat (map jsonChar (''Sheet '' @ quoted n)) @ '' ''"
         "[CHR 0x22] @ '','' @ jsonString ''values'' @ '':[]}''"]
    by simp
qed

lemma missing_setFormula:
  "action a = ''setFormula'' \<Longrightarrow> targetMissing a wb \<Longrightarrow>
   \<exists>msg. mentionsNotFound msg \<and> executeSheetAction H a wb = (Inr msg, wb)"
  using m1
  by (auto simp: executeSheetAction_def targetMissing_def absent_def setFormula_def
           split: option.splits)

lemma missing_setValues:
  "action a = ''setValues'' \<Longrightarrow> targetMissing a wb \<Longrightarrow>
   \<exists>msg. mentionsNotFound msg \<and> executeSheetAction H a wb = (Inr msg, wb)"
  using m1
  by (auto simp: executeSheetAction_def targetMissing_def absent_def setValues_def
           split: option.splits)

lemma missing_autoFillDown:
  "action a = ''autoFillDown'' \<Longrightarrow> targetMissing a wb \<Longrightarrow>
   \<exists>msg. mentionsNotFound msg \<and> executeSheetAction H a wb = (Inr msg, wb)"
  using m1
  by (auto simp: executeSheetAction_def targetMissing_def absent_def autoFillDown_def
           split: option.splits)

lemma missing_formatRange:
  "action a = ''formatRange'' \<Longrightarrow> targetMissing a wb \<Longrightarrow>
   \<exists>msg. mentionsNotFound msg \<and> executeSheetAction H a wb = (Inr msg, wb)"
  using m1
  by (auto simp: executeSheetAction_def targetMissing_def absent_def formatRange_def
           split: option.splits)

lemma missing_readRange:
  "action a = ''readRange'' \<Longrightarrow> targetMissing a wb \<Longrightarrow>
   \<exists>msg. mentionsNotFound msg \<and> executeSheetAction H a wb = (Inr msg, wb)"
  using m5
  by (auto simp: executeSheetAction_def targetMissing_def absent_def readRange_def
           split: option.splits)

lemma missing_deleteCharts:
  "action a = ''deleteCharts'' \<Longrightarrow> targetMissing a wb \<Longrightarrow>
   \<exists>msg. mentionsNotFound msg \<and> executeSheetAction H a wb = (Inr msg, wb)"
  using m2
  by (auto simp: executeSheetAction_def targetMissing_def absent_def deleteChartsOnSheet_def namedOrActive_def
           split: option.splits)

lemma missing_createChart:
  "action a = ''createChart'' \<Longrightarrow> targetMissing a wb \<Longrightarrow>
   \<exists>msg. mentionsNotFound msg \<and> executeSheetAction H a wb = (Inr msg, wb)"
  using m2
  by (auto simp: executeSheetAction_def targetMissing_def absent_def createChartOnSheet_def createChartFromColumns_def namedOrActive_def Let_def
           split: option.splits)

lemma missing_copyRange:
  "action a = ''copyRange'' \<Longrightarrow> targetMissing a wb \<Longrightarrow>
   \<exists>msg. mentionsNotFound msg \<and> executeSheetAction H a wb = (Inr msg, wb)"
  using m3 m4
  by (auto simp: executeSheetAction_def targetMissing_def absent_def copyRange_def
           split: option.splits)

lemma missing_renameSheet:
  "action a = ''renameSheet'' \<Longrightarrow> targetMissing a wb \<Longrightarrow>
   \<exists>msg. mentionsNotFound msg \<and> executeSheetAction H a wb = (Inr msg, wb)"
  using m2
  by (auto simp: executeSheetAction_def targetMissing_def absent_def renameSheet_def
           split: option.splits)

lemma missing_copySheet:
  "action a = ''copySheet'' \<Longrightarrow> targetMissing a wb \<Longrightarrow>
   \<exists>msg. mentionsNotFound msg \<and> executeSheetAction H a wb = (Inr msg, wb)"
  using m2
  by (auto simp: executeSheetAction_def targetMissing_def absent_def copySheet_def
           split: option.splits)

lemma missing_deleteSheet:
  "action a = ''deleteSheet'' \<Longrightarrow> targetMissing a wb \<Longrightarrow>
   \<exists>msg. mentionsNotFound msg \<and> executeSheetAction H a wb = (Inr msg, wb)"
  using m2
  by (auto simp: executeSheetAction_def targetMissing_def absent_def deleteSheet_def
           split: option.splits)

lemma raises_numberFormat:
  "action a = ''numberFormat'' \<Longrightarrow> targetMissing a wb \<Longrightarrow>
   executeSheetAction H a wb = (Inl (Error (''Sheet not found: '' @ sheet a)), wb)"
  by (simp add: executeSheetAction_def targetMissing_def absent_def applyNumberFormat_def viaGetSheet_def
        getSheet_def)

lemma raises_setBorders:
  "action a = ''setBorders'' \<Longrightarrow> targetMissing a wb \<Longrightarrow>
   executeSheetAction H a wb = (Inl (Error (''Sheet not found: '' @ sheet a)), wb)"
  by (simp add: executeSheetAction_def targetMissing_def absent_def setBorders_def viaGetSheet_def
        getSheet_def)

lemma raises_freeze:
  "action a = ''freeze'' \<Longrightarrow> targetMissing a wb \<Longrightarrow>
   executeSheetAction H a wb = (Inl (Error (''Sheet not found: '' @ sheet a)), wb)"
  by (simp add: executeSheetAction_def targetMissing_def absent_def freeze_def viaGetSheet_def
        getSheet_def)

lemma raises_autoResize:
  "action a = ''autoResize'' \<Longrightarrow> targetMissing a wb \<Longrightarrow>
   executeSheetAction H a wb = (Inl (Error (''Sheet not found: '' @ sheet a)), wb)"
  by (simp add: executeSheetAction_def targetMissing_def absent_def autoResizeColumns_def viaGetSheet_def
        getSheet_def)

lemma raises_deleteRows:
  "action a = ''deleteRows'' \<Longrightarrow> targetMissing a wb \<Longrightarrow>
   executeSheetAction H a wb = (Inl (Error (''Sheet not found: '' @ sheet a)), wb)"
  by (simp add: executeSheetAction_def targetMissing_def absent_def deleteRows_def viaGetSheet_def
        getSheet_def)

lemma raises_deleteColumns:
  "action a = ''deleteColumns'' \<Longrightarrow> targetMissing a wb \<Longrightarrow>
   executeSheetAction H a wb = (Inl (Error (''Sheet not found: '' @ sheet a)), wb)"
  by (simp add: executeSheetAction_def targetMissing_def absent_def deleteColumns_def viaGetSheet_def
        getSheet_def)

lemma raises_mergeCells:
  "action a = ''mergeCells'' \<Longrightarrow> targetMissing a wb \<Longrightarrow>
   executeSheetAction H a wb = (Inl (Error (''Sheet not found: '' @ sheet a)), wb)"
  by (simp add: executeSheetAction_def targetMissing_def absent_def mergeCells_def viaGetSheet_def
        getSheet_def)

lemma raises_clearRange:
  "action a = ''clearRange'' \<Longrightarrow> targetMissing a wb \<Longrightarrow>
   executeSheetAction H a wb = (Inl (Error (''Sheet not found: '' @ sheet a)), wb)"
  by (simp add: executeSheetAction_def targetMissing_def absent_def clearRange_def viaGetSheet_def
        getSheet_def)

lemma raises_conditionalFormat:
  "action a = ''conditionalFormat'' \<Longrightarrow> targetMissing a wb \<Longrightarrow>
   executeSheetAction H a wb = (Inl (Error (''Sheet not found: '' @ sheet a)), wb)"
  by (simp add: executeSheetAction_def targetMissing_def absent_def conditionalFormat_def viaGetSheet_def
        getSheet_def)

lemma raises_dataValidation:
  "action a = ''dataValidation'' \<Longrightarrow> targetMissing a wb \<Longrightarrow>
   executeSheetAction H a wb = (Inl (Error (''Sheet not found: '' @ sheet a)), wb)"
  by (simp add: executeSheetAction_def targetMissing_def absent_def setDataValidation_def viaGetSheet_def
        getSheet_def)

lemma raises_findReplace:
  "action a = ''findReplace'' \<Longrightarrow> targetMissing a wb \<Longrightarrow>
   executeSheetAction H a wb = (Inl (Error (''Sheet not found: '' @ sheet a)), wb)"
  by (simp add: executeSheetAction_def targetMissing_def absent_def findReplace_def viaGetSheet_def
        getSheet_def)

lemma selfChecking_returns:
  assumes "action a \<in> set selfCheckingActions" "targetMissing a wb"
  shows "\<exists>msg. mentionsNotFound msg \<and> executeSheetAction H a wb = (Inr msg, wb)"
proof -
  from assms(1) consider "action a = ''setFormula''" | "action a = ''setValues''" | "action a = ''autoFillDown''" | "action a = ''formatRange''" | "action a = ''readRange''" | "action a = ''deleteCharts''" | "action a = ''createChart''" | "action a = ''copyRange''" | "action a = ''renameSheet''" | "action a = ''copySheet''" | "action a = ''deleteSheet''"
    unfolding selfCheckingActions_def by auto
  then show ?thesis
    using assms(2) missing_setFormula missing_setValues missing_autoFillDown missing_formatRange missing_readRange missing_deleteCharts missing_createChart missing_copyRange missing_renameSheet missing_copySheet missing_deleteSheet
    by cases blast+
qed

lemma getSheet_raises:
  assumes "action a \<in> set getSheetActions" "targetMissing a wb"
  shows "executeSheetAction H a wb = (Inl (Error (''Sheet not found: '' @ sheet a)), wb)"
proof -
  from assms(1) consider "action a = ''numberFormat''" | "action a = ''setBorders''" | "action a = ''freeze''" | "action a = ''autoResize''" | "action a = ''deleteRows''" | "action a = ''deleteColumns''" | "action a = ''mergeCells''" | "action a = ''clearRange''" | "action a = ''conditionalFormat''" | "action a = ''dataValidation''" | "action a = ''findReplace''"
    unfolding getSheetActions_def by auto
  then show ?thesis
    using assms(2) raises_numberFormat raises_setBorders raises_freeze raises_autoResize raises_deleteRows raises_deleteColumns raises_mergeCells raises_clearRange raises_conditionalFormat raises_dataValidation raises_findReplace
    by cases blast+
qed

lemma selfChecking_step:
  assumes "action a \<in> set selfCheckingActions" "targetMissing a wb" "stepAction st = Some a"
  shows "\<exists>msg. mentionsNotFound msg \<and> executeSheetAction H a wb = (Inr msg, wb)
           \<and> stepLoop H i (st # rest) wb =
               (\<lparr>resultStep = stepNumber st i, status = ''done'', result = msg\<rparr>
                  # fst (stepLoop H (i + 1) rest (flush wb)),
                snd (stepLoop H (i + 1) rest (flush wb)))"
proof -
  from selfChecking_returns [OF assms(1,2), of H] obtain msg
    where m: "mentionsNotFound msg" "executeSheetAction H a wb = (Inr msg, wb)" by blast
  have "stepLoop H i (st # rest) wb =
               (\<lparr>resultStep = stepNumber st i, status = ''done'', result = msg\<rparr>
                  # fst (stepLoop H (i + 1) rest (flush wb)),
                snd (stepLoop H (i + 1) rest (flush wb)))"
    using m(2) assms(3) by (simp add: dispatchStep_def split: prod.splits)
  with m show ?thesis by blast
qed

lemma getSheet_step:
  assumes "action a \<in> set getSheetActions" "targetMissing a wb" "stepAction st = Some a"
  shows "stepLoop H i (st # rest) wb =
           ([\<lparr>resultStep = stepNumber st i, status = ''error'',
              result = ''Error: Sheet not found: '' @ sheet a\<rparr>], wb)"
  using getSheet_raises [OF assms(1,2), of H] assms(3) by (simp add: dispatchStep_def)

text \<open>
  Claim C10, as the code has it. Let the sheet a step's action aims at not exist. If the
  handler checks the lookup itself (\<^verbatim>\<open>setFormula\<close>, \<^verbatim>\<open>setValues\<close>, \<^verbatim>\<open>autoFillDown\<close>,
  \<^verbatim>\<open>formatRange\<close>, \<^verbatim>\<open>readRange\<close>, \<^verbatim>\<open>deleteCharts\<close>, \<^verbatim>\<open>createChart\<close>, \<^verbatim>\<open>copyRange\<close>,
  \<^verbatim>\<open>renameSheet\<close>, \<^verbatim>\<open>copySheet\<close>, \<^verbatim>\<open>deleteSheet\<close>), it returns a message that says
  \<^verbatim>\<open>not found\<close> as an ordinary result and leaves the workbook unchanged, so the executor
  records the step as done and runs the remaining steps. If the handler looks the sheet up
  through \<^verbatim>\<open>_getSheet\<close> (\<^verbatim>\<open>numberFormat\<close>, \<^verbatim>\<open>setBorders\<close>, \<^verbatim>\<open>freeze\<close>, \<^verbatim>\<open>autoResize\<close>,
  \<^verbatim>\<open>deleteRows\<close>, \<^verbatim>\<open>deleteColumns\<close>, \<^verbatim>\<open>mergeCells\<close>, \<^verbatim>\<open>clearRange\<close>, \<^verbatim>\<open>conditionalFormat\<close>,
  \<^verbatim>\<open>dataValidation\<close>, \<^verbatim>\<open>findReplace\<close>), the lookup raises \<^verbatim>\<open>Sheet not found\<close>, the executor
  records the step as error, and no later step runs.
\<close>

theorem sheet_not_found_in_plan:
  "targetMissing a wb \<and> stepAction st = Some a \<longrightarrow>
     (action a \<in> set selfCheckingActions \<longrightarrow>
        (\<exists>msg. mentionsNotFound msg \<and> executeSheetAction H a wb = (Inr msg, wb)
           \<and> stepLoop H i (st # rest) wb =
               (\<lparr>resultStep = stepNumber st i, status = ''done'', result = msg\<rparr>
                  # fst (stepLoop H (i + 1) rest (flush wb)),
                snd (stepLoop H (i + 1) rest (flush wb)))))
     \<and> (action a \<in> set getSheetActions \<longrightarrow>
          executeSheetAction H a wb = (Inl (Error (''Sheet not found: '' @ sheet a)), wb)
          \<and> stepLoop H i (st # rest) wb =
              ([\<lparr>resultStep = stepNumber st i, status = ''error'',
                 result = ''Error: Sheet not found: '' @ sheet a\<rparr>], wb))"
  using selfChecking_step [of a wb st H i rest] getSheet_raises [of a wb H]
    getSheet_step [of a wb st H i rest]
  by blast

theorem sheet_not_found_in_plan_witness:
  "(\<exists>msg. mentionsNotFound msg
      \<and> stepLoop plainHost 0 [missingFormulaStep, otherSheetStep] dataBook =
          (\<lparr>resultStep = stepNumber missingFormulaStep 0, status = ''done'', result = msg\<rparr>
             # fst (stepLoop plainHost (0 + 1) [otherSheetStep] (flush dataBook)),
           snd (stepLoop plainHost (0 + 1) [otherSheetStep] (flush dataBook))))
   \<and> stepLoop plainHost 0 [missingRowsStep, otherSheetStep] dataBook =
        ([\<lparr>resultStep = stepNumber missingRowsStep 0, status = ''error'',
           result = ''Error: Sheet not found: '' @ ''Missing''\<rparr>], dataBook)"
proof -
  let ?f = "untagged\<lparr>action := ''setFormula'', sheet := ''Missing'', cell := ''B2'',
                      formula := ''=A2''\<rparr>"
  let ?d = "untagged\<lparr>action := ''deleteRows'', sheet := ''Missing'', rows := Some [2]\<rparr>"
  have f1: "targetMissing ?f dataBook \<and> stepAction missingFormulaStep = Some ?f"
    by (simp add: targetMissing_def absent_def getSheetByName_def dataBook_def
          missingFormulaStep_def untagged_def)
  have f2: "action ?f \<in> set selfCheckingActions" by (simp add: selfCheckingActions_def)
  have d1: "targetMissing ?d dataBook \<and> stepAction missingRowsStep = Some ?d"
    by (simp add: targetMissing_def absent_def getSheetByName_def dataBook_def
          missingRowsStep_def untagged_def)
  have d2: "action ?d \<in> set getSheetActions" by (simp add: getSheetActions_def)
  have d3: "sheet ?d = ''Missing''" by simp
  from sheet_not_found_in_plan [of ?f dataBook missingFormulaStep plainHost 0 "[otherSheetStep]"]
    f1 f2
  have A: "\<exists>msg. mentionsNotFound msg
      \<and> stepLoop plainHost 0 [missingFormulaStep, otherSheetStep] dataBook =
          (\<lparr>resultStep = stepNumber missingFormulaStep 0, status = ''done'', result = msg\<rparr>
             # fst (stepLoop plainHost (0 + 1) [otherSheetStep] (flush dataBook)),
           snd (stepLoop plainHost (0 + 1) [otherSheetStep] (flush dataBook)))"
    by blast
  from sheet_not_found_in_plan [of ?d dataBook missingRowsStep plainHost 0 "[otherSheetStep]"]
    d1 d2
  have B: "stepLoop plainHost 0 [missingRowsStep, otherSheetStep] dataBook =
        ([\<lparr>resultStep = stepNumber missingRowsStep 0, status = ''error'',
           result = ''Error: Sheet not found: '' @ sheet ?d\<rparr>], dataBook)"
    by blast
  show ?thesis using A B unfolding d3 by blast
qed

text \<open>
  Claim C10 as stated fails: \<^verbatim>\<open>deleteRows\<close> on a sheet that does not exist makes the plan stop
  with one entry of status error, and the step after it is not run.
\<close>

theorem sheet_not_found_halts_counterexample:
  "getSheetByName dataBook ''Missing'' = None
   \<and> map status (fst (executeStepPlan plainHost [missingRowsStep, otherSheetStep] dataBook))
        = [''error'']
   \<and> snd (executeStepPlan plainHost [missingRowsStep, otherSheetStep] dataBook) = dataBook"
  by (simp add: plan_eval missingRowsStep_def otherSheetStep_def)

subsection \<open>The last sheet\<close>

lemma length_updateFirst [simp]: "length (updateFirst n f shs) = length shs"
  by (induction shs) simp_all

lemma length_removeFirst: "length shs - 1 \<le> length (removeFirst n shs)"
  by (induction shs) auto

lemma sheets_issue [simp]: "sheets (issue c wb) = sheets wb"
  by (simp add: issue_def)

lemma sheets_flush [simp]: "sheets (flush wb) = sheets wb"
  by (simp add: flush_def)

lemma length_sheets_onGrid [simp]: "length (sheets (onGrid n f wb)) = length (sheets wb)"
  by (simp add: onGrid_def)

lemma count_applyEffect [simp]:
  "length (sheets (snd (applyEffect H kind a sh wb))) = length (sheets wb)"
  by (simp add: applyEffect_def split: prod.splits)

lemma count_onActiveSheet [simp]:
  "length (sheets (snd (onActiveSheet H kind a wb))) = length (sheets wb)"
  by (simp add: onActiveSheet_def split: option.splits)

lemma count_namedOrActive [simp]:
  "length (sheets (snd (namedOrActive H kind n a wb))) = length (sheets wb)"
  by (simp add: namedOrActive_def split: option.splits)

lemma count_viaGetSheet [simp]:
  "length (sheets (snd (viaGetSheet H kind n a wb))) = length (sheets wb)"
  by (simp add: viaGetSheet_def split: sum.splits)

lemma count_formatRange [simp]:
  "length (sheets (snd (formatRange H n a wb))) = length (sheets wb)"
  by (simp add: formatRange_def split: option.splits)

lemma count_readRange [simp]:
  "length (sheets (snd (readRange H n a wb))) = length (sheets wb)"
  by (simp add: readRange_def split: option.splits)

lemma count_copyRange [simp]:
  "length (sheets (snd (copyRange H n m a wb))) = length (sheets wb)"
  by (simp add: copyRange_def split: option.splits)

lemma count_createSheet: "length (sheets wb) \<le> length (sheets (snd (createSheet n wb)))"
  by (simp add: createSheet_def clearSheet_def insertSheet_def split: option.splits)

lemma count_setFormula [simp]:
  "length (sheets (snd (setFormula H n c f fill wb))) = length (sheets wb)"
  by (simp add: setFormula_def rangeSetFormula_def copyTo_def Let_def
           split: option.splits sum.splits prod.splits)

lemma count_setValues [simp]:
  "length (sheets (snd (setValues H n r vs wb))) = length (sheets wb)"
  by (auto simp: setValues_def rangeSetValues_def split: option.splits sum.splits if_splits)

lemma count_autoFillDown [simp]:
  "length (sheets (snd (autoFillDown H n c l wb))) = length (sheets wb)"
  by (simp add: autoFillDown_def copyTo_def Let_def split: option.splits sum.splits prod.splits)

lemma count_deleteRowsHost:
  "deleteRowsHost n pos cnt wb = Inr wb' \<Longrightarrow> length (sheets wb') = length (sheets wb)"
  by (auto simp: deleteRowsHost_def split: option.splits if_splits)

lemma count_deleteLoop:
  "length (sheets (snd (deleteLoop n rs i deleted wb))) = length (sheets wb)"
proof (induction n rs i deleted wb rule: deleteLoop.induct)
  case (1 n rs i deleted wb)
  show ?case
  proof (cases "i < length rs")
    case False
    then show ?thesis by (subst deleteLoop.simps) simp
  next
    case True
    show ?thesis
    proof (cases "deleteRowsHost n (rs ! i - int (runLength rs i (rs ! i) 1) + 1)
                (int (runLength rs i (rs ! i) 1)) wb")
      case (Inl e)
      then show ?thesis using True by (subst deleteLoop.simps) simp
    next
      case (Inr wb')
      then show ?thesis
        using True "1.IH" [OF True Inr] count_deleteRowsHost [OF Inr]
        by (subst deleteLoop.simps) simp
    qed
  qed
qed

lemma count_deleteRows [simp]:
  "length (sheets (snd (deleteRows n rws cnd wb))) = length (sheets wb)"
proof -
  have "\<And>rs m. length (sheets (snd (case deleteLoop m rs 0 0 wb of
                    (Inl e, wb') \<Rightarrow> (Inl e, wb')
                  | (Inr deleted, wb') \<Rightarrow>
                      (Inr (''Deleted '' @ showInt deleted @ '' row(s) from '' @ m), wb'))))
         = length (sheets wb)"
    using count_deleteLoop by (auto split: prod.splits sum.splits) (metis snd_conv)+
  then show ?thesis
    by (simp add: deleteRows_def split: sum.splits option.splits)
qed

lemma count_setName: "setName n n' wb = Inr wb' \<Longrightarrow> length (sheets wb') = length (sheets wb)"
  by (auto simp: setName_def split: if_splits)

lemma count_renameSheet [simp]:
  "length (sheets (snd (renameSheet old new wb))) = length (sheets wb)"
  by (auto simp: renameSheet_def dest: count_setName split: option.splits sum.splits)

lemma count_copySheet: "length (sheets wb) \<le> length (sheets (snd (copySheet H n new wb)))"
  by (auto simp: copySheet_def copySheetHost_def Let_def dest!: count_setName
           split: option.splits sum.splits prod.splits)

lemma keeps_deleteSheet: "sheets wb \<noteq> [] \<Longrightarrow> sheets (snd (deleteSheet n wb)) \<noteq> []"
proof -
  assume ne: "sheets wb \<noteq> []"
  have "1 < length (sheets wb) \<Longrightarrow> removeFirst n (sheets wb) \<noteq> []"
    using length_removeFirst [of "sheets wb" n] by auto
  then show ?thesis using ne
    by (auto simp: deleteSheet_def deleteSheetHost_def split: option.splits)
qed

lemma keeps_ge:
  "sheets wb \<noteq> [] \<Longrightarrow> length (sheets wb) \<le> length (sheets wb') \<Longrightarrow> sheets wb' \<noteq> []"
  by auto

lemma keeps_createSheet: "sheets wb \<noteq> [] \<Longrightarrow> sheets (snd (createSheet n wb)) \<noteq> []"
  by (erule keeps_ge) (rule count_createSheet)

lemma keeps_copySheet: "sheets wb \<noteq> [] \<Longrightarrow> sheets (snd (copySheet H n new wb)) \<noteq> []"
  by (erule keeps_ge) (rule count_copySheet)

lemma keeps_applyEffect: "sheets wb \<noteq> [] \<Longrightarrow> sheets (snd (applyEffect H kind a sh wb)) \<noteq> []"
  by (erule keeps_ge) simp

lemma keeps_onActiveSheet: "sheets wb \<noteq> [] \<Longrightarrow> sheets (snd (onActiveSheet H kind a wb)) \<noteq> []"
  by (erule keeps_ge) simp

lemma keeps_namedOrActive: "sheets wb \<noteq> [] \<Longrightarrow> sheets (snd (namedOrActive H kind n a wb)) \<noteq> []"
  by (erule keeps_ge) simp

lemma keeps_viaGetSheet: "sheets wb \<noteq> [] \<Longrightarrow> sheets (snd (viaGetSheet H kind n a wb)) \<noteq> []"
  by (erule keeps_ge) simp

lemma keeps_formatRange: "sheets wb \<noteq> [] \<Longrightarrow> sheets (snd (formatRange H n a wb)) \<noteq> []"
  by (erule keeps_ge) simp

lemma keeps_readRange: "sheets wb \<noteq> [] \<Longrightarrow> sheets (snd (readRange H n a wb)) \<noteq> []"
  by (erule keeps_ge) simp

lemma keeps_copyRange: "sheets wb \<noteq> [] \<Longrightarrow> sheets (snd (copyRange H n m a wb)) \<noteq> []"
  by (erule keeps_ge) simp

lemma keeps_setFormula: "sheets wb \<noteq> [] \<Longrightarrow> sheets (snd (setFormula H n c f fill wb)) \<noteq> []"
  by (erule keeps_ge) simp

lemma keeps_setValues: "sheets wb \<noteq> [] \<Longrightarrow> sheets (snd (setValues H n r vs wb)) \<noteq> []"
  by (erule keeps_ge) simp

lemma keeps_autoFillDown: "sheets wb \<noteq> [] \<Longrightarrow> sheets (snd (autoFillDown H n c l wb)) \<noteq> []"
  by (erule keeps_ge) simp

lemma keeps_deleteRows: "sheets wb \<noteq> [] \<Longrightarrow> sheets (snd (deleteRows n rws cnd wb)) \<noteq> []"
  by (erule keeps_ge) simp

lemma keeps_renameSheet: "sheets wb \<noteq> [] \<Longrightarrow> sheets (snd (renameSheet old new wb)) \<noteq> []"
  by (erule keeps_ge) simp

lemma keeps_executeSheetAction:
  assumes "sheets wb \<noteq> []"
  shows "sheets (snd (executeSheetAction H a wb)) \<noteq> []"
  unfolding executeSheetAction_def Let_def
    applyFilter_def applySort_def applyHighlight_def setCellValue_def
        insertColumn_def createChart_def createChartOnSheet_def createChartFromColumns_def
        deleteChartsOnSheet_def applyNumberFormat_def setBorders_def freeze_def
        autoResizeColumns_def deleteColumns_def mergeCells_def clearRange_def
        conditionalFormat_def setDataValidation_def findReplace_def
  using assms
  by (simp add: keeps_createSheet keeps_copySheet keeps_deleteSheet keeps_applyEffect keeps_onActiveSheet keeps_namedOrActive keeps_viaGetSheet keeps_formatRange keeps_readRange keeps_copyRange keeps_setFormula keeps_setValues keeps_autoFillDown keeps_deleteRows keeps_renameSheet)

lemma keeps_dispatchStep:
  "sheets wb \<noteq> [] \<Longrightarrow> sheets (snd (dispatchStep H st wb)) \<noteq> []"
  by (simp add: dispatchStep_def keeps_executeSheetAction split: option.splits)

lemma keeps_stepLoop:
  "sheets wb \<noteq> [] \<Longrightarrow> sheets (snd (stepLoop H i steps wb)) \<noteq> []"
proof (induction steps arbitrary: i wb)
  case Nil
  then show ?case by simp
next
  case (Cons st rest)
  obtain r wb' where d: "dispatchStep H st wb = (r, wb')" by (cases "dispatchStep H st wb")
  with keeps_dispatchStep [OF Cons.prems, of H st] have ne: "sheets wb' \<noteq> []" by simp
  show ?case
  proof (cases r)
    case (Inl e)
    with d ne show ?thesis by simp
  next
    case (Inr res)
    from ne have "sheets (flush wb') \<noteq> []" by simp
    from Cons.IH [OF this, of "i + 1"] d Inr show ?thesis
      by (auto split: prod.splits)
  qed
qed

lemma keeps_deleteSheetsLoop:
  "sheets wb \<noteq> [] \<Longrightarrow> sheets (snd (deleteSheetsLoop ns rs wb)) \<noteq> []"
proof (induction ns arbitrary: rs wb)
  case Nil
  then show ?case by simp
next
  case (Cons n ns)
  have "1 < length (sheets wb) \<Longrightarrow> sheets (deleteSheetHost n wb) \<noteq> []"
    using length_removeFirst [of "sheets wb" n] by (auto simp: deleteSheetHost_def)
  with Cons show ?case by (simp split: option.splits)
qed

lemma count_clearCellsLoop:
  "length (sheets (snd (clearCellsLoop H es rs wb))) = length (sheets wb)"
proof (induction es arbitrary: rs wb)
  case Nil
  then show ?case by simp
next
  case (Cons e es)
  obtain s r where e: "e = (s, r)" by (cases e)
  show ?case using Cons.IH unfolding e
    by (simp add: rangeClear_def split: option.splits sum.splits)
qed

lemma keeps_undoSheetActions:
  assumes "sheets wb \<noteq> []"
  shows "sheets (snd (undoSheetActions H info wb)) \<noteq> []"
proof (cases info)
  case None
  with assms show ?thesis by (simp add: undoSheetActions_def)
next
  case (Some u)
  obtain rs1 wb1 where l1: "deleteSheetsLoop (sheetsToDelete u) [] wb = (rs1, wb1)"
    by (cases "deleteSheetsLoop (sheetsToDelete u) [] wb")
  with keeps_deleteSheetsLoop [OF assms, of "sheetsToDelete u" "[]"]
  have ne1: "sheets wb1 \<noteq> []" by simp
  obtain r2 wb2 where l2: "clearCellsLoop H (cellsToClear u) rs1 wb1 = (r2, wb2)"
    by (cases "clearCellsLoop H (cellsToClear u) rs1 wb1")
  with count_clearCellsLoop [of H "cellsToClear u" rs1 wb1] ne1
  have ne2: "sheets wb2 \<noteq> []" by auto
  show ?thesis using Some l1 l2 ne2
    by (simp add: undoSheetActions_def split: sum.splits)
qed

lemma last_sheet_deleteSheet: "length (sheets wb) \<le> 1 \<Longrightarrow> snd (deleteSheet n wb) = wb"
  by (simp add: deleteSheet_def split: option.splits)

lemma last_sheet_deleteSheetsLoop:
  "length (sheets wb) \<le> 1 \<Longrightarrow> snd (deleteSheetsLoop ns rs wb) = wb"
  by (induction ns arbitrary: rs) (simp_all split: option.splits)

text \<open>
  Claim C5. A workbook with at least one sheet has at least one sheet after any action that
  \<^verbatim>\<open>executeSheetAction\<close> dispatches, after any plan that \<^verbatim>\<open>executeStepPlan\<close> runs and after
  any \<^verbatim>\<open>undoSheetActions\<close>, whatever the outcome of the operation. The host's own
  \<^verbatim>\<open>deleteSheet\<close> is modelled as removing any sheet, so it is the guards of the script that
  keep the sheet: on a workbook with a single sheet \<^verbatim>\<open>_deleteSheet\<close> and the deletion loop
  of \<^verbatim>\<open>undoSheetActions\<close> leave the workbook exactly as it was.
\<close>

theorem workbook_keeps_a_sheet:
  "sheets wb \<noteq> [] \<longrightarrow>
     sheets (snd (executeSheetAction H a wb)) \<noteq> []
     \<and> sheets (snd (executeStepPlan H steps wb)) \<noteq> []
     \<and> sheets (snd (undoSheetActions H info wb)) \<noteq> []
     \<and> (length (sheets wb) = 1 \<longrightarrow>
          snd (deleteSheet n wb) = wb \<and> snd (deleteSheetsLoop ns rs wb) = wb)"
  using keeps_executeSheetAction [of wb H a] keeps_stepLoop [of wb H 0 steps]
    keeps_undoSheetActions [of wb H info] last_sheet_deleteSheet [of wb n]
    last_sheet_deleteSheetsLoop [of wb ns rs]
  by (simp add: executeStepPlan_def)

theorem workbook_keeps_a_sheet_witness:
  "sheets (snd (executeSheetAction plainHost
                  (untagged\<lparr>action := ''deleteSheet'', name := ''Data''\<rparr>) dataBook)) \<noteq> []
   \<and> sheets (snd (executeStepPlan plainHost fiveSteps dataBook)) \<noteq> []
   \<and> sheets (snd (undoSheetActions plainHost
                     (Some \<lparr>sheetsToDelete = [''Data''], cellsToClear = []\<rparr>) dataBook)) \<noteq> []
   \<and> snd (deleteSheet ''Data'' dataBook) = dataBook
   \<and> snd (deleteSheetsLoop [''Data''] [] dataBook) = dataBook"
proof -
  have h: "sheets dataBook \<noteq> []" by (simp add: dataBook_def)
  have l: "length (sheets dataBook) = 1" by (simp add: dataBook_def)
  from workbook_keeps_a_sheet [of dataBook plainHost
         "untagged\<lparr>action := ''deleteSheet'', name := ''Data''\<rparr>" fiveSteps
         "Some \<lparr>sheetsToDelete = [''Data''], cellsToClear = []\<rparr>" "''Data''" "[''Data'']" "[]"]
    h l
  show ?thesis by blast
qed

subsection \<open>Undo on the last sheet\<close>

lemma names_updateFirst_grid [simp]:
  "map sname (updateFirst n (\<lambda>sh. sh\<lparr>grid := f (grid sh)\<rparr>) shs) = map sname shs"
  by (induction shs) simp_all

lemma getSheetByName_None_iff: "getSheetByName wb n = None \<longleftrightarrow> n \<notin> set (map sname (sheets wb))"
  by (auto simp: getSheetByName_def find_None_iff)

lemma names_rangeClear [simp]: "map sname (sheets (rangeClear s rc wb)) = map sname (sheets wb)"
  by (simp add: rangeClear_def onGrid_def)

lemma found_rangeClear [simp]:
  "getSheetByName (rangeClear s rc wb) n = None \<longleftrightarrow> getSheetByName wb n = None"
  by (simp add: getSheetByName_None_iff)

lemma clearCellsLoop_all:
  assumes "\<forall>(s, r) \<in> set es. \<forall>sh'. getRangeA1 H sh' r = Inr (\<rho> r)"
  shows "clearCellsLoop H es rs wb =
           (Inr (rs @ map (\<lambda>(s, r). ''Cleared '' @ s @ ''!'' @ r)
                        (filter (\<lambda>(s, r). getSheetByName wb s \<noteq> None) es)),
            fold (\<lambda>(s, r). rangeClear s (\<rho> r))
                 (filter (\<lambda>(s, r). getSheetByName wb s \<noteq> None) es) wb)"
  using assms
proof (induction es arbitrary: rs wb)
  case Nil
  then show ?case by simp
next
  case (Cons e es)
  obtain s r where e: "e = (s, r)" by (cases e)
  from Cons.prems e have res: "\<And>sh'. getRangeA1 H sh' r = Inr (\<rho> r)" by auto
  from Cons.prems have rest: "\<forall>(s, r) \<in> set es. \<forall>sh'. getRangeA1 H sh' r = Inr (\<rho> r)" by simp
  show ?case
  proof (cases "getSheetByName wb s")
    case None
    then show ?thesis using Cons.IH [OF rest, of rs wb] e by simp
  next
    case (Some target)
    have same: "filter (\<lambda>(s', r'). getSheetByName (rangeClear s (\<rho> r) wb) s' \<noteq> None) es
                 = filter (\<lambda>(s', r'). getSheetByName wb s' \<noteq> None) es"
      by simp
    show ?thesis
      using Cons.IH [OF rest, of "rs @ [''Cleared '' @ s @ ''!'' @ r]" "rangeClear s (\<rho> r) wb"]
        e Some res
      by (simp add: same)
  qed
qed

lemma single_sheet_lookup:
  "sheets wb = [sh] \<Longrightarrow> getSheetByName wb n = (if n = sname sh then Some sh else None)"
  by (auto simp: getSheetByName_def)

lemma deleteSheetsLoop_single:
  "sheets wb = [sh] \<Longrightarrow>
   deleteSheetsLoop ns rs wb =
     (rs @ map (\<lambda>n. ''Cannot delete '' @ quoted n @ '' (last sheet)'')
               (filter (\<lambda>n. n = sname sh) ns), wb)"
  by (induction ns arbitrary: rs) (simp_all add: single_sheet_lookup)

lemma names_fold_rangeClear:
  "map sname (sheets (fold (\<lambda>(s, r). rangeClear s (\<rho> r)) es wb)) = map sname (sheets wb)"
  by (induction es arbitrary: wb) (auto)

text \<open>
  Claim C6. Let the workbook have a single sheet and let \<^verbatim>\<open>sheetsToDelete\<close> name it. Where
  the host resolves the range of every \<^verbatim>\<open>cellsToClear\<close> entry (to \<open>\<rho> r\<close> for the range text
  \<open>r\<close>), \<^verbatim>\<open>undoSheetActions\<close> returns a message and does not raise: the message joins one
  \<^verbatim>\<open>Cannot delete ... (last sheet)\<close> for each time the sheet is named, and one
  \<^verbatim>\<open>Cleared ...\<close> for each \<^verbatim>\<open>cellsToClear\<close> entry on the sheet; the other \<^verbatim>\<open>sheetsToDelete\<close>
  entries name no sheet and are passed over; the workbook returned is the one given with
  each of those ranges cleared, in order, and it still has its one sheet under its name.
\<close>

theorem undo_keeps_last_sheet_and_clears:
  assumes "sheets wb = [sh]" "sname sh \<in> set (sheetsToDelete u)"
    and "\<forall>(s, r) \<in> set (cellsToClear u). \<forall>sh'. getRangeA1 H sh' r = Inr (\<rho> r)"
  shows "undoSheetActions H (Some u) wb =
           (Inr (join ''; ''
                  (map (\<lambda>n. ''Cannot delete '' @ quoted n @ '' (last sheet)'')
                       (filter (\<lambda>n. n = sname sh) (sheetsToDelete u))
                   @ map (\<lambda>(s, r). ''Cleared '' @ s @ ''!'' @ r)
                         (filter (\<lambda>(s, r). s = sname sh) (cellsToClear u)))),
            fold (\<lambda>(s, r). rangeClear s (\<rho> r))
                 (filter (\<lambda>(s, r). s = sname sh) (cellsToClear u)) wb)
         \<and> map sname (sheets (snd (undoSheetActions H (Some u) wb))) = [sname sh]"
proof -
  let ?guard = "map (\<lambda>n. ''Cannot delete '' @ quoted n @ '' (last sheet)'')
                       (filter (\<lambda>n. n = sname sh) (sheetsToDelete u))"
  have f: "filter (\<lambda>(s, r). getSheetByName wb s \<noteq> None) (cellsToClear u)
             = filter (\<lambda>(s, r). s = sname sh) (cellsToClear u)"
    using single_sheet_lookup [OF assms(1)] by (intro filter_cong) (auto split: if_splits)
  have g: "?guard \<noteq> []" using assms(2) by (auto simp: filter_empty_conv)
  have l1: "deleteSheetsLoop (sheetsToDelete u) [] wb = (?guard, wb)"
    using deleteSheetsLoop_single [OF assms(1), of "sheetsToDelete u" "[]"] by simp
  have l2: "clearCellsLoop H (cellsToClear u) ?guard wb =
           (Inr (?guard @ map (\<lambda>(s, r). ''Cleared '' @ s @ ''!'' @ r)
                        (filter (\<lambda>(s, r). s = sname sh) (cellsToClear u))),
            fold (\<lambda>(s, r). rangeClear s (\<rho> r))
                 (filter (\<lambda>(s, r). s = sname sh) (cellsToClear u)) wb)"
    using clearCellsLoop_all [OF assms(3), of ?guard wb] unfolding f .
  have u: "undoSheetActions H (Some u) wb =
           (Inr (join ''; '' (?guard @ map (\<lambda>(s, r). ''Cleared '' @ s @ ''!'' @ r)
                         (filter (\<lambda>(s, r). s = sname sh) (cellsToClear u)))),
            fold (\<lambda>(s, r). rangeClear s (\<rho> r))
                 (filter (\<lambda>(s, r). s = sname sh) (cellsToClear u)) wb)"
  proof -
    have ne: "?guard @ map (\<lambda>(s, r). ''Cleared '' @ s @ ''!'' @ r)
                         (filter (\<lambda>(s, r). s = sname sh) (cellsToClear u)) \<noteq> []"
      using g by simp
    show ?thesis
      by (simp only: undoSheetActions_def option.case l1 prod.case l2 sum.case ne if_False)
  qed
  show ?thesis
    unfolding u using assms(1) by (simp add: names_fold_rangeClear)
qed

theorem undo_keeps_last_sheet_and_clears_witness:
  "fst (undoSheetActions plainHost (Some summaryUndo) summaryBook)
     = Inr (''Cannot delete '' @ quoted ''Summary''
              @ '' (last sheet); Cleared Summary!A1; Cleared Summary!B2'')
   \<and> map sname (sheets (snd (undoSheetActions plainHost (Some summaryUndo) summaryBook)))
       = [''Summary'']
   \<and> map grid (sheets (snd (undoSheetActions plainHost (Some summaryUndo) summaryBook)))
       = [[[[], ''Total''], [''North'', []]]]"
proof -
  let ?sh = "\<lparr>sname = ''Summary'', grid = [[''Region'', ''Total''], [''North'', ''=SUM(B3:B9)'']]\<rparr>"
  have h1: "sheets summaryBook = [?sh]" by (simp add: summaryBook_def)
  have h2: "sname ?sh \<in> set (sheetsToDelete summaryUndo)" by (simp add: summaryUndo_def)
  have h3: "\<forall>(s, r) \<in> set (cellsToClear summaryUndo).
              \<forall>sh'. getRangeA1 plainHost sh' r = Inr (summaryRanges r)"
    by (simp add: summaryUndo_def plainHost_def cellMatch_def isUpperAZ_def isDigit_def
          parseInt_def letterToColumn_def getRange4_def summaryRanges_def)
  note u = undo_keeps_last_sheet_and_clears [OF h1 h2 h3]
  from u have "undoSheetActions plainHost (Some summaryUndo) summaryBook
      = (Inr (''Cannot delete '' @ quoted ''Summary''
              @ '' (last sheet); Cleared Summary!A1; Cleared Summary!B2''),
         fold (\<lambda>(s, r). rangeClear s (summaryRanges r))
              [(''Summary'', ''A1''), (''Summary'', ''B2'')] summaryBook)"
    by (simp add: summaryUndo_def)
  then show ?thesis
    by (simp add: summaryBook_def summaryRanges_def rangeClear_def onGrid_def issue_def
          clearRect_def rectCells_def setCell_def padTo_def)
qed

subsection \<open>Writing cells\<close>

lemma peek_padTo: "peek (padTo n d xs) k d = peek xs k d"
  unfolding peek_def padTo_def by (auto simp: nth_append)

lemma peek_update: "1 \<le> n \<Longrightarrow> n \<le> length xs \<Longrightarrow> peek (xs[n - 1 := v]) k d = (if k = n then v else peek xs k d)"
  unfolding peek_def by (auto simp: nth_list_update)

lemma length_padTo: "length (padTo n d xs) = max n (length xs)"
  unfolding padTo_def by simp

lemma peek_pad_update:
  "1 \<le> n \<Longrightarrow> peek ((padTo n d xs)[n - 1 := v]) k d = (if k = n then v else peek xs k d)"
  using peek_update [of n "padTo n d xs" v k d] by (simp add: length_padTo peek_padTo)

lemma cellAt_peek: "cellAt g r c = peek (peek g r []) c []"
  by (auto simp: cellAt_def peek_def)

lemma nth_padTo_peek: "1 \<le> i \<Longrightarrow> padTo i d g ! (i - 1) = peek g i d"
  unfolding padTo_def peek_def by (auto simp: nth_append)

lemma cellAt_setCell:
  assumes "1 \<le> i" "1 \<le> j"
  shows "cellAt (setCell i j v g) i' j' = (if i' = i \<and> j' = j then v else cellAt g i' j')"
proof -
  have s: "setCell i j v g = (padTo i [] g)[i - 1 := (padTo j [] (peek g i []))[j - 1 := v]]"
    using assms nth_padTo_peek [OF assms(1), of "[]" g] by (simp add: setCell_def Let_def)
  let ?R = "(padTo j [] (peek g i []))[j - 1 := v]"
  have a: "peek ((padTo i [] g)[i - 1 := ?R]) i' [] = (if i' = i then ?R else peek g i' [])"
    by (rule peek_pad_update [OF assms(1)])
  have b: "peek ?R j' [] = (if j' = j then v else peek (peek g i []) j' [])"
    by (rule peek_pad_update [OF assms(2)])
  show ?thesis
  proof (cases "i' = i")
    case True
    then show ?thesis unfolding s cellAt_peek a using b by simp
  next
    case False
    then show ?thesis unfolding s cellAt_peek a by simp
  qed
qed

lemma length_setCell: "length (setCell i j v g) = (if i = 0 \<or> j = 0 then length g else max i (length g))"
  unfolding setCell_def padTo_def Let_def by auto


lemma cellAt_fold_setCell:
  "(\<forall>(i, j) \<in> set cs. 1 \<le> i \<and> 1 \<le> j) \<Longrightarrow>
   cellAt (fold (\<lambda>(i, j). setCell i j (h i j)) cs g) r c
     = (if (r, c) \<in> set cs then h r c else cellAt g r c)"
proof (induction cs arbitrary: g)
  case Nil
  then show ?case by simp
next
  case (Cons x cs)
  obtain i j where x: "x = (i, j)" by (cases x)
  from Cons.prems x have ij: "1 \<le> i" "1 \<le> j" by auto
  from Cons.prems have rest: "\<forall>(i, j) \<in> set cs. 1 \<le> i \<and> 1 \<le> j" by simp
  show ?case
    using Cons.IH [OF rest, of "setCell i j (h i j) g"] x
    by (auto simp: cellAt_setCell [OF ij])
qed

lemma set_rectCells: "set (rectCells rc) = {(r, c). inRect rc r c}"
  by (auto simp: rectCells_def inRect_def)

lemma cellAt_writeRect:
  assumes "1 \<le> rrow rc" "1 \<le> rcol rc"
  shows "cellAt (writeRect H rc f g) r c
           = (if inRect rc r c then shifted H (r - rrow rc) (c - rcol rc) f else cellAt g r c)"
proof -
  have pos: "\<forall>(i, j) \<in> set (rectCells rc). 1 \<le> i \<and> 1 \<le> j"
    using assms by (auto simp: set_rectCells inRect_def)
  show ?thesis
    unfolding writeRect_def
    using cellAt_fold_setCell [OF pos, of "\<lambda>i j. shifted H (i - rrow rc) (j - rcol rc) f" g r c]
    by (simp add: set_rectCells)
qed

lemma find_updateFirst:
  "find (\<lambda>sh. sname sh = m) (updateFirst n (\<lambda>sh. sh\<lparr>grid := f (grid sh)\<rparr>) shs)
     = map_option (\<lambda>sh. if m = n then sh\<lparr>grid := f (grid sh)\<rparr> else sh)
         (find (\<lambda>sh. sname sh = m) shs)"
  by (induction shs) (auto simp: option.map_ident)

lemma getSheetByName_onGrid:
  "getSheetByName (onGrid n f wb) m
     = map_option (\<lambda>sh. if m = n then sh\<lparr>grid := f (grid sh)\<rparr> else sh) (getSheetByName wb m)"
  by (simp add: getSheetByName_def onGrid_def find_updateFirst)

lemma getSheetByName_issue [simp]: "getSheetByName (issue c wb) m = getSheetByName wb m"
  by (simp add: getSheetByName_def issue_def)

lemma calls_issue [simp]: "calls (issue c wb) = calls wb @ [c]"
  by (simp add: issue_def)

lemma calls_onGrid [simp]: "calls (onGrid n f wb) = calls wb"
  by (simp add: onGrid_def)

lemma setFormula_autoSpill:
  assumes "autoSpillFormulas f" "getSheetByName wb n = Some sh" "getRangeA1 H sh c = Inr rng"
  shows "setFormula H n c f True wb =
           (Inr (''Set formula in '' @ n @ ''!'' @ c @ '' (auto-spill, fillDown skipped)''),
            rangeSetFormula H n rng f wb)"
  using assms by (simp add: setFormula_def Let_def)

lemma setFormula_autoSpill_calls:
  assumes "autoSpillFormulas f"
  shows "calls (snd (setFormula H n c f True wb)) = calls wb
         \<or> (\<exists>rng. calls (snd (setFormula H n c f True wb)) = calls wb @ [Call_setFormula n rng f])"
  using assms
  by (auto simp: setFormula_def Let_def rangeSetFormula_def split: option.splits sum.splits)

lemma rangeSetFormula_sheet:
  assumes "getSheetByName wb n = Some sh"
  shows "getSheetByName (rangeSetFormula H n rng f wb) n
           = Some (sh\<lparr>grid := writeRect H rng f (grid sh)\<rparr>)"
  using assms by (simp add: rangeSetFormula_def getSheetByName_onGrid)

subsection \<open>Formulas that spill\<close>

text \<open>
  Claim C4. Let \<^verbatim>\<open>setFormula\<close> be called with \<^verbatim>\<open>fillDown\<close> set and a formula that the
  pattern of the script classifies as auto-spill. Whatever the workbook, the call issues no
  copy and no flush: it issues nothing, or the one \<^verbatim>\<open>setFormula\<close> of the host. Where the sheet
  exists and the host resolves the cell reference, the call returns, as a result and not as an
  exception, the message that ends in \<^verbatim>\<open>(auto-spill, fillDown skipped)\<close>; the formula is in
  the first cell of the range the host resolved, and no cell outside that range has changed.
\<close>

theorem setFormula_autoSpill_skips_fillDown:
  "autoSpillFormulas f \<longrightarrow>
     (calls (snd (setFormula H n c f True wb)) = calls wb
      \<or> (\<exists>rng. calls (snd (setFormula H n c f True wb)) = calls wb @ [Call_setFormula n rng f]))
     \<and> (getSheetByName wb n = Some sh \<and> getRangeA1 H sh c = Inr rng \<longrightarrow>
          setFormula H n c f True wb =
            (Inr (''Set formula in '' @ n @ ''!'' @ c @ '' (auto-spill, fillDown skipped)''),
             rangeSetFormula H n rng f wb)
          \<and> calls (rangeSetFormula H n rng f wb) = calls wb @ [Call_setFormula n rng f]
          \<and> getSheetByName (rangeSetFormula H n rng f wb) n
               = Some (sh\<lparr>grid := writeRect H rng f (grid sh)\<rparr>)
          \<and> (1 \<le> rrow rng \<and> 1 \<le> rcol rng \<and> 1 \<le> nrows rng \<and> 1 \<le> ncols rng \<longrightarrow>
               cellAt (writeRect H rng f (grid sh)) (rrow rng) (rcol rng) = f
               \<and> (\<forall>r c'. \<not> inRect rng r c' \<longrightarrow>
                     cellAt (writeRect H rng f (grid sh)) r c' = cellAt (grid sh) r c')))"
proof (intro impI conjI)
  assume a: "autoSpillFormulas f"
  show "calls (snd (setFormula H n c f True wb)) = calls wb
      \<or> (\<exists>rng. calls (snd (setFormula H n c f True wb)) = calls wb @ [Call_setFormula n rng f])"
    by (rule setFormula_autoSpill_calls [OF a])
next
  assume a: "autoSpillFormulas f"
    and b: "getSheetByName wb n = Some sh \<and> getRangeA1 H sh c = Inr rng"
  show "setFormula H n c f True wb =
            (Inr (''Set formula in '' @ n @ ''!'' @ c @ '' (auto-spill, fillDown skipped)''),
             rangeSetFormula H n rng f wb)"
    using setFormula_autoSpill [OF a, of wb n sh H c rng] b by blast
  show "calls (rangeSetFormula H n rng f wb) = calls wb @ [Call_setFormula n rng f]"
    by (simp add: rangeSetFormula_def)
  show "getSheetByName (rangeSetFormula H n rng f wb) n
               = Some (sh\<lparr>grid := writeRect H rng f (grid sh)\<rparr>)"
    using rangeSetFormula_sheet [of wb n sh H rng f] b by blast
next
  assume p: "1 \<le> rrow rng \<and> 1 \<le> rcol rng \<and> 1 \<le> nrows rng \<and> 1 \<le> ncols rng"
  then have pos: "1 \<le> rrow rng" "1 \<le> rcol rng" by simp_all
  from p have "inRect rng (rrow rng) (rcol rng)" by (simp add: inRect_def)
  then show "cellAt (writeRect H rng f (grid sh)) (rrow rng) (rcol rng) = f"
    by (simp add: cellAt_writeRect [OF pos] shifted_def)
  show "\<forall>r c'. \<not> inRect rng r c' \<longrightarrow>
          cellAt (writeRect H rng f (grid sh)) r c' = cellAt (grid sh) r c'"
    by (simp add: cellAt_writeRect [OF pos])
qed

theorem setFormula_autoSpill_skips_fillDown_witness:
  "autoSpillFormulas uniqueFormula
   \<and> setFormula plainHost ''Data'' ''C2'' uniqueFormula True salesBook =
       (Inr (''Set formula in '' @ ''Data'' @ ''!'' @ ''C2'' @ '' (auto-spill, fillDown skipped)''),
        rangeSetFormula plainHost ''Data'' (Rect 2 3 1 1) uniqueFormula salesBook)
   \<and> calls (rangeSetFormula plainHost ''Data'' (Rect 2 3 1 1) uniqueFormula salesBook)
       = calls salesBook @ [Call_setFormula ''Data'' (Rect 2 3 1 1) uniqueFormula]
   \<and> cellAt (writeRect plainHost (Rect 2 3 1 1) uniqueFormula salesRows) 2 3 = uniqueFormula"
proof -
  let ?sh = "\<lparr>sname = ''Data'', grid = salesRows\<rparr>"
  have a: "autoSpillFormulas uniqueFormula"
    by (simp add: uniqueFormula_def autoSpillFormulas_def autoSpillNames_def opensCall_def
          toUpperCase_def isSpace_def)
  have b: "getSheetByName salesBook ''Data'' = Some ?sh
           \<and> getRangeA1 plainHost ?sh ''C2'' = Inr (Rect 2 3 1 1)"
    by (simp add: salesBook_def getSheetByName_def plainHost_def cellMatch_def isUpperAZ_def
          isDigit_def parseInt_def letterToColumn_def getRange4_def)
  have p: "1 \<le> rrow (Rect 2 3 1 1) \<and> 1 \<le> rcol (Rect 2 3 1 1) \<and> 1 \<le> nrows (Rect 2 3 1 1)
           \<and> 1 \<le> ncols (Rect 2 3 1 1)" by simp
  from setFormula_autoSpill_skips_fillDown
         [of uniqueFormula plainHost "''Data''" "''C2''" salesBook ?sh "Rect 2 3 1 1"] a b p
  show ?thesis by simp
qed

subsection \<open>The extent of a fill-down\<close>

lemma length_takeWhile_le_index:
  "i < length xs \<Longrightarrow> \<not> P (xs ! i) \<Longrightarrow> length (takeWhile P xs) \<le> i"
proof (rule ccontr)
  assume i: "i < length xs" and n: "\<not> P (xs ! i)" and c: "\<not> length (takeWhile P xs) \<le> i"
  then have lt: "i < length (takeWhile P xs)" by simp
  then have "takeWhile P xs ! i = xs ! i" by (rule takeWhile_nth)
  moreover have "takeWhile P xs ! i \<in> set (takeWhile P xs)" using lt by simp
  ultimately have "P (xs ! i)" using set_takeWhileD by metis
  with n show False by simp
qed

lemma getLastRow_le: "getLastRow g \<le> length g"
  by (simp add: getLastRow_def)

lemma getLastRow_ge:
  assumes "cellAt g r c \<noteq> []"
  shows "r \<le> getLastRow g"
proof -
  from assms have r: "1 \<le> r" "r \<le> length g" and c: "1 \<le> c" "c \<le> length (g ! (r - 1))"
    and v: "g ! (r - 1) ! (c - 1) \<noteq> []"
    by (auto simp: cellAt_def split: if_splits)
  have "c - 1 < length (g ! (r - 1))" using c by simp
  with v have "\<exists>k < length (g ! (r - 1)). g ! (r - 1) ! k \<noteq> []" by blast
  then have nb: "\<not> rowBlank (g ! (r - 1))"
    by (simp add: rowBlank_def list_all_length)
  have idx: "length g - r < length (rev g)" using r by simp
  have "rev g ! (length g - r) = g ! (r - 1)"
    using r by (simp add: rev_nth)
  with nb have "\<not> rowBlank (rev g ! (length g - r))" by simp
  from length_takeWhile_le_index [of "length g - r" "rev g" rowBlank, OF idx this]
  have "length (takeWhile rowBlank (rev g)) \<le> length g - r" .
  then show ?thesis using r by (simp add: getLastRow_def)
qed

lemma length_fold_setCell:
  "(\<forall>(i, j) \<in> set cs. i \<le> length g) \<Longrightarrow>
   length (fold (\<lambda>(i, j). setCell i j (h i j)) cs g) = length g"
proof (induction cs arbitrary: g)
  case Nil
  then show ?case by simp
next
  case (Cons x cs)
  obtain i j where x: "x = (i, j)" by (cases x)
  from Cons.prems x have i: "i \<le> length g" by auto
  have l: "length (setCell i j (h i j) g) = length g"
    using i by (simp add: length_setCell max_def)
  from Cons.prems have "\<forall>(i, j) \<in> set cs. i \<le> length (setCell i j (h i j) g)"
    using l by (auto simp: length_setCell max_def)
  then have rest: "\<forall>(i', j') \<in> set cs. i' \<le> length (setCell i j (h i j) g)"
    using Cons.prems l by auto
  show ?case using Cons.IH [OF rest] l x by simp
qed

lemma length_writeRect:
  "rrow rc + nrows rc \<le> Suc (length g) \<Longrightarrow> length (writeRect H rc f g) = length g"
  unfolding writeRect_def
  by (rule length_fold_setCell) (auto simp: set_rectCells inRect_def)

lemma sheetLastRow_written:
  "getSheetByName wb n = Some sh \<Longrightarrow>
   sheetLastRow (flush (rangeSetFormula H n rng f wb)) n = getLastRow (writeRect H rng f (grid sh))"
  by (simp add: sheetLastRow_def flush_def rangeSetFormula_def getSheetByName_onGrid)

lemma setFormula_fillDown:
  assumes "\<not> autoSpillFormulas f" "getSheetByName wb n = Some sh" "getRangeA1 H sh c = Inr rng"
    and "cellMatch c = Some (ls, ds)" "1 \<le> parseInt ds" "1 \<le> letterToColumn ls"
    and "parseInt ds < getLastRow (writeRect H rng f (grid sh))"
  shows "setFormula H n c f True wb =
           (Inr (''Set formula in '' @ n @ ''!'' @ c @ '' (filled down)''),
            copyTo H n (Rect (parseInt ds) (nat (letterToColumn ls)) 1 1)
              (Rect (parseInt ds) (nat (letterToColumn ls))
                 (getLastRow (writeRect H rng f (grid sh)) - parseInt ds + 1) 1)
              (flush (rangeSetFormula H n rng f wb)))"
proof -
  let ?L = "getLastRow (writeRect H rng f (grid sh))"
  have n1: "nat (int ?L - int (parseInt ds) + 1) = ?L - parseInt ds + 1"
    using assms(7) by simp
  show ?thesis
    using assms n1
    by (simp add: setFormula_def Let_def sheetLastRow_written getRange4_def)
qed


lemma remark_len: "length remarkRows = 20"
  by (simp add: remarkRows_def salesRows_def)

lemma remark_D20: "cellAt remarkRows 20 4 = ''checked''"
  by (simp add: cellAt_def remarkRows_def salesRows_def)

lemma remark_lastRow:
  "getLastRow (writeRect plainHost (Rect 2 2 1 1) sumifFormula remarkRows) = 20"
proof -
  let ?g = "writeRect plainHost (Rect 2 2 1 1) sumifFormula remarkRows"
  have len: "length ?g = 20"
    using length_writeRect [of "Rect 2 2 1 1" remarkRows plainHost sumifFormula]
    by (simp add: remark_len)
  have "cellAt ?g 20 4 = ''checked''"
    using cellAt_writeRect [of "Rect 2 2 1 1" plainHost sumifFormula remarkRows 20 4]
    by (simp add: inRect_def remark_D20)
  then have "cellAt ?g 20 4 \<noteq> []" by simp
  then have "20 \<le> getLastRow ?g" by (rule getLastRow_ge)
  moreover have "getLastRow ?g \<le> 20" using getLastRow_le [of ?g] len by simp
  ultimately show ?thesis by simp
qed

lemma remark_columnA: "lastPopulatedRow remarkRows 1 = 11"
  by (simp add: lastPopulatedRow_def getValues_def cellAt_def remarkRows_def salesRows_def
        getLastRow_def rowBlank_def)

lemma sumif_not_spill: "\<not> autoSpillFormulas sumifFormula"
  by (simp add: sumifFormula_def autoSpillFormulas_def autoSpillNames_def opensCall_def
        toUpperCase_def isSpace_def)


lemma sales_lastRow:
  "getLastRow (writeRect plainHost (Rect 2 2 1 1) sumifFormula salesRows) = 11"
proof -
  let ?g = "writeRect plainHost (Rect 2 2 1 1) sumifFormula salesRows"
  have l0: "length salesRows = 11" by (simp add: salesRows_def)
  have len: "length ?g = 11"
    using length_writeRect [of "Rect 2 2 1 1" salesRows plainHost sumifFormula]
    by (simp add: l0)
  have "cellAt ?g 11 1 = ''South''"
    using cellAt_writeRect [of "Rect 2 2 1 1" plainHost sumifFormula salesRows 11 1]
    by (simp add: inRect_def cellAt_def salesRows_def)
  then have "cellAt ?g 11 1 \<noteq> []" by simp
  then have "11 \<le> getLastRow ?g" by (rule getLastRow_ge)
  moreover have "getLastRow ?g \<le> 11" using getLastRow_le [of ?g] len by simp
  ultimately show ?thesis by simp
qed

lemma B2_facts:
  "cellMatch ''B2'' = Some (''B'', ''2'')" "parseInt ''2'' = 2" "letterToColumn ''B'' = 2"
  "getRangeA1 plainHost sh ''B2'' = Inr (Rect 2 2 1 1)"
  by (simp_all add: cellMatch_def isUpperAZ_def isDigit_def parseInt_def letterToColumn_def
        plainHost_def getRange4_def)

lemma fill_remark:
  "setFormula plainHost ''Data'' ''B2'' sumifFormula True remarkBook =
     (Inr ''Set formula in Data!B2 (filled down)'',
      copyTo plainHost ''Data'' (Rect 2 2 1 1) (Rect 2 2 19 1)
        (flush (rangeSetFormula plainHost ''Data'' (Rect 2 2 1 1) sumifFormula remarkBook)))"
proof -
  let ?sh = "\<lparr>sname = ''Data'', grid = remarkRows\<rparr>"
  have sh: "getSheetByName remarkBook ''Data'' = Some ?sh"
    by (simp add: remarkBook_def getSheetByName_def)
  have lr: "parseInt ''2'' < getLastRow (writeRect plainHost (Rect 2 2 1 1) sumifFormula (grid ?sh))"
    using remark_lastRow by (simp add: B2_facts)
  from setFormula_fillDown [OF sumif_not_spill sh B2_facts(4) B2_facts(1) _ _ lr]
  show ?thesis using remark_lastRow by (simp add: B2_facts)
qed

lemma fill_sales:
  "setFormula plainHost ''Data'' ''B2'' sumifFormula True salesBook =
     (Inr ''Set formula in Data!B2 (filled down)'',
      copyTo plainHost ''Data'' (Rect 2 2 1 1) (Rect 2 2 10 1)
        (flush (rangeSetFormula plainHost ''Data'' (Rect 2 2 1 1) sumifFormula salesBook)))"
proof -
  let ?sh = "\<lparr>sname = ''Data'', grid = salesRows\<rparr>"
  have sh: "getSheetByName salesBook ''Data'' = Some ?sh"
    by (simp add: salesBook_def getSheetByName_def)
  have lr: "parseInt ''2'' < getLastRow (writeRect plainHost (Rect 2 2 1 1) sumifFormula (grid ?sh))"
    using sales_lastRow by (simp add: B2_facts)
  from setFormula_fillDown [OF sumif_not_spill sh B2_facts(4) B2_facts(1) _ _ lr]
  show ?thesis using sales_lastRow by (simp add: B2_facts)
qed

lemma copyTo_cell:
  assumes "getSheetByName wb n = Some sh" "1 \<le> rrow dst" "1 \<le> rcol dst"
  shows "map_option (\<lambda>s. cellAt (grid s) r c) (getSheetByName (copyTo H n src dst wb) n)
           = Some (if inRect dst r c
                   then shifted H (r - rrow dst) (c - rcol dst) (cellAt (grid sh) (rrow src) (rcol src))
                   else cellAt (grid sh) r c)"
  using assms by (simp add: copyTo_def getSheetByName_onGrid cellAt_writeRect)

text \<open>
  Claim C2 says that a fill-down reaches the last populated row of the column next to the
  formula cell. The script computes that column (\<^verbatim>\<open>refCol\<close>) and then does not use it: the
  extent is \<^verbatim>\<open>sheet.getLastRow()\<close>, the last row of the whole sheet with content (lemma
  \<open>setFormula_fillDown\<close>). On a sheet with nothing below the data of column A the two agree
  (lemma \<open>fill_sales\<close>: rows 2 to 11). The theorem evaluates the script on the sheet with
  a remark in D20: the column next to B2 is column A, whose last populated row is 11, and
  the script copies B2 down to row 20, so that cell B20, empty before, holds the formula.
\<close>

theorem fillDown_extent_at_remark_sheet:
  "adjacentColumn (letterToColumn ''B'') = 1
   \<and> lastPopulatedRow remarkRows (nat (adjacentColumn (letterToColumn ''B''))) = 11
   \<and> setFormula plainHost ''Data'' ''B2'' sumifFormula True remarkBook =
       (Inr ''Set formula in Data!B2 (filled down)'',
        copyTo plainHost ''Data'' (Rect 2 2 1 1) (Rect 2 2 19 1)
          (flush (rangeSetFormula plainHost ''Data'' (Rect 2 2 1 1) sumifFormula remarkBook)))
   \<and> calls (snd (setFormula plainHost ''Data'' ''B2'' sumifFormula True remarkBook)) =
       [Call_setFormula ''Data'' (Rect 2 2 1 1) sumifFormula, Call_flush,
        Call_copyTo ''Data'' (Rect 2 2 1 1) (Rect 2 2 19 1)]
   \<and> map_option (\<lambda>s. cellAt (grid s) 20 2)
         (getSheetByName (snd (setFormula plainHost ''Data'' ''B2'' sumifFormula True remarkBook))
            ''Data'') = Some sumifFormula
   \<and> cellAt remarkRows 20 2 = []"
proof -
  let ?sh = "\<lparr>sname = ''Data'', grid = remarkRows\<rparr>"
  let ?wb1 = "flush (rangeSetFormula plainHost ''Data'' (Rect 2 2 1 1) sumifFormula remarkBook)"
  have adj: "adjacentColumn (letterToColumn ''B'') = 1"
    by (simp add: adjacentColumn_def B2_facts)
  have sh: "getSheetByName remarkBook ''Data'' = Some ?sh"
    by (simp add: remarkBook_def getSheetByName_def)
  have sh1: "getSheetByName ?wb1 ''Data''
               = Some (?sh\<lparr>grid := writeRect plainHost (Rect 2 2 1 1) sumifFormula remarkRows\<rparr>)"
    using rangeSetFormula_sheet [OF sh, of plainHost "Rect 2 2 1 1" sumifFormula]
    by (simp add: flush_def)
  have src: "cellAt (writeRect plainHost (Rect 2 2 1 1) sumifFormula remarkRows) 2 2 = sumifFormula"
    using cellAt_writeRect [of "Rect 2 2 1 1" plainHost sumifFormula remarkRows 2 2]
    by (simp add: inRect_def shifted_def)
  have cell: "map_option (\<lambda>s. cellAt (grid s) 20 2)
         (getSheetByName (copyTo plainHost ''Data'' (Rect 2 2 1 1) (Rect 2 2 19 1) ?wb1) ''Data'')
       = Some sumifFormula"
    using copyTo_cell [OF sh1, of "Rect 2 2 19 1" 20 2 plainHost "Rect 2 2 1 1"] src
    by (simp add: inRect_def shifted_def plainHost_def)
  have cs: "calls (copyTo plainHost ''Data'' (Rect 2 2 1 1) (Rect 2 2 19 1) ?wb1) =
       [Call_setFormula ''Data'' (Rect 2 2 1 1) sumifFormula, Call_flush,
        Call_copyTo ''Data'' (Rect 2 2 1 1) (Rect 2 2 19 1)]"
    by (simp add: copyTo_def flush_def rangeSetFormula_def remarkBook_def)
  have b20: "cellAt remarkRows 20 2 = []"
    by (simp add: cellAt_def remarkRows_def salesRows_def)
  show ?thesis
    unfolding fill_remark using adj remark_columnA cell cs b20 by simp
qed

subsection \<open>Deleting rows\<close>

lemma desc_gap:
  "sorted_wrt (>) (xs :: int list) \<Longrightarrow> i + d < length xs \<Longrightarrow> xs ! (i + d) \<le> xs ! i - int d"
proof (induction d)
  case 0
  then show ?case by simp
next
  case (Suc d)
  from Suc.prems have "xs ! (i + d) > xs ! (i + Suc d)"
    using sorted_wrt_nth_less [of "(>)" xs "i + d" "i + Suc d"] by simp
  moreover from Suc have "xs ! (i + d) \<le> xs ! i - int d" by simp
  ultimately show ?case by simp
qed

lemma runLength_spec:
  assumes "sorted_wrt (>) xs"
  shows "i + c \<le> length xs \<Longrightarrow> (\<forall>j < c. xs ! (i + j) = start - int j) \<Longrightarrow>
         c \<le> runLength xs i start c
         \<and> i + runLength xs i start c \<le> length xs
         \<and> (\<forall>j < runLength xs i start c. xs ! (i + j) = start - int j)
         \<and> (i + runLength xs i start c < length xs \<longrightarrow>
              xs ! (i + runLength xs i start c) \<noteq> start - int (runLength xs i start c))"
proof (induction xs i start c rule: runLength.induct)
  case (1 rs i start count)
  show ?case
  proof (cases "i + count < length rs \<and> rs ! (i + count) = start - int count")
    case True
    then have eq: "runLength rs i start count = runLength rs i start (Suc count)"
      by (subst runLength.simps) simp
    have p1: "i + Suc count \<le> length rs" using True by simp
    have p2: "\<forall>j < Suc count. rs ! (i + j) = start - int j"
      using "1.prems"(2) True by (auto simp: less_Suc_eq)
    from "1.IH" [OF True p1 p2] show ?thesis unfolding eq by auto
  next
    case False
    then have eq: "runLength rs i start count = count"
      by (subst runLength.simps) auto
    show ?thesis unfolding eq using "1.prems" False by auto
  qed
qed

lemma runLength_first:
  assumes "sorted_wrt (>) xs" "i < length xs"
  shows "1 \<le> runLength xs i (xs ! i) 1
         \<and> i + runLength xs i (xs ! i) 1 \<le> length xs
         \<and> (\<forall>j < runLength xs i (xs ! i) 1. xs ! (i + j) = xs ! i - int j)
         \<and> (i + runLength xs i (xs ! i) 1 < length xs \<longrightarrow>
              xs ! (i + runLength xs i (xs ! i) 1) < xs ! i - int (runLength xs i (xs ! i) 1))"
proof -
  let ?k = "runLength xs i (xs ! i) 1"
  have a: "i + 1 \<le> length xs" using assms(2) by simp
  have b: "\<forall>j < (1::nat). xs ! (i + j) = xs ! i - int j" by simp
  note s = runLength_spec [OF assms(1) a b]
  have "i + ?k < length xs \<longrightarrow> xs ! (i + ?k) < xs ! i - int ?k"
  proof
    assume lt: "i + ?k < length xs"
    with s have ne: "xs ! (i + ?k) \<noteq> xs ! i - int ?k" by blast
    from desc_gap [OF assms(1) lt] have "xs ! (i + ?k) \<le> xs ! i - int ?k" .
    with ne show "xs ! (i + ?k) < xs ! i - int ?k" by simp
  qed
  with s show ?thesis by blast
qed


lemma deleteRowsHost_ok:
  assumes "getSheetByName wb n = Some sh" "1 \<le> pos" "1 \<le> cnt"
    and "pos + cnt - 1 \<le> int (length (grid sh))" "cnt < int (length (grid sh))"
  shows "\<exists>wb' sh'. deleteRowsHost n pos cnt wb = Inr wb'
           \<and> calls wb' = calls wb @ [Call_deleteRows n pos cnt]
           \<and> getSheetByName wb' n = Some sh'
           \<and> int (length (grid sh')) = int (length (grid sh)) - cnt"
proof -
  let ?f = "\<lambda>g :: grid. take (nat pos - 1) g @ drop (nat pos - 1 + nat cnt) g"
  let ?wb' = "issue (Call_deleteRows n pos cnt) (onGrid n ?f wb)"
  have d: "deleteRowsHost n pos cnt wb = Inr ?wb'"
    using assms by (simp add: deleteRowsHost_def)
  have s: "getSheetByName ?wb' n = Some (sh\<lparr>grid := ?f (grid sh)\<rparr>)"
    using assms(1) by (simp add: getSheetByName_onGrid)
  have l: "int (length (?f (grid sh))) = int (length (grid sh)) - cnt"
    using assms(2-5) by (simp add: min_def)
  show ?thesis using d s l by (intro exI [of _ ?wb'] exI [of _ "sh\<lparr>grid := ?f (grid sh)\<rparr>"]) simp
qed

lemma rev_upto_run: "rev [a - int k + 1 .. a] = map (\<lambda>j. a - int j) [0 ..< k]"
proof (induction k)
  case 0
  then show ?case by simp
next
  case (Suc k)
  have "[a - int (Suc k) + 1 .. a] = (a - int k) # [a - int k + 1 .. a]"
    by (subst upto_rec1) simp_all
  then show ?case using Suc by simp
qed

lemma take_drop_run:
  assumes "i + k \<le> length xs" "\<forall>j < k. xs ! (i + j) = a - int j"
  shows "take k (drop i xs) = map (\<lambda>j. a - int j) [0 ..< k]"
  using assms by (intro nth_equalityI) simp_all

lemma rowsOf_run:
  assumes "i + k \<le> length xs" "\<forall>j < k. xs ! (i + j) = a - int j"
  shows "rowsOf (a - int k + 1, int k) @ drop (i + k) xs = drop i xs"
proof -
  have "rowsOf (a - int k + 1, int k) = rev [a - int k + 1 .. a]"
    by (simp add: rowsOf_def)
  also have "\<dots> = take k (drop i xs)"
    using rev_upto_run [of a k] take_drop_run [OF assms] by simp
  finally have "rowsOf (a - int k + 1, int k) = take k (drop i xs)" .
  moreover have "drop (i + k) xs = drop k (drop i xs)" by (simp add: add.commute)
  moreover have "take k (drop i xs) @ drop k (drop i xs) = drop i xs"
    by (rule append_take_drop_id)
  ultimately show ?thesis by (simp only:)
qed

lemma deleteLoop_batches:
  assumes sd: "sorted_wrt (>) xs" and ps: "\<forall>r \<in> set xs. 1 \<le> r"
  shows "i \<le> length xs \<Longrightarrow> getSheetByName wb n = Some sh \<Longrightarrow>
         int (length (grid sh)) = L - int i \<Longrightarrow> (xs \<noteq> [] \<longrightarrow> xs ! 0 \<le> L) \<Longrightarrow>
         int (length xs) < L \<Longrightarrow>
         \<exists>bs wb' sh'. deleteLoop n xs i d wb = (Inr (d + int (length xs - i)), wb')
            \<and> calls wb' = calls wb @ map (\<lambda>(p, c). Call_deleteRows n p c) bs
            \<and> separated bs \<and> concat (map rowsOf bs) = drop i xs
            \<and> (i = length xs \<longrightarrow> bs = [])
            \<and> (i < length xs \<longrightarrow> bs \<noteq> [] \<and> fst (hd bs) + snd (hd bs) - 1 = xs ! i)
            \<and> getSheetByName wb' n = Some sh'
            \<and> int (length (grid sh')) = L - int (length xs)"
  using sd ps
proof (induction n xs i d wb arbitrary: sh rule: deleteLoop.induct)
  case (1 n rs i deleted wb)
  note sd = "1.prems"(6) and ps = "1.prems"(7)
  show ?case
  proof (cases "i < length rs")
    case False
    with "1.prems"(1) have e: "i = length rs" by simp
    have "deleteLoop n rs i deleted wb = (Inr deleted, wb)"
      using False by (subst deleteLoop.simps) simp
    then show ?thesis using e "1.prems"(2,3)
      by (intro exI [of _ "[]"] exI [of _ wb] exI [of _ sh]) simp
  next
    case True
    let ?k = "runLength rs i (rs ! i) 1"
    let ?pos = "rs ! i - int ?k + 1"
    note run = runLength_first [OF sd True]
    from run have k1: "1 \<le> ?k" and kle: "i + ?k \<le> length rs"
      and runeq: "\<forall>j < ?k. rs ! (i + j) = rs ! i - int j"
      and gap: "i + ?k < length rs \<longrightarrow> rs ! (i + ?k) < rs ! i - int ?k"
      by blast+
    have "?k - 1 < ?k" using k1 by simp
    with runeq have low: "rs ! (i + (?k - 1)) = rs ! i - int (?k - 1)" by blast
    have "i + (?k - 1) < length rs" using kle k1 by simp
    then have "rs ! (i + (?k - 1)) \<in> set rs" by simp
    with ps have "1 \<le> rs ! (i + (?k - 1))" by blast
    with low k1 have h1: "1 \<le> ?pos" by simp
    have h2: "1 \<le> int ?k" using k1 by simp
    have ne: "rs \<noteq> []" using True by auto
    have "rs ! (0 + i) \<le> rs ! 0 - int i" using desc_gap [OF sd, of 0 i] True by simp
    with "1.prems"(4) ne have top: "rs ! i \<le> L - int i" by simp
    then have h3: "?pos + int ?k - 1 \<le> int (length (grid sh))" using "1.prems"(3) by simp
    have h4: "int ?k < int (length (grid sh))" using kle "1.prems"(3,5) by simp
    from deleteRowsHost_ok [OF "1.prems"(2) h1 h2 h3 h4]
    obtain wb1 sh1 where host: "deleteRowsHost n ?pos (int ?k) wb = Inr wb1"
      and c1: "calls wb1 = calls wb @ [Call_deleteRows n ?pos (int ?k)]"
      and s1: "getSheetByName wb1 n = Some sh1"
      and l1: "int (length (grid sh1)) = int (length (grid sh)) - int ?k"
      by blast
    have l1': "int (length (grid sh1)) = L - int (i + ?k)" using l1 "1.prems"(3) by simp
    from "1.IH" [OF True host kle s1 l1' "1.prems"(4) "1.prems"(5) sd ps,
                 of ]
    obtain bs wb' sh' where
      r: "deleteLoop n rs (i + ?k) (deleted + int ?k) wb'
            = deleteLoop n rs (i + ?k) (deleted + int ?k) wb'"
      and loop: "deleteLoop n rs (i + ?k) (deleted + int ?k) wb1
                   = (Inr (deleted + int ?k + int (length rs - (i + ?k))), wb')"
      and cs: "calls wb' = calls wb1 @ map (\<lambda>(p, c). Call_deleteRows n p c) bs"
      and sep: "separated bs" and cat: "concat (map rowsOf bs) = drop (i + ?k) rs"
      and emp: "i + ?k = length rs \<longrightarrow> bs = []"
      and hd: "i + ?k < length rs \<longrightarrow> bs \<noteq> [] \<and> fst (hd bs) + snd (hd bs) - 1 = rs ! (i + ?k)"
      and s': "getSheetByName wb' n = Some sh'"
      and l': "int (length (grid sh')) = L - int (length rs)"
      by blast
    have unfold: "deleteLoop n rs i deleted wb
                    = deleteLoop n rs (i + ?k) (deleted + int ?k) wb1"
      using True host by (subst deleteLoop.simps) simp
    have res: "deleteLoop n rs i deleted wb = (Inr (deleted + int (length rs - i)), wb')"
      unfolding unfold loop using kle by simp
    have sep': "separated ((?pos, int ?k) # bs)"
    proof (cases bs)
      case Nil
      then show ?thesis using h2 by simp
    next
      case (Cons b bs')
      obtain p' c' where b: "b = (p', c')" by (cases b)
      from Cons emp have "i + ?k \<noteq> length rs" by auto
      with kle have lt: "i + ?k < length rs" by simp
      with hd Cons b have "p' + c' - 1 = rs ! (i + ?k)" by simp
      with gap lt have "p' + c' < ?pos" by simp
      then show ?thesis using Cons b sep h2 by simp
    qed
    have cat': "concat (map rowsOf ((?pos, int ?k) # bs)) = drop i rs"
      using rowsOf_run [OF kle runeq] cat by simp
    show ?thesis
      using res c1 cs sep' cat' s' l' True
      by (intro exI [of _ "(?pos, int ?k) # bs"] exI [of _ wb'] exI [of _ sh']) simp
  qed
qed


lemma getSheet_byName: "getSheet wb n = Inr sh \<Longrightarrow> getSheetByName wb (sname sh) = Some sh"
proof -
  assume g: "getSheet wb n = Inr sh"
  have f: "\<And>m. find (\<lambda>s. sname s = m) (sheets wb) = Some sh
              \<Longrightarrow> find (\<lambda>s. sname s = sname sh) (sheets wb) = Some sh"
  proof -
    fix m assume a: "find (\<lambda>s. sname s = m) (sheets wb) = Some sh"
    then have "sname sh = m" by (auto simp: find_Some_iff)
    with a show "find (\<lambda>s. sname s = sname sh) (sheets wb) = Some sh" by simp
  qed
  show ?thesis
  proof (cases "n = []")
    case False
    with g have "find (\<lambda>s. sname s = n) (sheets wb) = Some sh"
      by (auto simp: getSheet_def getSheetByName_def split: option.splits)
    from f [OF this] show ?thesis by (simp add: getSheetByName_def)
  next
    case True
    with g have a: "getActiveSheet wb = Some sh"
      by (auto simp: getSheet_def split: option.splits)
    show ?thesis
    proof (cases "find (\<lambda>s. sname s = active wb) (sheets wb)")
      case (Some s)
      with a have "find (\<lambda>s. sname s = active wb) (sheets wb) = Some sh"
        by (simp add: getActiveSheet_def)
      from f [OF this] show ?thesis by (simp add: getSheetByName_def)
    next
      case None
      with a obtain rest where "sheets wb = sh # rest"
        by (auto simp: getActiveSheet_def split: list.splits)
      then show ?thesis by (simp add: getSheetByName_def)
    qed
  qed
qed

lemma desc_sort: "distinct (rs :: int list) \<Longrightarrow> sorted_wrt (>) (rev (sort rs))"
proof -
  assume "distinct rs"
  then have "sorted_wrt (<) (sort rs)" by (simp add: strict_sorted_iff)
  then show ?thesis by (simp add: sorted_wrt_rev)
qed

lemma scanRows_props:
  "sorted_wrt (>) (scanRows cnd vals k)
   \<and> (\<forall>x \<in> set (scanRows cnd vals k). 2 \<le> x \<and> x \<le> int k + 1)
   \<and> length (scanRows cnd vals k) \<le> k"
  by (induction k) (auto simp: sorted_wrt_append)

lemma conditionRows_props:
  assumes "conditionRows c sh = Inr rs"
  shows "distinct rs \<and> (\<forall>r \<in> set rs. 1 \<le> r \<and> r \<le> int (length (grid sh)))
         \<and> length rs < length (grid sh)"
proof -
  let ?col = "letterToColumn (toUpperCase (condColumn c))"
  let ?L = "getLastRow (grid sh)"
  from assms have ok: "1 \<le> int ?L" "1 \<le> ?col"
    by (auto simp: conditionRows_def Let_def getRange4_def split: if_splits)
  let ?vals = "getValues (grid sh) (Rect 1 (nat ?col) ?L 1)"
  have lv: "length ?vals = ?L" by (simp add: getValues_def)
  from assms ok have "scanRows c ?vals (length ?vals - 1) = rs"
    by (simp add: conditionRows_def Let_def getRange4_def)
  then have rs: "rs = scanRows c ?vals (?L - 1)" unfolding lv by (rule sym)
  note p = scanRows_props [of c ?vals "?L - 1"]
  have le: "?L \<le> length (grid sh)" by (rule getLastRow_le)
  have d: "distinct rs"
    using p unfolding rs by (metis distinct_rev sorted_wrt_rev strict_sorted_iff)
  have b: "\<forall>r \<in> set rs. 1 \<le> r \<and> r \<le> int (length (grid sh))"
    using p le ok unfolding rs by fastforce
  have l: "length rs < length (grid sh)"
    using p le ok unfolding rs by linarith
  from d b l show ?thesis by blast
qed

text \<open>
  The batches of a list without repeats. Let \<^verbatim>\<open>_deleteRows\<close> have its sheet and a non-empty
  final list of rows \<open>rs\<close>: the rows scanned for the condition, which never repeat a row, or
  the rows given, when no row is given twice, all are rows of the sheet and at least one row
  is left on it, as the host demands. Then the call returns its message and the host calls it
  issues are one \<^verbatim>\<open>deleteRows\<close> per batch of a list \<open>bs\<close> of batches such that: the rows of the
  batches, in the order of the calls and highest first inside a batch, are the rows of \<open>rs\<close>
  in descending order; and each batch lies below the one before it with at least one kept row
  between them. Afterwards the sheet has as many rows less as \<open>rs\<close> has rows.
\<close>

lemma deleteRows_batches_without_repeats:
  assumes "getSheet wb n = Inr sh" "requestedRows cnd rws sh = Inr (Some rs)" "rs \<noteq> []"
    and "cnd = None \<longrightarrow>
           distinct rs \<and> (\<forall>r \<in> set rs. 1 \<le> r \<and> r \<le> int (length (grid sh)))
           \<and> length rs < length (grid sh)"
  shows "\<exists>bs wb' sh'.
           deleteRows n rws cnd wb =
             (Inr (''Deleted '' @ showInt (int (length rs)) @ '' row(s) from '' @ sname sh), wb')
           \<and> calls wb' = calls wb @ map (\<lambda>(p, c). Call_deleteRows (sname sh) p c) bs
           \<and> separated bs \<and> concat (map rowsOf bs) = rev (sort rs)
           \<and> getSheetByName wb' (sname sh) = Some sh'
           \<and> int (length (grid sh')) = int (length (grid sh)) - int (length rs)"
proof -
  have props: "distinct rs \<and> (\<forall>r \<in> set rs. 1 \<le> r \<and> r \<le> int (length (grid sh)))
           \<and> length rs < length (grid sh)"
  proof (cases cnd)
    case None
    with assms(4) show ?thesis by blast
  next
    case (Some c)
    with assms(2) have "conditionRows c sh = Inr rs"
      by (auto simp: requestedRows_def split: sum.splits)
    then show ?thesis by (rule conditionRows_props)
  qed
  let ?xs = "rev (sort rs)"
  have sd: "sorted_wrt (>) ?xs" using props desc_sort by blast
  have ps: "\<forall>r \<in> set ?xs. 1 \<le> r" using props by simp
  have byName: "getSheetByName wb (sname sh) = Some sh" by (rule getSheet_byName [OF assms(1)])
  have "length ?xs = length rs" by simp
  with assms(3) have ne: "?xs \<noteq> []" by (metis length_0_conv)
  have "0 < length ?xs" using assms(3) by simp
  then have "?xs ! 0 \<in> set ?xs" by (rule nth_mem)
  then have top: "?xs \<noteq> [] \<longrightarrow> ?xs ! 0 \<le> int (length (grid sh))" using props by simp
  have len: "int (length ?xs) < int (length (grid sh))" using props by simp
  from deleteLoop_batches [OF sd ps, of 0 wb "sname sh" sh "int (length (grid sh))" 0]
    byName top len
  obtain bs wb' sh' where
    loop: "deleteLoop (sname sh) ?xs 0 0 wb = (Inr (0 + int (length ?xs - 0)), wb')"
    and rest: "calls wb' = calls wb @ map (\<lambda>(p, c). Call_deleteRows (sname sh) p c) bs"
      "separated bs" "concat (map rowsOf bs) = drop 0 ?xs"
      "getSheetByName wb' (sname sh) = Some sh'"
      "int (length (grid sh')) = int (length (grid sh)) - int (length ?xs)"
    by auto
  have "deleteRows n rws cnd wb =
             (Inr (''Deleted '' @ showInt (int (length rs)) @ '' row(s) from '' @ sname sh), wb')"
    using assms(1,2,3) loop by (simp add: deleteRows_def)
  with rest show ?thesis by (intro exI [of _ bs] exI [of _ wb'] exI [of _ sh']) simp
qed

lemma deleteRows_batches_without_repeats_example:
  "(\<exists>bs wb' sh'.
      deleteRows ''Data'' (Some [4, 9, 3, 5]) None twentyBook =
        (Inr (''Deleted '' @ showInt (int (length [4, 9, 3, 5 :: int])) @ '' row(s) from ''
                @ ''Data''), wb')
      \<and> calls wb' = calls twentyBook @ map (\<lambda>(p, c). Call_deleteRows ''Data'' p c) bs
      \<and> separated bs \<and> concat (map rowsOf bs) = rev (sort [4, 9, 3, 5])
      \<and> getSheetByName wb' ''Data'' = Some sh'
      \<and> int (length (grid sh')) = int (length twentyRows) - int (length [4, 9, 3, 5 :: int]))
   \<and> calls (snd (deleteRows ''Data'' (Some [4, 9, 3, 5]) None twentyBook))
       = [Call_deleteRows ''Data'' 9 1, Call_deleteRows ''Data'' 3 3]
   \<and> map grid (sheets (snd (deleteRows ''Data'' (Some [4, 9, 3, 5]) None twentyBook)))
       = [[[''r1''], [''r2''], [''r6''], [''r7''], [''r8''], [''r10''], [''r11''], [''r12''],
           [''r13''], [''r14''], [''r15''], [''r16''], [''r17''], [''r18''], [''r19''],
           [''r20'']]]"
proof -
  let ?sh = "\<lparr>sname = ''Data'', grid = twentyRows\<rparr>"
  have h1: "getSheet twentyBook ''Data'' = Inr ?sh"
    by (simp add: getSheet_def getSheetByName_def twentyBook_def)
  have h2: "requestedRows None (Some [4, 9, 3, 5]) ?sh = Inr (Some [4, 9, 3, 5])"
    by (simp add: requestedRows_def)
  have h3: "[4, 9, 3, 5 :: int] \<noteq> []" by simp
  have h4: "(None :: condition option) = None \<longrightarrow>
           distinct [4, 9, 3, 5 :: int]
           \<and> (\<forall>r \<in> set [4, 9, 3, 5 :: int]. 1 \<le> r \<and> r \<le> int (length (grid ?sh)))
           \<and> length [4, 9, 3, 5 :: int] < length (grid ?sh)"
    by (simp add: twentyRows_def)
  note t = deleteRows_batches_without_repeats [OF h1 h2 h3 h4]
  have e: "deleteRows ''Data'' (Some [4, 9, 3, 5]) None twentyBook =
     (Inr (''Deleted '' @ showInt 4 @ '' row(s) from Data''),
      \<lparr>sheets =
         [\<lparr>sname = ''Data'',
            grid = [[''r1''], [''r2''], [''r6''], [''r7''], [''r8''], [''r10''], [''r11''],
                    [''r12''], [''r13''], [''r14''], [''r15''], [''r16''], [''r17''], [''r18''],
                    [''r19''], [''r20'']]\<rparr>],
       active = ''Data'', activeRange = None,
       calls = [Call_deleteRows ''Data'' 9 1, Call_deleteRows ''Data'' 3 3]\<rparr>)"
    by (simp add: deleteRows_def getSheet_def getSheetByName_def twentyBook_def twentyRows_def
          requestedRows_def deleteLoop.simps runLength.simps deleteRowsHost_def issue_def
          onGrid_def)
  have e2: "calls (snd (deleteRows ''Data'' (Some [4, 9, 3, 5]) None twentyBook))
       = [Call_deleteRows ''Data'' 9 1, Call_deleteRows ''Data'' 3 3]"
    unfolding e by simp
  have e3: "map grid (sheets (snd (deleteRows ''Data'' (Some [4, 9, 3, 5]) None twentyBook)))
       = [[[''r1''], [''r2''], [''r6''], [''r7''], [''r8''], [''r10''], [''r11''], [''r12''],
           [''r13''], [''r14''], [''r15''], [''r16''], [''r17''], [''r18''], [''r19''],
           [''r20'']]]"
    unfolding e by simp
  have s: "sname ?sh = ''Data''" "grid ?sh = twentyRows" by simp_all
  from t [unfolded s] e2 e3 show ?thesis by blast
qed

lemma showInt_2_4: "showInt 2 = ''2''" "showInt 4 = ''4''"
  by code_simp+

text \<open>
  Claim C3 says that for every call of \<^verbatim>\<open>deleteRows\<close> with a non-empty final row set the
  deletions are in strictly descending order of row index, every maximal run of consecutive
  rows being one delete call, so that the rows of the set are the rows removed. The script
  sorts the rows but never drops a row given twice, and the test that extends a batch,
  \<^verbatim>\<open>rows[i + count] === start - count\<close>, fails on the second copy, which then starts a batch of
  its own at a position the first deletion has already moved. The theorem evaluates the
  script on a sheet of twenty rows. Given the rows 3 and 3 it issues \<^verbatim>\<open>deleteRows(3, 1)\<close>
  twice, at the same position, and the sheet loses row 4 as well as row 3. Given the rows 5,
  4, 4 and 3 it issues \<^verbatim>\<open>deleteRows(4, 2)\<close> and then \<^verbatim>\<open>deleteRows(3, 2)\<close>, two batches that
  overlap, and the sheet loses row 6, which was never asked for. On a list that repeats no
  row the script does what the claim says (lemma \<open>deleteRows_batches_without_repeats\<close>).
\<close>

theorem deleteRows_repeated_row_at_twenty_sheet:
  "deleteRows ''Data'' (Some [3, 3]) None twentyBook =
     (Inr ''Deleted 2 row(s) from Data'',
      \<lparr>sheets =
         [\<lparr>sname = ''Data'',
            grid = [[''r1''], [''r2''], [''r5''], [''r6''], [''r7''], [''r8''], [''r9''],
                    [''r10''], [''r11''], [''r12''], [''r13''], [''r14''], [''r15''], [''r16''],
                    [''r17''], [''r18''], [''r19''], [''r20'']]\<rparr>],
       active = ''Data'', activeRange = None,
       calls = [Call_deleteRows ''Data'' 3 1, Call_deleteRows ''Data'' 3 1]\<rparr>)
   \<and> deleteRows ''Data'' (Some [5, 4, 4, 3]) None twentyBook =
     (Inr ''Deleted 4 row(s) from Data'',
      \<lparr>sheets =
         [\<lparr>sname = ''Data'',
            grid = [[''r1''], [''r2''], [''r7''], [''r8''], [''r9''],
                    [''r10''], [''r11''], [''r12''], [''r13''], [''r14''], [''r15''], [''r16''],
                    [''r17''], [''r18''], [''r19''], [''r20'']]\<rparr>],
       active = ''Data'', activeRange = None,
       calls = [Call_deleteRows ''Data'' 4 2, Call_deleteRows ''Data'' 3 2]\<rparr>)
   \<and> cellAt twentyRows 4 1 = ''r4'' \<and> cellAt twentyRows 6 1 = ''r6''
   \<and> \<not> separated [(3, 1), (3, 1)] \<and> \<not> separated [(4, 2), (3, 2)]"
proof -
  have a: "deleteRows ''Data'' (Some [3, 3]) None twentyBook =
     (Inr ''Deleted 2 row(s) from Data'',
      \<lparr>sheets =
         [\<lparr>sname = ''Data'',
            grid = [[''r1''], [''r2''], [''r5''], [''r6''], [''r7''], [''r8''], [''r9''],
                    [''r10''], [''r11''], [''r12''], [''r13''], [''r14''], [''r15''], [''r16''],
                    [''r17''], [''r18''], [''r19''], [''r20'']]\<rparr>],
       active = ''Data'', activeRange = None,
       calls = [Call_deleteRows ''Data'' 3 1, Call_deleteRows ''Data'' 3 1]\<rparr>)"
    by (simp add: deleteRows_def getSheet_def getSheetByName_def twentyBook_def twentyRows_def
          requestedRows_def deleteLoop.simps runLength.simps deleteRowsHost_def issue_def
          onGrid_def showInt_2_4)
  have b: "deleteRows ''Data'' (Some [5, 4, 4, 3]) None twentyBook =
     (Inr ''Deleted 4 row(s) from Data'',
      \<lparr>sheets =
         [\<lparr>sname = ''Data'',
            grid = [[''r1''], [''r2''], [''r7''], [''r8''], [''r9''],
                    [''r10''], [''r11''], [''r12''], [''r13''], [''r14''], [''r15''], [''r16''],
                    [''r17''], [''r18''], [''r19''], [''r20'']]\<rparr>],
       active = ''Data'', activeRange = None,
       calls = [Call_deleteRows ''Data'' 4 2, Call_deleteRows ''Data'' 3 2]\<rparr>)"
    by (simp add: deleteRows_def getSheet_def getSheetByName_def twentyBook_def twentyRows_def
          requestedRows_def deleteLoop.simps runLength.simps deleteRowsHost_def issue_def
          onGrid_def showInt_2_4)
  have c: "cellAt twentyRows 4 1 = ''r4'' \<and> cellAt twentyRows 6 1 = ''r6''"
    by (simp add: cellAt_def twentyRows_def)
  have d: "\<not> separated [(3, 1), (3, 1)] \<and> \<not> separated [(4, 2), (3, 2)]" by simp
  from a b c d show ?thesis by blast
qed

subsection \<open>The payload guard of the sheet reader\<close>

lemma readSheetData_payload:
  "fst (readSheetData H sh wb cache) =
     (if MAX_CELLS < length (cellsBuilt sh cache) then
        \<lparr>sheetName = sname sh,
         dataRange = getA1Notation H (getDataRange (grid sh)),
         cells = [],
         totalRows = nrows (getDataRange (grid sh)),
         totalColumns = ncols (getDataRange (grid sh)),
         truncated = True,
         truncatedReason =
           Some (''Sheet has '' @ showNat (length (cellsBuilt sh cache)) @ '' cells (max ''
                   @ showNat MAX_CELLS @ ''). Please select a smaller range.''),
         cellCount = Some (length (cellsBuilt sh cache)),
         selectedRange = map_option (getA1Notation H) (activeRange wb),
         selectedValues =
           (case activeRange wb of
              None \<Rightarrow> []
            | Some rc \<Rightarrow>
                (case getActiveSheet wb of None \<Rightarrow> [] | Some ash \<Rightarrow> getValues (grid ash) rc))\<rparr>
      else
        \<lparr>sheetName = sname sh,
         dataRange = getA1Notation H (getDataRange (grid sh)),
         cells = cellsBuilt sh cache,
         totalRows = nrows (getDataRange (grid sh)),
         totalColumns = ncols (getDataRange (grid sh)),
         truncated = (MAX_ROWS < nrows (getDataRange (grid sh))),
         truncatedReason = None,
         cellCount = None,
         selectedRange = map_option (getA1Notation H) (activeRange wb),
         selectedValues =
           (case activeRange wb of
              None \<Rightarrow> []
            | Some rc \<Rightarrow>
                (case getActiveSheet wb of None \<Rightarrow> [] | Some ash \<Rightarrow> getValues (grid ash) rc))\<rparr>)"
  by (simp add: readSheetData_def cellsBuilt_def valuesRead_def Let_def split: prod.splits)

lemma length_valuesRead: "length (valuesRead sh) \<le> MAX_ROWS"
  by (simp add: valuesRead_def getValues_def)

lemma row_length_valuesRead:
  "row \<in> set (valuesRead sh) \<Longrightarrow> length row = ncols (getDataRange (grid sh))"
  by (auto simp: valuesRead_def getValues_def)


lemma colLetterLoop_upper:
  "list_all isUpperAZ acc \<Longrightarrow> list_all isUpperAZ (colLetterLoop c acc)"
proof (induction c acc rule: colLetterLoop.induct)
  case (1 c letter)
  show ?case
  proof (cases "c > 0")
    case False
    then show ?thesis using "1.prems" by (subst colLetterLoop.simps) simp
  next
    case True
    let ?m = "(c - 1) mod 26"
    have m: "0 \<le> ?m" "?m < 26" by simp_all
    have "(of_char (char_of (65 + ?m) :: char) :: int) = 65 + ?m" using m by simp
    then have "int (of_char (char_of (65 + ?m) :: char)) = 65 + ?m"
      by (simp add: of_nat_of_char)
    then have "isUpperAZ (char_of (65 + ?m))" using m unfolding isUpperAZ_def by linarith
    with "1.prems" have "list_all isUpperAZ (char_of (65 + ?m) # letter)" by simp
    from "1.IH" [OF True this] show ?thesis using True by (subst colLetterLoop.simps) simp
  qed
qed

lemma colLetterLoop_inj:
  "0 \<le> a \<Longrightarrow> 0 \<le> b \<Longrightarrow> colLetterLoop a [] = colLetterLoop b [] \<Longrightarrow> a = b"
  using letterToColumn_loop_id by metis

lemma showNat_digits: "list_all isDigit (showNat n)"
proof (induction n rule: showNat.induct)
  case (1 n)
  have d: "\<And>k :: nat. k < 10 \<Longrightarrow> isDigit (char_of (48 + k))"
    by (simp add: isDigit_def)
  show ?case
  proof (cases "n < 10")
    case True
    then show ?thesis using d by (subst showNat.simps) simp
  next
    case False
    have "n mod 10 < 10" by simp
    with d have "isDigit (char_of (48 + n mod 10))" by blast
    with 1 False show ?thesis by (subst showNat.simps) simp
  qed
qed

lemma parseInt_showNat: "parseInt (showNat n) = n"
proof (induction n rule: showNat.induct)
  case (1 n)
  have v: "\<And>k :: nat. k < 10 \<Longrightarrow> (of_char (char_of (48 + k) :: char) :: nat) - 48 = k"
    by simp
  show ?case
  proof (cases "n < 10")
    case True
    then show ?thesis using v by (subst showNat.simps) (simp add: parseInt_def)
  next
    case False
    have "n mod 10 < 10" by simp
    with v have "(of_char (char_of (48 + n mod 10) :: char) :: nat) - 48 = n mod 10" by blast
    with 1 False show ?thesis
      by (subst showNat.simps) (simp add: parseInt_def)
  qed
qed

lemma showNat_inj: "showNat a = showNat b \<Longrightarrow> a = b"
  using parseInt_showNat by metis

lemma digit_not_upper: "isDigit ch \<Longrightarrow> \<not> isUpperAZ ch"
  by (simp add: isDigit_def isUpperAZ_def)

lemma takeWhile_upper_digits: "list_all isDigit b \<Longrightarrow> takeWhile isUpperAZ b = []"
  by (cases b) (simp_all add: digit_not_upper)

lemma letters_digits_split:
  assumes "list_all isUpperAZ a" "list_all isUpperAZ a'" "list_all isDigit b" "list_all isDigit b'"
    and "a @ b = a' @ b'"
  shows "a = a' \<and> b = b'"
proof -
  have "takeWhile isUpperAZ (a @ b) = a"
    using assms(1,3) by (simp add: takeWhile_append2 list_all_iff takeWhile_upper_digits)
  moreover have "takeWhile isUpperAZ (a' @ b') = a'"
    using assms(2,4) by (simp add: takeWhile_append2 list_all_iff takeWhile_upper_digits)
  ultimately have "a = a'" using assms(5) by simp
  with assms(5) show ?thesis by simp
qed

lemma colLettersLoop_ok:
  "cacheOk cache \<Longrightarrow>
   fst (colLettersLoop startCol cs acc cache)
     = acc @ map (\<lambda>c. colLetterLoop (int (startCol + c)) []) cs"
proof (induction cs arbitrary: acc cache)
  case Nil
  then show ?case by simp
next
  case (Cons c cs)
  obtain l cache' where r: "colLetter (int (startCol + c)) cache = (l, cache')"
    by (cases "colLetter (int (startCol + c)) cache")
  from colLetter_fst [OF Cons.prems, of "int (startCol + c)"] r
  have l: "l = colLetterLoop (int (startCol + c)) []" by simp
  from colLetter_snd_ok [OF Cons.prems, of "int (startCol + c)"] r
  have ok: "cacheOk cache'" by simp
  show ?case using Cons.IH [OF ok, of "acc @ [l]"] r l by simp
qed


lemma key_inj:
  assumes up: "\<forall>c < length ls. list_all isUpperAZ (ls ! c)" and di: "distinct ls"
    and c: "c < length ls" "c' < length ls"
    and eq: "letterAt ls c @ showNat rn = letterAt ls c' @ showNat rn'"
  shows "c = c' \<and> rn = rn'"
proof -
  from c have l: "letterAt ls c = ls ! c" "letterAt ls c' = ls ! c'" by (simp_all add: letterAt_def)
  from letters_digits_split [of "ls ! c" "ls ! c'" "showNat rn" "showNat rn'"] up c eq l
  have "ls ! c = ls ! c' \<and> showNat rn = showNat rn'" by (simp add: showNat_digits)
  then show ?thesis using di c showNat_inj by (auto simp: nth_eq_iff_index_eq)
qed

lemma cellsOfRow_keys_prefix:
  assumes fresh: "\<forall>c < length row. letterAt ls c @ showNat rn \<notin> set (map fst acc)"
    and inj: "\<forall>c c'. c < length row \<and> c' < length row
                \<and> letterAt ls c @ showNat rn = letterAt ls c' @ showNat rn \<longrightarrow> c = c'"
  shows "m \<le> length row \<Longrightarrow>
         map fst (fold (\<lambda>c acc. if row ! c = [] then acc
                                 else AList.update (letterAt ls c @ showNat rn) (row ! c) acc)
                       [0 ..< m] acc)
           = map fst acc @ map (\<lambda>c. letterAt ls c @ showNat rn)
                              (filter (\<lambda>c. row ! c \<noteq> []) [0 ..< m])"
proof (induction m)
  case 0
  then show ?case by simp
next
  case (Suc m)
  let ?f = "\<lambda>c acc. if row ! c = [] then acc
                      else AList.update (letterAt ls c @ showNat rn) (row ! c) acc"
  let ?R = "fold ?f [0 ..< m] acc"
  from Suc have IH: "map fst ?R = map fst acc @ map (\<lambda>c. letterAt ls c @ showNat rn)
                              (filter (\<lambda>c. row ! c \<noteq> []) [0 ..< m])" by simp
  have m: "m < length row" using Suc.prems by simp
  have notin: "letterAt ls m @ showNat rn \<notin> set (map fst ?R)"
  proof
    assume "letterAt ls m @ showNat rn \<in> set (map fst ?R)"
    then consider "letterAt ls m @ showNat rn \<in> set (map fst acc)"
      | c where "c < m" "letterAt ls m @ showNat rn = letterAt ls c @ showNat rn"
      unfolding IH by auto
    then show False
    proof cases
      case 1
      with fresh m show False by blast
    next
      case (2 c)
      with inj m have "m = c" by (metis less_trans)
      with 2 show False by simp
    qed
  qed
  have step: "fold ?f [0 ..< Suc m] acc = ?f m ?R" by simp
  show ?case
  proof (cases "row ! m = []")
    case True
    then show ?thesis unfolding step using IH by simp
  next
    case False
    then show ?thesis unfolding step using IH notin by (simp add: update_keys)
  qed
qed

lemma cellsOfRow_keys:
  assumes "\<forall>c < length row. letterAt ls c @ showNat rn \<notin> set (map fst acc)"
    and "\<forall>c c'. c < length row \<and> c' < length row
                \<and> letterAt ls c @ showNat rn = letterAt ls c' @ showNat rn \<longrightarrow> c = c'"
  shows "map fst (cellsOfRow ls rn row acc)
           = map fst acc @ map (\<lambda>c. letterAt ls c @ showNat rn)
                              (filter (\<lambda>c. row ! c \<noteq> []) [0 ..< length row])"
  unfolding cellsOfRow_def using cellsOfRow_keys_prefix [OF assms, of "length row"] by simp

lemma count_filled: "length (filter (\<lambda>c. row ! c \<noteq> []) [0 ..< length row])
                       = length (filter (\<lambda>v. v \<noteq> []) row)"
proof -
  have "filter (\<lambda>v. v \<noteq> []) (map (\<lambda>c. row ! c) [0 ..< length row])
          = map (\<lambda>c. row ! c) (filter (\<lambda>c. row ! c \<noteq> []) [0 ..< length row])"
    by (simp add: filter_map comp_def)
  moreover have "map (\<lambda>c. row ! c) [0 ..< length row] = row" by (rule map_nth)
  ultimately show ?thesis by (metis length_map)
qed

lemma cellsOfValues_keys_prefix:
  assumes up: "\<forall>c < length ls. list_all isUpperAZ (ls ! c)" and di: "distinct ls"
    and w: "\<forall>row \<in> set vals. length row \<le> length ls"
  shows "n \<le> length vals \<Longrightarrow>
         map fst (fold (\<lambda>r acc. cellsOfRow ls (startRow + r) (vals ! r) acc) [0 ..< n] [])
           = concat (map (\<lambda>r. map (\<lambda>c. letterAt ls c @ showNat (startRow + r))
                                   (filter (\<lambda>c. vals ! r ! c \<noteq> []) [0 ..< length (vals ! r)]))
                         [0 ..< n])"
proof (induction n)
  case 0
  then show ?case by simp
next
  case (Suc n)
  let ?g = "\<lambda>r acc. cellsOfRow ls (startRow + r) (vals ! r) acc"
  let ?R = "fold ?g [0 ..< n] []"
  let ?keys = "\<lambda>r. map (\<lambda>c. letterAt ls c @ showNat (startRow + r))
                         (filter (\<lambda>c. vals ! r ! c \<noteq> []) [0 ..< length (vals ! r)])"
  from Suc have IH: "map fst ?R = concat (map ?keys [0 ..< n])" by simp
  have n: "n < length vals" using Suc.prems by simp
  then have wn: "length (vals ! n) \<le> length ls" using w by simp
  have fresh: "\<forall>c < length (vals ! n). letterAt ls c @ showNat (startRow + n) \<notin> set (map fst ?R)"
  proof (intro allI impI notI)
    fix c assume c: "c < length (vals ! n)"
      and "letterAt ls c @ showNat (startRow + n) \<in> set (map fst ?R)"
    then obtain r c' where r: "r < n" and c': "c' < length (vals ! r)"
      and eq: "letterAt ls c @ showNat (startRow + n) = letterAt ls c' @ showNat (startRow + r)"
      unfolding IH by auto
    from r n have "vals ! r \<in> set vals" by simp
    with w c' have c'l: "c' < length ls" by fastforce
    from c wn have cl: "c < length ls" by simp
    from key_inj [OF up di cl c'l eq] r show False by simp
  qed
  have inj: "\<forall>c c'. c < length (vals ! n) \<and> c' < length (vals ! n)
                \<and> letterAt ls c @ showNat (startRow + n) = letterAt ls c' @ showNat (startRow + n)
                \<longrightarrow> c = c'"
    using key_inj [OF up di] wn by (meson less_le_trans)
  have step: "fold ?g [0 ..< Suc n] [] = ?g n ?R" by simp
  show ?case
    unfolding step using cellsOfRow_keys [OF fresh inj] IH by simp
qed

lemma length_filter_concat:
  "length (filter P (concat xss)) = sum_list (map (\<lambda>xs. length (filter P xs)) xss)"
  by (induction xss) simp_all

lemma cellsOfValues_count:
  assumes up: "\<forall>c < length ls. list_all isUpperAZ (ls ! c)" and di: "distinct ls"
    and w: "\<forall>row \<in> set vals. length row \<le> length ls"
  shows "length (cellsOfValues ls startRow vals) = length (filter (\<lambda>v. v \<noteq> []) (concat vals))"
proof -
  let ?keys = "\<lambda>r. map (\<lambda>c. letterAt ls c @ showNat (startRow + r))
                         (filter (\<lambda>c. vals ! r ! c \<noteq> []) [0 ..< length (vals ! r)])"
  have "map fst (cellsOfValues ls startRow vals) = concat (map ?keys [0 ..< length vals])"
    unfolding cellsOfValues_def
    using cellsOfValues_keys_prefix [OF up di w, of "length vals" startRow] by simp
  then have "length (cellsOfValues ls startRow vals) = length (concat (map ?keys [0 ..< length vals]))"
    by (metis length_map)
  also have "\<dots> = sum_list (map (\<lambda>r. length (filter (\<lambda>v. v \<noteq> []) (vals ! r))) [0 ..< length vals])"
    by (simp add: length_concat comp_def count_filled)
  also have "\<dots> = sum_list (map (\<lambda>row. length (filter (\<lambda>v. v \<noteq> []) row))
                                   (map (\<lambda>r. vals ! r) [0 ..< length vals]))"
    by (simp add: comp_def)
  also have "\<dots> = sum_list (map (\<lambda>row. length (filter (\<lambda>v. v \<noteq> []) row)) vals)"
    by (simp only: map_nth)
  finally show ?thesis by (simp add: length_filter_concat)
qed


lemma cellsBuilt_count:
  assumes "cacheOk cache"
  shows "length (cellsBuilt sh cache) = length (filter (\<lambda>v. v \<noteq> []) (concat (valuesRead sh)))"
proof -
  let ?dr = "getDataRange (grid sh)"
  let ?ls = "map (\<lambda>c. colLetterLoop (int (rcol ?dr + c)) []) [0 ..< ncols ?dr]"
  have ls: "fst (colLettersLoop (rcol ?dr) [0 ..< ncols ?dr] [] cache) = ?ls"
    using colLettersLoop_ok [OF assms, of "rcol ?dr" "[0 ..< ncols ?dr]" "[]"] by simp
  have up: "\<forall>c < length ?ls. list_all isUpperAZ (?ls ! c)"
    using colLetterLoop_upper [of "[]"] by simp
  have "inj_on (\<lambda>c. colLetterLoop (int (rcol ?dr + c)) []) (set [0 ..< ncols ?dr])"
  proof (rule inj_onI)
    fix x y
    assume "colLetterLoop (int (rcol ?dr + x)) [] = colLetterLoop (int (rcol ?dr + y)) []"
    then have "int (rcol ?dr + x) = int (rcol ?dr + y)"
      by (intro colLetterLoop_inj) simp_all
    then show "x = y" by simp
  qed
  then have di: "distinct ?ls" by (simp add: distinct_map)
  have w: "\<forall>row \<in> set (valuesRead sh). length row \<le> length ?ls"
    using row_length_valuesRead [of _ sh] by simp
  show ?thesis
    unfolding cellsBuilt_def ls by (rule cellsOfValues_count [OF up di w])
qed

lemma rowBlank_replicate: "rowBlank (replicate m v) = (m = 0 \<or> v = [])"
  by (auto simp: rowBlank_def list_all_iff)

lemma getLastRow_replicate:
  "0 < m \<Longrightarrow> v \<noteq> [] \<Longrightarrow> getLastRow (replicate n (replicate m v)) = n"
  by (simp add: getLastRow_def rowBlank_replicate takeWhile_replicate)

lemma lastFilled_replicate: "v \<noteq> [] \<Longrightarrow> lastFilled (replicate m v) = m"
  by (simp add: lastFilled_def takeWhile_replicate)

lemma getLastColumn_replicate:
  "v \<noteq> [] \<Longrightarrow> getLastColumn (replicate n (replicate m v)) = (if n = 0 then 0 else m)"
  by (induction n) (simp_all add: getLastColumn_def lastFilled_replicate)

lemma getDataRange_replicate:
  "0 < n \<Longrightarrow> 0 < m \<Longrightarrow> v \<noteq> [] \<Longrightarrow> getDataRange (replicate n (replicate m v)) = Rect 1 1 n m"
  by (simp add: getDataRange_def getLastRow_replicate getLastColumn_replicate)

lemma getValues_replicate:
  assumes "k \<le> n"
  shows "getValues (replicate n (replicate m v)) (Rect 1 1 k m) = replicate k (replicate m v)"
proof -
  have row: "\<And>i. i \<in> set [1 ..< 1 + k] \<Longrightarrow>
               map (\<lambda>j. cellAt (replicate n (replicate m v)) i j) [1 ..< 1 + m] = replicate m v"
  proof -
    fix i assume i: "i \<in> set [1 ..< 1 + k]"
    have "map (\<lambda>j. cellAt (replicate n (replicate m v)) i j) [1 ..< 1 + m]
            = map (\<lambda>j. v) [1 ..< 1 + m]"
      using i assms by (intro map_cong) (auto simp: cellAt_def)
    then show "map (\<lambda>j. cellAt (replicate n (replicate m v)) i j) [1 ..< 1 + m] = replicate m v"
      by (simp add: map_replicate_const)
  qed
  have "getValues (replicate n (replicate m v)) (Rect 1 1 k m)
          = map (\<lambda>i. replicate m v) [1 ..< 1 + k]"
    unfolding getValues_def rect.sel by (rule map_cong [OF refl]) (rule row)
  then show ?thesis by (simp add: map_replicate_const)
qed

lemma count_replicate:
  "v \<noteq> [] \<Longrightarrow> length (filter (\<lambda>x. x \<noteq> []) (concat (replicate k (replicate m v)))) = k * m"
  by (induction k) simp_all

lemma wide_values: "valuesRead wideSheet = replicate 2000 (replicate 26 ''x'')"
proof -
  have dr: "getDataRange (grid wideSheet) = Rect 1 1 2000 26"
    unfolding wideSheet_def by (simp add: getDataRange_replicate)
  have "getValues (replicate 2000 (replicate 26 ''x'')) (Rect 1 1 2000 26)
          = replicate 2000 (replicate 26 ''x'')"
    by (rule getValues_replicate) simp
  then show ?thesis
    unfolding valuesRead_def dr rect.sel MAX_ROWS_def by (simp add: wideSheet_def)
qed

lemma cacheOk_empty: "cacheOk Map.empty"
  by (simp add: cacheOk_def)

lemma wide_count: "length (cellsBuilt wideSheet Map.empty) = 52000"
proof -
  have "length (filter (\<lambda>x. x \<noteq> []) (concat (replicate 2000 (replicate 26 ''x'')))) = 2000 * 26"
    by (rule count_replicate) simp
  then show ?thesis
    using cellsBuilt_count [OF cacheOk_empty, of wideSheet] unfolding wide_values by simp
qed


text \<open>Claim C9, as the code has it. \<^verbatim>\<open>getSheetData\<close> reads the active sheet through
  \<^verbatim>\<open>_readSheetData\<close>. At most \<^verbatim>\<open>MAX_ROWS\<close> rows of the data range are read into
  \<^verbatim>\<open>values\<close>. The script then builds the whole \<^verbatim>\<open>cells\<close> object, one entry for every
  non-empty value read, and only afterwards counts its keys. When that count exceeds
  \<^verbatim>\<open>MAX_CELLS\<close> the payload returned has \<^verbatim>\<open>truncated\<close> set, an empty \<^verbatim>\<open>cells\<close> map, the
  reason text and the count; otherwise the map that was built is returned. The values of the
  current selection are returned in full in both cases. So the oversized map is never
  returned, but it is built in the script's memory first.\<close>

theorem getSheetData_payload_guard:
  assumes "cacheOk cache"
    and "getActiveSheet wb = Some sh"
    and "getSheetData H wb cache = Some (p, cache')"
  shows "length (valuesRead sh) \<le> MAX_ROWS
       \<and> length (cellsBuilt sh cache) = length (filter (\<lambda>v. v \<noteq> []) (concat (valuesRead sh)))
       \<and> (MAX_CELLS < length (cellsBuilt sh cache) \<longrightarrow>
             truncated p \<and> cells p = []
           \<and> truncatedReason p =
               Some (''Sheet has '' @ showNat (length (cellsBuilt sh cache)) @ '' cells (max ''
                       @ showNat MAX_CELLS @ ''). Please select a smaller range.'')
           \<and> cellCount p = Some (length (cellsBuilt sh cache)))
       \<and> (length (cellsBuilt sh cache) \<le> MAX_CELLS \<longrightarrow>
             cells p = cellsBuilt sh cache \<and> cellCount p = None \<and> truncatedReason p = None)
       \<and> selectedValues p = (case activeRange wb of None \<Rightarrow> [] | Some rc \<Rightarrow> getValues (grid sh) rc)"
proof -
  have p: "p = fst (readSheetData H sh wb cache)"
    using assms(2,3) by (simp add: getSheetData_def)
  have rows: "length (valuesRead sh) \<le> MAX_ROWS" by (rule length_valuesRead)
  have cnt: "length (cellsBuilt sh cache) = length (filter (\<lambda>v. v \<noteq> []) (concat (valuesRead sh)))"
    by (rule cellsBuilt_count [OF assms(1)])
  have over: "MAX_CELLS < length (cellsBuilt sh cache) \<longrightarrow>
             truncated p \<and> cells p = []
           \<and> truncatedReason p =
               Some (''Sheet has '' @ showNat (length (cellsBuilt sh cache)) @ '' cells (max ''
                       @ showNat MAX_CELLS @ ''). Please select a smaller range.'')
           \<and> cellCount p = Some (length (cellsBuilt sh cache))"
    unfolding p readSheetData_payload by simp
  have under: "length (cellsBuilt sh cache) \<le> MAX_CELLS \<longrightarrow>
             cells p = cellsBuilt sh cache \<and> cellCount p = None \<and> truncatedReason p = None"
    unfolding p readSheetData_payload by simp
  have sel: "selectedValues p = (case activeRange wb of None \<Rightarrow> [] | Some rc \<Rightarrow> getValues (grid sh) rc)"
    unfolding p readSheetData_payload using assms(2) by (simp split: option.splits)
  from rows cnt over under sel show ?thesis by blast
qed

lemma wide_active: "getActiveSheet wideBook = Some wideSheet"
  by (simp add: getActiveSheet_def getSheetByName_def wideBook_def wideSheet_def)

lemma wide_over: "MAX_CELLS < length (cellsBuilt wideSheet Map.empty)"
  unfolding wide_count by (simp add: MAX_CELLS_def)

lemma wide_payload:
  "truncated (fst (readSheetData H wideSheet wb Map.empty))
   \<and> cells (fst (readSheetData H wideSheet wb Map.empty)) = []
   \<and> cellCount (fst (readSheetData H wideSheet wb Map.empty)) = Some 52000"
  unfolding readSheetData_payload using wide_over by (simp add: wide_count)

theorem getSheetData_payload_guard_witness:
  "cacheOk Map.empty
   \<and> getActiveSheet wideBook = Some wideSheet
   \<and> length (valuesRead wideSheet) \<le> MAX_ROWS
   \<and> length (cellsBuilt wideSheet Map.empty) = 52000
   \<and> MAX_CELLS < length (cellsBuilt wideSheet Map.empty)
   \<and> (\<exists>p c. getSheetData plainHost wideBook Map.empty = Some (p, c)
          \<and> truncated p \<and> cells p = [] \<and> cellCount p = Some 52000
          \<and> selectedValues p = [])"
proof -
  obtain p c where pc: "readSheetData plainHost wideSheet wideBook Map.empty = (p, c)"
    by (cases "readSheetData plainHost wideSheet wideBook Map.empty") blast
  have g: "getSheetData plainHost wideBook Map.empty = Some (p, c)"
    by (simp add: getSheetData_def wide_active pc)
  have n: "activeRange wideBook = None" by (simp add: wideBook_def)
  from getSheetData_payload_guard [OF cacheOk_empty wide_active g] wide_over
  have "length (valuesRead wideSheet) \<le> MAX_ROWS"
    and "truncated p" and "cells p = []"
    and "cellCount p = Some (length (cellsBuilt wideSheet Map.empty))"
    and "selectedValues p = []"
    unfolding n by simp_all
  with g cacheOk_empty wide_active wide_over wide_count show ?thesis by auto
qed

text \<open>Claim C9 as stated fails: it says that the oversized map is never materialised. On a sheet of
  2000 rows and 26 columns, every cell filled, the \<^verbatim>\<open>cells\<close> object the script builds holds
  52000 entries, above the ceiling of 50000, before the guard looks at it: the count reported
  in the payload is the size of that object, while the map returned is empty.\<close>

theorem cells_built_before_guard_counterexample:
  "length (cellsBuilt wideSheet Map.empty) = 52000
   \<and> MAX_CELLS < length (cellsBuilt wideSheet Map.empty)
   \<and> cells (fst (readSheetData plainHost wideSheet wideBook Map.empty)) = []
   \<and> cellCount (fst (readSheetData plainHost wideSheet wideBook Map.empty))
       = Some (length (cellsBuilt wideSheet Map.empty))"
  using wide_over wide_payload [of plainHost wideBook] by (simp add: wide_count)

end
